(* ===== verification/Go_Prelude.thy ===== *)
theory Go_Prelude
  imports Main "HOL-Library.Sublist"
begin

text \<open>
  Vocabulary shared by every component: the outcome of a Go call that may panic, buffered
  channels, the generic run of a labelled state machine, and the two interfaces most components
  implement (a codec with its round-trip law, a state machine with an inductive invariant).
\<close>

named_theorems go_defs \<open>definitions of operations, unfolded by the component proofs\<close>
named_theorems go_inv \<open>preservation of the components' invariants\<close>

section \<open>Outcomes of Go calls\<close>

text \<open>
  A call either returns or panics. Error values that are returned are part of the returned
  value; \<open>Panic\<close> carries the text of the run-time error.
\<close>

datatype 'a go = Ret 'a | Panic string

fun go_bind :: "'a go \<Rightarrow> ('a \<Rightarrow> 'b go) \<Rightarrow> 'b go" where
  "go_bind (Ret x) f = f x"
| "go_bind (Panic m) f = Panic m"

fun is_ret :: "'a go \<Rightarrow> bool" where
  "is_ret (Ret _) = True"
| "is_ret (Panic _) = False"

lemma is_ret_iff: "is_ret x \<longleftrightarrow> (\<exists>y. x = Ret y)"
  by (cases x) auto

lemma go_bind_eq_Ret: "go_bind x f = Ret y \<longleftrightarrow> (\<exists>z. x = Ret z \<and> f z = Ret y)"
  by (cases x) auto

section \<open>Lists\<close>

text \<open>A separator that occurs in neither prefix is a unique point of division.\<close>

lemma append_Cons_first:
  "x \<notin> set a \<Longrightarrow> x \<notin> set b \<Longrightarrow> a @ x # c = b @ x # d \<longleftrightarrow> a = b \<and> c = d"
proof (induction a arbitrary: b)
  case Nil
  then show ?case by (cases b) auto
next
  case (Cons y a)
  then show ?case by (cases b) auto
qed

lemma list_all_update: "list_all P xs \<Longrightarrow> P x \<Longrightarrow> list_all P (xs[i := x])"
  by (auto simp: list_all_iff dest: set_update_subset_insert [THEN subsetD])

section \<open>Decimal numerals\<close>

fun dec_nat :: "nat \<Rightarrow> string" where
  "dec_nat n = (if n < 10 then [char_of (48 + n)] else dec_nat (n div 10) @ [char_of (48 + n mod 10)])"

declare dec_nat.simps [simp del]

definition dec_int :: "int \<Rightarrow> string" where
  "dec_int i = (if i < 0 then CHR ''-'' # dec_nat (nat (- i)) else dec_nat (nat i))"

lemma dec_nat_digits: "c \<in> set (dec_nat n) \<Longrightarrow> 48 \<le> (of_char c :: nat) \<and> (of_char c :: nat) \<le> 57"
proof (induction n rule: dec_nat.induct)
  case (1 n)
  then show ?case by (subst (asm) (2) dec_nat.simps) (auto split: if_splits)
qed

section \<open>Buffered channels\<close>

text \<open>A Go channel: its buffered values in arrival order, its capacity and whether it is closed.\<close>

record 'a chan =
  chan_buf :: "'a list"
  chan_cap :: nat
  chan_closed :: bool

definition make_chan :: "nat \<Rightarrow> 'a chan" where
  "make_chan n = \<lparr>chan_buf = [], chan_cap = n, chan_closed = False\<rparr>"

text \<open>
  The three answers of a non-blocking send (\<open>select\<close> with a \<open>default\<close> branch): the value was
  buffered, the buffer is full, or the channel is closed, in which case Go panics.
\<close>

datatype 'a send = Sent "'a chan" | WouldBlock | SendOnClosed

definition try_send :: "'a \<Rightarrow> 'a chan \<Rightarrow> 'a send" where
  "try_send x c =
     (if chan_closed c then SendOnClosed
      else if length (chan_buf c) < chan_cap c then Sent (c\<lparr>chan_buf := chan_buf c @ [x]\<rparr>)
      else WouldBlock)"

text \<open>Closing a channel; Go panics when it is closed already.\<close>

definition close_chan :: "'a chan \<Rightarrow> 'a chan go" where
  "close_chan c = (if chan_closed c then Panic ''close of closed channel'' else Ret (c\<lparr>chan_closed := True\<rparr>))"

definition chan_wf :: "'a chan \<Rightarrow> bool" where
  "chan_wf c \<longleftrightarrow> length (chan_buf c) \<le> chan_cap c"

lemma try_send_wf: "chan_wf c \<Longrightarrow> try_send x c = Sent c' \<Longrightarrow> chan_wf c'"
  by (auto simp: try_send_def chan_wf_def split: if_splits)

section \<open>Runs of a labelled machine\<close>

text \<open>
  \<open>run step s as\<close> performs the operations \<open>as\<close> in order; \<open>None\<close> means that some operation
  was not enabled (it blocks) where it was attempted.
\<close>

fun run :: "('s \<Rightarrow> 'a \<Rightarrow> 's option) \<Rightarrow> 's \<Rightarrow> 'a list \<Rightarrow> 's option" where
  "run step s [] = Some s"
| "run step s (a # as) = (case step s a of None \<Rightarrow> None | Some t \<Rightarrow> run step t as)"

lemma run_append: "run step s (as @ bs) = Option.bind (run step s as) (\<lambda>t. run step t bs)"
  by (induction as arbitrary: s) (auto split: option.splits)

inductive reachable :: "'s \<Rightarrow> ('s \<Rightarrow> 'a \<Rightarrow> 's \<Rightarrow> bool) \<Rightarrow> 's \<Rightarrow> bool" for init step where
  reachable_init: "reachable init step init"
| reachable_step: "reachable init step s \<Longrightarrow> step s a t \<Longrightarrow> reachable init step t"

lemmas reachable_intros = reachable_init reachable_step

text \<open>
  The interface of a machine with an inductive invariant: what holds at the start and is kept by
  every step holds in every state reached.
\<close>

locale invariant_machine =
  fixes init :: 's
    and step :: "'s \<Rightarrow> 'a \<Rightarrow> 's \<Rightarrow> bool"
    and inv :: "'s \<Rightarrow> bool"
  assumes inv_init: "inv init"
    and inv_step: "inv s \<Longrightarrow> step s a t \<Longrightarrow> inv t"
begin

lemma inv_reachable: "reachable init step s \<Longrightarrow> inv s"
  by (induction rule: reachable.induct) (auto intro: inv_init inv_step)

end

section \<open>Codecs\<close>

text \<open>
  The interface of an encoder and its decoder: decoding what was encoded gives the value back,
  for every value in the codec's domain. Two codecs compose.
\<close>

locale codec =
  fixes enc :: "'a \<Rightarrow> 'b"
    and dec :: "'b \<Rightarrow> 'a option"
    and dom_ok :: "'a \<Rightarrow> bool"
  assumes dec_enc: "dom_ok x \<Longrightarrow> dec (enc x) = Some x"
begin

lemma enc_inject: "dom_ok x \<Longrightarrow> dom_ok y \<Longrightarrow> enc x = enc y \<Longrightarrow> x = y"
  using dec_enc by (metis option.inject)

lemma dec_enc_bind: "dom_ok x \<Longrightarrow> Option.bind (dec (enc x)) f = f x"
  by (simp add: dec_enc)

end

end
