(* ===== verification/Blocking_Queue.thy ===== *)
theory Blocking_Queue
  imports Go_Prelude
begin

text \<open>
  Package blockingqueue (\<^verbatim>\<open>src/blockingqueue/queue.go\<close>): a queue that hands out the elements of a
  slice over a buffered channel and is refilled cyclically. The state is the Go struct; \<open>Take\<close>
  is the list of outcomes its \<open>select\<close> may choose from (none: the call blocks), \<open>Refill\<close> the
  loop of the source with its index panic. \<open>Refill\<close> holds a mutex, \<open>Take\<close> does not: the runs interleave takes with
  the single iterations of a \<open>Refill\<close> in progress.
\<close>

section \<open>The queue\<close>

record 'a Queue =
  elements :: "'a list"
  elementsChan :: "'a chan"
  elementsIndex :: nat

fun send_all :: "'a list \<Rightarrow> 'a chan \<Rightarrow> 'a chan option" where
  "send_all [] c = Some c"
| "send_all (x # xs) c = (case try_send x c of Sent c' \<Rightarrow> send_all xs c' | _ \<Rightarrow> None)"

definition New :: "'a list \<Rightarrow> 'a Queue option" where
  "New xs =
     (case send_all xs (make_chan (length xs)) of
        None \<Rightarrow> None
      | Some c \<Rightarrow> Some \<lparr>elements = xs, elementsChan = c, elementsIndex = 0\<rparr>)"

text \<open>
  \<open>Take\<close> returns the zero value (here \<open>None\<close>) when it chooses the context's branch.
\<close>

definition Take :: "bool \<Rightarrow> 'a Queue \<Rightarrow> ('a option \<times> 'a Queue) list" where
  "Take ctx_done q =
     (case chan_buf (elementsChan q) of
        [] \<Rightarrow> []
      | x # xs \<Rightarrow> [(Some x, q\<lparr>elementsChan := elementsChan q\<lparr>chan_buf := xs\<rparr>\<rparr>)])
     @ (if ctx_done then [(None, q)] else [])"

function refill_loop :: "'a Queue \<Rightarrow> nat \<Rightarrow> 'a Queue go" where
  "refill_loop q i =
     (let i = (if i = length (elements q) then 0 else i) in
      if i \<ge> length (elements q) then Panic ''index out of range''
      else case try_send (elements q ! i) (elementsChan q) of
             Sent c \<Rightarrow> refill_loop (q\<lparr>elementsChan := c\<rparr>) (Suc i)
           | WouldBlock \<Rightarrow> Ret (q\<lparr>elementsIndex := i\<rparr>)
           | SendOnClosed \<Rightarrow> Panic ''send on closed channel'')"
  by pat_completeness auto
termination
  by (relation "measure (\<lambda>(q, i). chan_cap (elementsChan q) - length (chan_buf (elementsChan q)))")
    (auto simp: try_send_def split: if_splits)

declare refill_loop.simps [simp del]

text \<open>The initialisation of the loop.\<close>

definition refill_start :: "'a Queue \<Rightarrow> nat" where
  "refill_start q = elementsIndex q"

definition Refill :: "'a Queue \<Rightarrow> 'a Queue go" where
  "Refill q = refill_loop q (refill_start q)"

section \<open>What the queue hands out\<close>

text \<open>The cyclic repetition of a list, from position \<open>i\<close>, \<open>n\<close> elements long.\<close>

definition cyc :: "'a list \<Rightarrow> nat \<Rightarrow> nat \<Rightarrow> 'a list" where
  "cyc xs i n = map (\<lambda>k. xs ! (k mod length xs)) [i..<i + n]"

lemma cyc_0 [simp]: "cyc xs i 0 = []"
  by (simp add: cyc_def)

lemma length_cyc [simp]: "length (cyc xs i n) = n"
  by (simp add: cyc_def)

lemma cyc_Suc: "cyc xs i (Suc n) = xs ! (i mod length xs) # cyc xs (Suc i) n"
  by (simp add: cyc_def upt_conv_Cons del: upt_Suc)

lemma cyc_snoc: "cyc xs i (Suc n) = cyc xs i n @ [xs ! ((i + n) mod length xs)]"
  by (simp add: cyc_def)

lemma cyc_append: "cyc xs i m @ cyc xs (i + m) n = cyc xs i (m + n)"
proof (induction m arbitrary: i)
  case (Suc m)
  from Suc.IH [of "Suc i"] show ?case by (simp add: cyc_Suc)
qed simp

lemma cyc_full: "cyc xs 0 (length xs) = xs"
  by (rule nth_equalityI) (simp_all add: cyc_def)

text \<open>
  The invariant, relative to the number \<open>t\<close> of elements handed out so far: the channel is open
  and holds the elements \<open>t, t + 1, \<dots>\<close> of the cyclic repetition, and the index is where the
  next one is read.
\<close>

definition chan_inv :: "'a list \<Rightarrow> nat \<Rightarrow> 'a Queue \<Rightarrow> bool" where
  "chan_inv xs t q \<longleftrightarrow>
     xs \<noteq> [] \<and> elements q = xs \<and> \<not> chan_closed (elementsChan q)
     \<and> chan_cap (elementsChan q) = length xs
     \<and> length (chan_buf (elementsChan q)) \<le> length xs
     \<and> chan_buf (elementsChan q) = cyc xs t (length (chan_buf (elementsChan q)))"

definition queue_inv :: "'a list \<Rightarrow> nat \<Rightarrow> 'a Queue \<Rightarrow> bool" where
  "queue_inv xs t q \<longleftrightarrow> chan_inv xs t q
     \<and> elementsIndex q = (t + length (chan_buf (elementsChan q))) mod length xs"

lemma send_all_fits:
  "\<not> chan_closed c \<Longrightarrow> length (chan_buf c) + length xs \<le> chan_cap c \<Longrightarrow>
   send_all xs c = Some (c\<lparr>chan_buf := chan_buf c @ xs\<rparr>)"
  by (induction xs arbitrary: c) (auto simp: try_send_def)

lemma New_eq:
  "New xs = Some \<lparr>elements = xs,
     elementsChan = \<lparr>chan_buf = xs, chan_cap = length xs, chan_closed = False\<rparr>, elementsIndex = 0\<rparr>"
  by (simp add: New_def send_all_fits make_chan_def)

lemma queue_inv_New: "xs \<noteq> [] \<Longrightarrow> New xs = Some q \<Longrightarrow> queue_inv xs 0 q"
  by (auto simp: New_eq queue_inv_def chan_inv_def cyc_full)

text \<open>The loop started at the index of the next element fills the channel to its capacity.\<close>

lemma chan_inv_push:
  assumes "chan_inv xs t q" and "length (chan_buf (elementsChan q)) < length xs"
    and "x = xs ! ((t + length (chan_buf (elementsChan q))) mod length xs)"
  shows "chan_inv xs t (q\<lparr>elementsChan := elementsChan q\<lparr>chan_buf := chan_buf (elementsChan q) @ [x]\<rparr>\<rparr>)"
proof -
  have "chan_buf (elementsChan q) @ [x] = cyc xs t (Suc (length (chan_buf (elementsChan q))))"
    using assms unfolding cyc_snoc by (simp add: chan_inv_def)
  with assms show ?thesis by (simp add: chan_inv_def)
qed

lemma refill_loop_full:
  assumes "chan_inv xs t q" and "i \<le> length xs"
    and "i mod length xs = (t + length (chan_buf (elementsChan q))) mod length xs"
  shows "refill_loop q i = Ret (q\<lparr>elementsChan := elementsChan q\<lparr>chan_buf := cyc xs t (length xs)\<rparr>,
           elementsIndex := (t + length xs) mod length xs\<rparr>)"
  using assms
proof (induction q i rule: refill_loop.induct)
  case (1 q i)
  let ?c = "elementsChan q"
  let ?n = "length (chan_buf ?c)"
  define j where "j = (if i = length xs then 0 else i)"
  from 1(2) have ne: "xs \<noteq> []" and el: "elements q = xs" and op: "\<not> chan_closed ?c"
    and cap: "chan_cap ?c = length xs" and le: "?n \<le> length xs"
    and buf: "chan_buf ?c = cyc xs t ?n"
    by (auto simp: chan_inv_def)
  have jlt: "j < length xs" and j: "j = (t + ?n) mod length xs"
    using ne 1(3,4) by (auto simp: j_def)
  let ?q = "q\<lparr>elementsChan := ?c\<lparr>chan_buf := chan_buf ?c @ [xs ! j]\<rparr>\<rparr>"
  show ?case
  proof (cases "?n < length xs")
    case True
    then have send: "try_send (xs ! j) ?c = Sent (?c\<lparr>chan_buf := chan_buf ?c @ [xs ! j]\<rparr>)"
      using op cap by (simp add: try_send_def)
    have "refill_loop q i = refill_loop ?q (Suc j)"
      using jlt send el by (subst refill_loop.simps) (simp add: j_def [symmetric] Let_def)
    also have "\<dots> = Ret (?q\<lparr>elementsChan := elementsChan ?q\<lparr>chan_buf := cyc xs t (length xs)\<rparr>,
           elementsIndex := (t + length xs) mod length xs\<rparr>)"
      using 1(1) [of j "?c\<lparr>chan_buf := chan_buf ?c @ [xs ! j]\<rparr>"] jlt send el j True
        chan_inv_push [OF 1(2) True, of "xs ! j"]
      by (simp add: j_def [symmetric] mod_Suc_eq)
    finally show ?thesis by simp
  next
    case False
    then have "?n = length xs" using le by simp
    then show ?thesis
      using jlt op cap el j buf
      by (subst refill_loop.simps) (simp add: j_def [symmetric] Let_def try_send_def)
  qed
qed

lemma Refill_full:
  assumes "queue_inv xs t q"
  shows "Refill q = Ret (q\<lparr>elementsChan := elementsChan q\<lparr>chan_buf := cyc xs t (length xs)\<rparr>,
           elementsIndex := t mod length xs\<rparr>)"
proof -
  have "0 < length xs" using assms by (simp add: queue_inv_def chan_inv_def)
  then have "elementsIndex q \<le> length xs"
    using assms by (simp add: queue_inv_def less_imp_le)
  with assms show ?thesis
    using refill_loop_full [of xs t q "elementsIndex q"] by (simp add: Refill_def refill_start_def queue_inv_def)
qed

section \<open>Runs\<close>

text \<open>
  One iteration of the loop: the loop goes on with the next index, it stores the index and returns, or it panics. The loop is
  its iteration.
\<close>

datatype 'a refill_next = Continue "'a Queue" nat | Stored "'a Queue" | Crashed string

definition refill_iter :: "'a Queue \<Rightarrow> nat \<Rightarrow> 'a refill_next" where
  "refill_iter q i =
     (let i = (if i = length (elements q) then 0 else i) in
      if i \<ge> length (elements q) then Crashed ''index out of range''
      else case try_send (elements q ! i) (elementsChan q) of
             Sent c \<Rightarrow> Continue (q\<lparr>elementsChan := c\<rparr>) (Suc i)
           | WouldBlock \<Rightarrow> Stored (q\<lparr>elementsIndex := i\<rparr>)
           | SendOnClosed \<Rightarrow> Crashed ''send on closed channel'')"

lemma refill_loop_iter:
  "refill_loop q i = (case refill_iter q i of
     Continue q' j \<Rightarrow> refill_loop q' j | Stored q' \<Rightarrow> Ret q' | Crashed m \<Rightarrow> Panic m)"
  by (subst refill_loop.simps) (auto simp: refill_iter_def Let_def split: send.split)

text \<open>
  Clients take and refill concurrently. The state is the queue with the loop index of the \<open>Refill\<close> in progress, which
  holds the mutex; a label carries the value a \<open>Take\<close> returned. A \<open>Take\<close> whose context is done may return nothing.
\<close>

datatype 'a qop = Got 'a | Cancelled | RefillBegins | RefillIterates | RefillReturns | RefillCrashes string

inductive qstep :: "'a Queue \<times> nat option \<Rightarrow> 'a qop \<Rightarrow> 'a Queue \<times> nat option \<Rightarrow> bool" where
  q_got: "(Some x, q') \<in> set (Take d q) \<Longrightarrow> qstep (q, r) (Got x) (q', r)"
| q_cancelled: "(None, q') \<in> set (Take True q) \<Longrightarrow> qstep (q, r) Cancelled (q', r)"
| q_begins: "qstep (q, None) RefillBegins (q, Some (refill_start q))"
| q_iterates: "refill_iter q i = Continue q' j \<Longrightarrow> qstep (q, Some i) RefillIterates (q', Some j)"
| q_returns: "refill_iter q i = Stored q' \<Longrightarrow> qstep (q, Some i) RefillReturns (q', None)"
| q_crashes: "refill_iter q i = Crashed m \<Longrightarrow> qstep (q, Some i) (RefillCrashes m) (q, None)"

inductive qrun :: "'a Queue \<times> nat option \<Rightarrow> 'a qop list \<Rightarrow> 'a Queue \<times> nat option \<Rightarrow> bool" where
  qrun_Nil: "qrun s [] s"
| qrun_snoc: "qrun s as s1 \<Longrightarrow> qstep s1 a s2 \<Longrightarrow> qrun s (as @ [a]) s2"

fun got :: "'a qop list \<Rightarrow> 'a list" where
  "got [] = []"
| "got (Got x # as) = x # got as"
| "got (_ # as) = got as"

lemma got_append [simp]: "got (as @ bs) = got as @ got bs"
  by (induction as rule: got.induct) auto

lemma Take_cancelled: "(None, q') \<in> set (Take d q) \<Longrightarrow> q' = q"
  by (auto simp: Take_def split: list.splits if_splits)

text \<open>The invariant with a \<open>Refill\<close> in progress: its loop index, not the stored one, is where the next element is read.\<close>

definition next_index :: "'a Queue \<times> nat option \<Rightarrow> nat" where
  "next_index s = (case snd s of None \<Rightarrow> elementsIndex (fst s) | Some i \<Rightarrow> i)"

definition run_inv :: "'a list \<Rightarrow> nat \<Rightarrow> 'a Queue \<times> nat option \<Rightarrow> bool" where
  "run_inv xs t s \<longleftrightarrow> chan_inv xs t (fst s) \<and> next_index s \<le> length xs
     \<and> next_index s mod length xs = (t + length (chan_buf (elementsChan (fst s)))) mod length xs
     \<and> (snd s = None \<longrightarrow> next_index s < length xs)"

lemma run_inv_idle: "run_inv xs t (q, None) \<longleftrightarrow> queue_inv xs t q"
  by (auto simp: run_inv_def queue_inv_def next_index_def chan_inv_def)

lemma chan_inv_Take:
  assumes "chan_inv xs t q" and "(Some x, q') \<in> set (Take d q)"
  shows "x = xs ! (t mod length xs)" and "chan_inv xs (Suc t) q'"
    and "elementsIndex q' = elementsIndex q"
    and "length (chan_buf (elementsChan q)) = Suc (length (chan_buf (elementsChan q')))"
proof -
  let ?b = "chan_buf (elementsChan q)"
  from assms(2) obtain b where b: "?b = x # b"
    and q': "q' = q\<lparr>elementsChan := elementsChan q\<lparr>chan_buf := b\<rparr>\<rparr>"
    by (cases ?b) (auto simp: Take_def split: if_splits)
  from assms(1) have "?b = cyc xs t (length ?b)" by (simp add: chan_inv_def)
  with b have *: "x # b = xs ! (t mod length xs) # cyc xs (Suc t) (length b)"
    by (simp add: cyc_Suc)
  then show "x = xs ! (t mod length xs)" by simp
  from * have tail: "b = cyc xs (Suc t) (length b)" by simp
  from assms(1) b q' tail show "chan_inv xs (Suc t) q'"
    by (auto simp: chan_inv_def)
  show "elementsIndex q' = elementsIndex q" "length ?b = Suc (length (chan_buf (elementsChan q')))"
    using b q' by simp_all
qed

text \<open>An iteration sends the next element, or finds the channel full; it does not crash.\<close>

lemma refill_iter_inv:
  assumes inv: "run_inv xs t (q, Some i)"
  shows "(\<exists>q' j. refill_iter q i = Continue q' j \<and> run_inv xs t (q', Some j))
    \<or> (\<exists>q'. refill_iter q i = Stored q' \<and> queue_inv xs t q' \<and> length (chan_buf (elementsChan q')) = length xs)"
proof -
  let ?c = "elementsChan q"
  let ?n = "length (chan_buf ?c)"
  define j where "j = (if i = length xs then 0 else i)"
  from inv have ci: "chan_inv xs t q" and ile: "i \<le> length xs" and imod: "i mod length xs = (t + ?n) mod length xs"
    by (simp_all add: run_inv_def next_index_def)
  from ci have ne: "xs \<noteq> []" and el: "elements q = xs" and op: "\<not> chan_closed ?c"
    and cap: "chan_cap ?c = length xs" and le: "?n \<le> length xs"
    by (auto simp: chan_inv_def)
  have jlt: "j < length xs" and j: "j = (t + ?n) mod length xs"
    using ne ile imod by (auto simp: j_def)
  show ?thesis
  proof (cases "?n < length xs")
    case True
    then have "refill_iter q i = Continue (q\<lparr>elementsChan := ?c\<lparr>chan_buf := chan_buf ?c @ [xs ! j]\<rparr>\<rparr>) (Suc j)"
      using jlt op cap el by (simp add: refill_iter_def try_send_def j_def [symmetric] Let_def)
    moreover have "run_inv xs t (q\<lparr>elementsChan := ?c\<lparr>chan_buf := chan_buf ?c @ [xs ! j]\<rparr>\<rparr>, Some (Suc j))"
      using chan_inv_push [OF ci True, of "xs ! j"] j jlt by (simp add: run_inv_def next_index_def mod_Suc_eq)
    ultimately show ?thesis by blast
  next
    case False
    then have "refill_iter q i = Stored (q\<lparr>elementsIndex := j\<rparr>)"
      using jlt op cap el by (simp add: refill_iter_def try_send_def j_def [symmetric] Let_def)
    moreover have "queue_inv xs t (q\<lparr>elementsIndex := j\<rparr>)"
      using ci j by (simp add: queue_inv_def chan_inv_def)
    ultimately show ?thesis using False le by simp
  qed
qed

lemma qstep_inv:
  assumes "run_inv xs t s" and "qstep s a s'"
  shows "run_inv xs (t + length (got [a])) s' \<and> (\<forall>x. a = Got x \<longrightarrow> x = xs ! (t mod length xs))
    \<and> (\<forall>m. a \<noteq> RefillCrashes m) \<and> (a = RefillReturns \<longrightarrow> length (chan_buf (elementsChan (fst s'))) = length xs)"
  using assms(2)
proof cases
  case (q_got x q' d q r)
  have "chan_inv xs t q" using assms(1) q_got(1) by (simp add: run_inv_def)
  from chan_inv_Take [OF this q_got(4)] show ?thesis
    using assms(1) q_got by (auto simp: run_inv_def next_index_def split: option.splits)
next
  case (q_cancelled q' q r)
  with assms(1) Take_cancelled [of q' True q] show ?thesis by simp
next
  case (q_begins q)
  with assms(1) show ?thesis by (simp add: run_inv_def next_index_def refill_start_def)
next
  case (q_iterates q i q' j)
  with assms(1) refill_iter_inv [of xs t q i] show ?thesis by auto
next
  case (q_returns q i q')
  with assms(1) refill_iter_inv [of xs t q i] show ?thesis by (auto simp: run_inv_idle)
next
  case (q_crashes q i m)
  with assms(1) refill_iter_inv [of xs t q i] show ?thesis by auto
qed

lemma qrun_inv:
  assumes "qrun s as s'" and "run_inv xs 0 s"
  shows "run_inv xs (length (got as)) s' \<and> got as = cyc xs 0 (length (got as)) \<and> (\<forall>m. RefillCrashes m \<notin> set as)"
  using assms
proof (induction rule: qrun.induct)
  case (qrun_snoc s as s1 a s2)
  then have IH: "run_inv xs (length (got as)) s1" "got as = cyc xs 0 (length (got as))" "\<forall>m. RefillCrashes m \<notin> set as"
    by auto
  from qstep_inv [OF IH(1) qrun_snoc.hyps(2)] IH(2,3) show ?case
    by (cases a) (auto simp: cyc_snoc)
qed simp

text \<open>
  C5. Whatever the interleaving of \<open>Take\<close> calls with the iterations of \<open>Refill\<close> calls on a queue made from a non-empty
  slice, the elements handed out are, in order, those of the cyclic repetition of the slice: the
  \<open>k\<close>-th element ever taken is element \<open>k mod n\<close>; none is lost, repeated or reordered, and no \<open>Refill\<close> crashes. A \<open>Refill\<close> returns
  with the channel full, and one that runs undisturbed does return.
\<close>

theorem queue_cyclic_fifo:
  assumes "xs \<noteq> []" and "New xs = Some q" and "qrun (q, None) as (q', r)"
  shows "got as = cyc xs 0 (length (got as)) \<and> (\<forall>m. RefillCrashes m \<notin> set as)
    \<and> (\<forall>s. qstep (q', r) RefillReturns s \<longrightarrow> length (chan_buf (elementsChan (fst s))) = length xs)
    \<and> (r = None \<longrightarrow> (\<exists>q''. Refill q' = Ret q'' \<and> length (chan_buf (elementsChan q'')) = length xs))"
proof -
  have "run_inv xs 0 (q, None)"
    using queue_inv_New [OF assms(1,2)] by (simp add: run_inv_idle)
  from qrun_inv [OF assms(3) this]
  have inv: "run_inv xs (length (got as)) (q', r)" and fifo: "got as = cyc xs 0 (length (got as))" "\<forall>m. RefillCrashes m \<notin> set as"
    by auto
  have "\<exists>q''. Refill q' = Ret q'' \<and> length (chan_buf (elementsChan q'')) = length xs" if "r = None"
    using inv that Refill_full [of xs "length (got as)" q'] by (simp add: run_inv_idle)
  with fifo qstep_inv [OF inv, of RefillReturns] show ?thesis by blast
qed

theorem queue_cyclic_fifo_witness:
  "let q = \<lparr>elements = [7::nat, 8],
              elementsChan = \<lparr>chan_buf = [7, 8], chan_cap = 2, chan_closed = False\<rparr>,
              elementsIndex = 0\<rparr>
   in New [7, 8] = Some q
      \<and> (\<exists>q' q''. qrun (q, None) [Got 7, RefillBegins, RefillIterates, Got 8, Got 7] (q', Some 1)
           \<and> got [Got 7, RefillBegins, RefillIterates, Got 8, Got (7::nat)] = cyc [7, 8] 0 3
           \<and> qrun (q, None) [] (q, None) \<and> Refill q = Ret q'' \<and> length (chan_buf (elementsChan q'')) = 2)"
proof -
  let ?q = "\<lambda>b. \<lparr>elements = [7::nat, 8],
              elementsChan = \<lparr>chan_buf = b, chan_cap = 2, chan_closed = False\<rparr>,
              elementsIndex = 0\<rparr>"
  have new: "New [7, 8] = Some (?q [7, 8])" by (simp add: New_eq)
  have "qstep (?q [7, 8], None) (Got 7) (?q [8], None)" by (rule q_got [where d = False]) (simp add: Take_def)
  moreover have "qstep (?q [8], None) RefillBegins (?q [8], Some 0)" using q_begins [of "?q [8]"] by (simp add: refill_start_def)
  moreover have "qstep (?q [8], Some 0) RefillIterates (?q [8, 7], Some 1)"
    by (rule q_iterates) (simp add: refill_iter_def try_send_def)
  moreover have "qstep (?q [8, 7], Some 1) (Got 8) (?q [7], Some 1)" by (rule q_got [where d = False]) (simp add: Take_def)
  moreover have "qstep (?q [7], Some 1) (Got 7) (?q [], Some 1)" by (rule q_got [where d = False]) (simp add: Take_def)
  ultimately have run: "qrun (?q [7, 8], None) [Got 7, RefillBegins, RefillIterates, Got 8, Got 7] (?q [], Some 1)"
    using qrun_snoc [OF qrun_snoc [OF qrun_snoc [OF qrun_snoc [OF qrun_snoc [OF qrun_Nil]]]]] by fastforce
  have "got [Got 7, RefillBegins, RefillIterates, Got 8, Got (7::nat)] = cyc [7, 8] 0 3"
    using queue_cyclic_fifo [OF _ new run] by (simp add: numeral_3_eq_3)
  moreover obtain q'' where "Refill (?q [7, 8]) = Ret q''" "length (chan_buf (elementsChan q'')) = 2"
    using queue_cyclic_fifo [OF _ new qrun_Nil] by auto
  ultimately show ?thesis
    using new run unfolding Let_def by (blast intro: qrun_Nil)
qed

text \<open>
  A queue made from an empty slice cannot be refilled: the source indexes the empty slice
  before the \<open>select\<close> looks at the channel, so \<open>Refill\<close> panics, whereas \<open>Take\<close> only blocks
  until its context is done.
\<close>

theorem refill_empty_panics:
  "\<exists>q. New ([] :: 'a list) = Some q \<and> Refill q = Panic ''index out of range''
      \<and> Take False q = [] \<and> Take True q = [(None, q)]"
  by (simp add: New_eq Refill_def refill_start_def Take_def refill_loop.simps)

end
