(* ===== verification/Go_BigInt.thy ===== *)
theory Go_BigInt
  imports Go_Prelude
begin

text \<open>
  What the sources use of \<open>math/big.Int\<close>: decimal printing, the number scanner behind
  \<open>SetString\<close> and \<open>UnmarshalText\<close> (with its base prefixes, separators and implicit octal), the
  big-endian byte representation and Euclidean division. A \<open>big.Int\<close> is an integer; a byte slice
  and a string are lists of characters.
\<close>

section \<open>Printing\<close>

definition digit_char :: "nat \<Rightarrow> char" where
  "digit_char d = char_of (48 + d)"

fun dec_digits :: "nat \<Rightarrow> string" where
  "dec_digits n = (if n < 10 then [digit_char n] else dec_digits (n div 10) @ [digit_char (n mod 10)])"

declare dec_digits.simps [simp del]

definition big_String :: "int \<Rightarrow> string" where
  "big_String i = (if i < 0 then CHR ''-'' # dec_digits (nat (- i)) else dec_digits (nat i))"

section \<open>Scanning\<close>

definition max_base :: nat where
  "max_base = 62"

definition digit_value :: "char \<Rightarrow> nat" where
  "digit_value ch =
     (let c = of_char ch :: nat in
      if 48 \<le> c \<and> c \<le> 57 then c - 48
      else if 97 \<le> c \<and> c \<le> 122 then c - 97 + 10
      else if 65 \<le> c \<and> c \<le> 90 then c - 65 + 10
      else max_base + 1)"

text \<open>
  The loop of the scanner: \<open>sep\<close> says whether underscores are separators (base argument 0),
  \<open>prev\<close> is the previous character class, \<open>bad\<close> records a misplaced separator, \<open>cnt\<close> counts
  digits. It stops at the first character that is no digit of base \<open>b\<close>.
\<close>

fun scan_loop :: "nat \<Rightarrow> bool \<Rightarrow> char \<Rightarrow> bool \<Rightarrow> nat \<Rightarrow> nat \<Rightarrow> string
    \<Rightarrow> char \<times> bool \<times> nat \<times> nat \<times> string" where
  "scan_loop b sep prev bad cnt acc [] = (prev, bad, cnt, acc, [])"
| "scan_loop b sep prev bad cnt acc (ch # cs) =
     (if ch = CHR ''_'' \<and> sep then
        scan_loop b sep CHR ''_'' (bad \<or> prev \<noteq> CHR ''0'') cnt acc cs
      else if digit_value ch \<ge> b then (prev, bad, cnt, acc, ch # cs)
      else scan_loop b sep CHR ''0'' bad (Suc cnt) (acc * b + digit_value ch) cs)"

text \<open>
  The result of scanning an unsigned number: the value and the unread rest, or failure (a
  misplaced separator, or no digits and not a lone octal prefix).
\<close>

definition finish_scan :: "bool \<Rightarrow> char \<times> bool \<times> nat \<times> nat \<times> string \<Rightarrow> (nat \<times> string) option" where
  "finish_scan octal r =
     (case r of (prev, bad, cnt, acc, rest) \<Rightarrow>
        if bad \<or> prev = CHR ''_'' then None
        else if cnt = 0 then (if octal then Some (0, rest) else None)
        else Some (acc, rest))"

definition nat_scan :: "nat \<Rightarrow> string \<Rightarrow> (nat \<times> string) option" where
  "nat_scan base s =
     (if base \<noteq> 0 then finish_scan False (scan_loop base False CHR ''.'' False 0 0 s)
      else case s of
        [] \<Rightarrow> None
      | z # cs \<Rightarrow>
          if z \<noteq> CHR ''0'' then finish_scan False (scan_loop 10 True CHR ''.'' False 0 0 s)
          else case cs of
                 [] \<Rightarrow> Some (0, [])
               | c # ds \<Rightarrow>
                   if c \<in> {CHR ''b'', CHR ''B''} then
                     finish_scan False (scan_loop 2 True CHR ''0'' False 0 0 ds)
                   else if c \<in> {CHR ''o'', CHR ''O''} then
                     finish_scan False (scan_loop 8 True CHR ''0'' False 0 0 ds)
                   else if c \<in> {CHR ''x'', CHR ''X''} then
                     finish_scan False (scan_loop 16 True CHR ''0'' False 0 0 ds)
                   else finish_scan True (scan_loop 8 True CHR ''0'' False 0 0 (c # ds)))"

definition set_from_scanner :: "nat \<Rightarrow> string \<Rightarrow> int option" where
  "set_from_scanner base s =
     (case s of
        [] \<Rightarrow> None
      | c # cs \<Rightarrow>
          let neg = (c = CHR ''-''); body = (if c = CHR ''-'' \<or> c = CHR ''+'' then cs else s)
          in case nat_scan base body of
               Some (n, []) \<Rightarrow> Some (if neg then - int n else int n)
             | _ \<Rightarrow> None)"

definition big_SetString :: "string \<Rightarrow> int option" where
  "big_SetString s = set_from_scanner 10 s"

text \<open>\<open>UnmarshalText\<close> scans with base 0; \<open>UnmarshalJSON\<close> leaves the receiver as it is on \<open>null\<close>.\<close>

definition big_UnmarshalText :: "string \<Rightarrow> int option" where
  "big_UnmarshalText s = set_from_scanner 0 s"

definition big_UnmarshalJSON :: "int \<Rightarrow> string \<Rightarrow> int option" where
  "big_UnmarshalJSON z s = (if s = ''null'' then Some z else big_UnmarshalText s)"

section \<open>Bytes and division\<close>

definition big_SetBytes :: "string \<Rightarrow> int" where
  "big_SetBytes bs = foldl (\<lambda>a b. a * 256 + int (of_char b)) 0 bs"

fun nat_bytes :: "nat \<Rightarrow> string" where
  "nat_bytes n = (if n = 0 then [] else nat_bytes (n div 256) @ [char_of (n mod 256)])"

declare nat_bytes.simps [simp del]

definition big_Bytes :: "int \<Rightarrow> string" where
  "big_Bytes i = nat_bytes (nat \<bar>i\<bar>)"

definition big_Div :: "int \<Rightarrow> int \<Rightarrow> int go" where
  "big_Div x y = (if y = 0 then Panic ''division by zero''
     else Ret (if 0 < y then x div y else - (x div (- y))))"

definition big_Cmp :: "int \<Rightarrow> int \<Rightarrow> int" where
  "big_Cmp x y = (if x < y then -1 else if x = y then 0 else 1)"

section \<open>Laws\<close>

lemma of_char_digit_char [simp]: "d < 10 \<Longrightarrow> of_char (digit_char d) = (48 + d :: nat)"
  by (simp add: digit_char_def)

lemma digit_value_digit_char [simp]: "d < 10 \<Longrightarrow> digit_value (digit_char d) = d"
  by (simp add: digit_value_def)

lemma digit_char_inject: "d < 10 \<Longrightarrow> e < 10 \<Longrightarrow> digit_char d = digit_char e \<longleftrightarrow> d = e"
  by (metis digit_value_digit_char)

lemma digit_char_not_sep [simp]:
  "d < 10 \<Longrightarrow> digit_char d \<noteq> CHR ''_''" "d < 10 \<Longrightarrow> digit_char d \<noteq> CHR ''-''"
  "d < 10 \<Longrightarrow> digit_char d \<noteq> CHR ''+''"
  by (auto dest!: arg_cong [of _ _ "of_char :: char \<Rightarrow> nat"])

lemma digit_char_0 [simp]: "digit_char 0 = CHR ''0''"
  by code_simp

lemma dec_digits_nonempty [simp]: "dec_digits n \<noteq> []"
  by (subst dec_digits.simps) simp

lemma dec_digits_set: "c \<in> set (dec_digits n) \<Longrightarrow> \<exists>d < 10. c = digit_char d"
proof (induction n rule: dec_digits.induct)
  case (1 n)
  show ?case
  proof (cases "n < 10")
    case True
    with "1.prems" show ?thesis by (auto simp: dec_digits.simps [of n])
  next
    case False
    with "1.prems" have "c \<in> set (dec_digits (n div 10)) \<or> c = digit_char (n mod 10)"
      by (auto simp: dec_digits.simps [of n])
    then show ?thesis
    proof
      assume "c = digit_char (n mod 10)"
      then show ?thesis by (intro exI [of _ "n mod 10"]) simp
    qed (use "1.IH" False in blast)
  qed
qed

lemma hd_dec_digits: "0 < n \<Longrightarrow> \<exists>d. 0 < d \<and> d < 10 \<and> hd (dec_digits n) = digit_char d"
proof (induction n rule: dec_digits.induct)
  case (1 n)
  show ?case
  proof (cases "n < 10")
    case True
    with "1.prems" show ?thesis by (auto simp: dec_digits.simps [of n])
  next
    case False
    then have "0 < n div 10" by (simp add: div_greater_zero_iff)
    with 1 False show ?thesis by (simp add: dec_digits.simps [of n])
  qed
qed

lemma scan_loop_append:
  assumes "\<And>c. c \<in> set xs \<Longrightarrow> digit_value c < b \<and> c \<noteq> CHR ''_''" and "xs \<noteq> []"
  shows "scan_loop b sep prev bad cnt acc (xs @ ys)
    = scan_loop b sep CHR ''0'' bad (cnt + length xs) (foldl (\<lambda>a c. a * b + digit_value c) acc xs) ys"
  using assms
proof (induction xs arbitrary: prev cnt acc)
  case (Cons x xs)
  have x: "\<not> b \<le> digit_value x" "x \<noteq> CHR ''_''" using Cons.prems(1) [of x] by auto
  show ?case
  proof (cases "xs = []")
    case False
    have "digit_value c < b \<and> c \<noteq> CHR ''_''" if "c \<in> set xs" for c
      using Cons.prems(1) that by simp
    from Cons.IH [OF this False] x show ?thesis by simp
  qed (simp add: x)
qed simp

lemma foldl_dec_digits:
  "foldl (\<lambda>a c. a * 10 + digit_value c) acc (dec_digits n) = acc * 10 ^ length (dec_digits n) + n"
proof (induction n arbitrary: acc rule: dec_digits.induct)
  case (1 n)
  show ?case
  proof (cases "n < 10")
    case True
    then show ?thesis by (simp add: dec_digits.simps [of n])
  next
    case False
    then have "foldl (\<lambda>a c. a * 10 + digit_value c) acc (dec_digits n)
        = (acc * 10 ^ length (dec_digits (n div 10)) + n div 10) * 10 + n mod 10"
      using "1.IH" by (simp add: dec_digits.simps [of n])
    also have "\<dots> = acc * 10 ^ Suc (length (dec_digits (n div 10))) + n"
      by (simp add: algebra_simps)
    finally show ?thesis using False by (simp add: dec_digits.simps [of n])
  qed
qed

lemma scan_dec_digits:
  "scan_loop 10 sep prev bad 0 0 (dec_digits n) = (CHR ''0'', bad, length (dec_digits n), n, [])"
proof -
  have "digit_value c < 10 \<and> c \<noteq> CHR ''_''" if "c \<in> set (dec_digits n)" for c
    using dec_digits_set [OF that] by auto
  then show ?thesis
    using scan_loop_append [of "dec_digits n" 10 sep prev bad 0 0 "[]"] foldl_dec_digits [of 0 n]
    by simp
qed

lemma dec_digits_0: "dec_digits 0 = ''0''"
  by (simp add: dec_digits.simps)

lemma dec_digits_Cons:
  assumes "0 < n"
  obtains d cs where "0 < d" "d < 10" "dec_digits n = digit_char d # cs"
  using hd_dec_digits [OF assms] dec_digits_nonempty [of n] by (metis list.collapse)

lemma nat_scan_dec_digits: "nat_scan base (dec_digits n) = Some (n, [])" if "base = 0 \<or> base = 10"
proof (cases "n = 0 \<and> base = 0")
  case True
  then show ?thesis by (simp add: nat_scan_def dec_digits_0)
next
  case False
  show ?thesis
  proof (cases "base = 0")
    case True
    with False obtain d cs where d: "0 < d" "d < 10" and ds: "dec_digits n = digit_char d # cs"
      using dec_digits_Cons by (metis gr0I)
    from d have "digit_char d \<noteq> CHR ''0''" using digit_char_inject [of d 0] by simp
    then have "nat_scan base (dec_digits n)
        = finish_scan False (scan_loop 10 True CHR ''.'' False 0 0 (dec_digits n))"
      using True ds by (simp add: nat_scan_def)
    then show ?thesis by (simp add: scan_dec_digits finish_scan_def)
  next
    case False
    with that show ?thesis by (simp add: nat_scan_def scan_dec_digits finish_scan_def)
  qed
qed

lemma hd_dec_digits_no_sign: "dec_digits n = c # cs \<Longrightarrow> c \<noteq> CHR ''-'' \<and> c \<noteq> CHR ''+''"
  using dec_digits_set [of c n] by auto

lemma set_from_scanner_String: "base = 0 \<or> base = 10 \<Longrightarrow> set_from_scanner base (big_String i) = Some i"
proof (cases "i < 0")
  case True
  assume "base = 0 \<or> base = 10"
  with True show ?thesis
    by (simp add: set_from_scanner_def big_String_def nat_scan_dec_digits)
next
  case False
  assume b: "base = 0 \<or> base = 10"
  obtain c cs where cs: "dec_digits (nat i) = c # cs"
    using dec_digits_nonempty by (metis list.exhaust)
  from nat_scan_dec_digits [OF b, of "nat i"] hd_dec_digits_no_sign [OF cs] False cs show ?thesis
    by (simp add: set_from_scanner_def big_String_def)
qed

lemma big_String_not_null: "big_String i \<noteq> ''null''"
proof
  assume *: "big_String i = ''null''"
  then have "CHR ''n'' \<in> set (dec_digits (nat \<bar>i\<bar>))"
    by (cases "i < 0") (auto simp: big_String_def)
  then obtain d where "d < 10" "CHR ''n'' = digit_char d" using dec_digits_set by blast
  then have "digit_value CHR ''n'' = d" by (metis digit_value_digit_char)
  with \<open>d < 10\<close> show False by (simp add: digit_value_def)
qed

lemma big_SetBytes_nat_bytes: "big_SetBytes (nat_bytes n) = int n"
proof (induction n rule: nat_bytes.induct)
  case (1 n)
  show ?case
  proof (cases "n = 0")
    case True
    then show ?thesis by (simp add: nat_bytes.simps big_SetBytes_def)
  next
    case False
    have "int (n div 256) * 256 + int (n mod 256) = int n"
      by (metis div_mult_mod_eq of_nat_add of_nat_mult of_nat_numeral)
    with 1 False show ?thesis
      by (simp add: nat_bytes.simps [of n] big_SetBytes_def)
  qed
qed

lemma hd_nat_bytes: "0 < n \<Longrightarrow> of_char (hd (nat_bytes n)) \<noteq> (0 :: nat)"
proof (induction n rule: nat_bytes.induct)
  case (1 n)
  show ?case
  proof (cases "n < 256")
    case True
    with "1.prems" show ?thesis by (simp add: nat_bytes.simps)
  next
    case False
    then have "0 < n div 256" by (simp add: div_greater_zero_iff)
    moreover from this have "nat_bytes (n div 256) \<noteq> []" by (subst nat_bytes.simps) simp
    ultimately show ?thesis using 1 by (simp add: nat_bytes.simps [of n])
  qed
qed

interpretation decimal: codec big_String big_SetString "\<lambda>_. True"
  by unfold_locales (simp add: big_SetString_def set_from_scanner_String)

interpretation decimal_text: codec big_String big_UnmarshalText "\<lambda>_. True"
  by unfold_locales (simp add: big_UnmarshalText_def set_from_scanner_String)

end
