(* ===== verification/Go_Errors.thy ===== *)
theory Go_Errors
  imports Go_Prelude "HOL-Library.Word"
begin

text \<open>
  Go error values and package errors (\<^verbatim>\<open>src/errors/error.go\<close>). An error value is a tree: the
  wrappers made by \<open>fmt.Errorf\<close> with \<open>%w\<close> and by \<open>errors.Join\<close> are its inner nodes, the concrete
  errors its leaves; \<open>errors.Is\<close>, \<open>errors.As\<close> and \<open>errors.Unwrap\<close> of the standard library are
  searches in that tree, in the order the library documents (the node itself, then what it wraps,
  left to right).
\<close>

section \<open>Typed errors\<close>

type_synonym ErrorType = string
type_synonym ErrorCode = string
type_synonym ErrorDetailCode = string

abbreviation ErrorTypeInvalid :: ErrorType where "ErrorTypeInvalid \<equiv> ''invalid''"
abbreviation ErrorTypeNotFound :: ErrorType where "ErrorTypeNotFound \<equiv> ''not-found''"
abbreviation ErrorTypeConflict :: ErrorType where "ErrorTypeConflict \<equiv> ''conflict''"
abbreviation ErrorTypeUnprocessableContent :: ErrorType where
  "ErrorTypeUnprocessableContent \<equiv> ''unprocessable-content''"
abbreviation ErrorTypeUnauthorized :: ErrorType where "ErrorTypeUnauthorized \<equiv> ''unauthorzied''"
abbreviation ErrorTypeUnauthenticated :: ErrorType where
  "ErrorTypeUnauthenticated \<equiv> ''unauthenticated''"
abbreviation ErrorTypeInternalError :: ErrorType where "ErrorTypeInternalError \<equiv> ''internal-error''"
abbreviation ErrorTypePanic :: ErrorType where "ErrorTypePanic \<equiv> ''panic''"

definition declared_types :: "ErrorType list" where
  "declared_types = [ErrorTypeInvalid, ErrorTypeNotFound, ErrorTypeConflict,
     ErrorTypeUnprocessableContent, ErrorTypeUnauthorized, ErrorTypeUnauthenticated,
     ErrorTypeInternalError, ErrorTypePanic]"

definition HTTPStatus :: "ErrorType \<Rightarrow> int" where
  "HTTPStatus t =
     (if t = ErrorTypeInvalid then 400
      else if t = ErrorTypeNotFound then 404
      else if t = ErrorTypeUnprocessableContent then 422
      else if t = ErrorTypeUnauthorized then 401
      else if t = ErrorTypeUnauthenticated then 401
      else if t = ErrorTypeConflict then 409
      else if t = ErrorTypeInternalError \<or> t = ErrorTypePanic then 500
      else -1)"

definition HTTPStatusInt32Ptr :: "ErrorType \<Rightarrow> 32 word" where
  "HTTPStatusInt32Ptr t = word_of_int (HTTPStatus t)"

record ErrorDetail =
  detail_Code :: ErrorDetailCode
  detail_Message :: string

type_synonym ErrorDetails = "ErrorDetail list"

record Error =
  Type :: ErrorType
  Code :: ErrorCode
  Message :: string
  InternalMessage :: string
  ErrorDetails :: ErrorDetails

definition Error_Error :: "Error \<Rightarrow> string" where
  "Error_Error e = ''type: '' @ Type e @ '', code: '' @ Code e @ '', message: '' @ Message e
     @ '', internal message: '' @ InternalMessage e"

fun ContainsErrorCode :: "ErrorDetails \<Rightarrow> ErrorDetailCode \<Rightarrow> bool" where
  "ContainsErrorCode [] c = False"
| "ContainsErrorCode (d # ds) c = (if detail_Code d = c then True else ContainsErrorCode ds c)"

fun FirstWithErrorCode :: "ErrorDetails \<Rightarrow> ErrorDetailCode \<Rightarrow> ErrorDetail option" where
  "FirstWithErrorCode [] c = None"
| "FirstWithErrorCode (d # ds) c = (if detail_Code d = c then Some d else FirstWithErrorCode ds c)"

section \<open>Error values\<close>

text \<open>
  The status of a gRPC call, and the error responses attached to it (\<^verbatim>\<open>ErrorResponse\<close> of
  \<^verbatim>\<open>src/errors/proto\<close>); the codes are those the sources name.
\<close>

datatype grpc_code =
  OK | Canceled | Unknown | InvalidArgument | NotFound | AlreadyExists | PermissionDenied
| Internal | Unauthenticated | OtherCode nat

datatype status_detail = ErrorResponse (resp_code: string) (resp_message: string) | OtherDetail string

record grpc_status =
  st_code :: grpc_code
  st_message :: string
  st_details :: "status_detail list"

text \<open>
  The concrete errors: a sentinel of \<open>errors.New\<close> (one per text), the wrappers, an application
  error, the error of a gRPC status, an \<open>http.HTTPError\<close> (code, message, internal error, internal
  message, error id), a PostgreSQL driver error (code, text), and any other concrete type, by its
  type name and text.
\<close>

datatype go_error =
  ErrNew string
| ErrWrap string go_error
| ErrJoin "go_error list"
| ErrApp Error
| ErrStatus grpc_status
| ErrHTTP int string "go_error option" string string
| ErrPQ string string
| ErrOther string string

type_synonym 'a result = "go_error + 'a"

text \<open>
  The text of an error, its \<open>Error()\<close> method. A wrapper carries its whole text; \<open>wrap_with\<close> is
  \<open>fmt.Errorf\<close> with a fixed prefix before the wrapped error, the form the sources use most.
\<close>

fun code_text :: "grpc_code \<Rightarrow> string" where
  "code_text OK = ''OK''"
| "code_text Canceled = ''Canceled''"
| "code_text Unknown = ''Unknown''"
| "code_text InvalidArgument = ''InvalidArgument''"
| "code_text NotFound = ''NotFound''"
| "code_text AlreadyExists = ''AlreadyExists''"
| "code_text PermissionDenied = ''PermissionDenied''"
| "code_text Internal = ''Internal''"
| "code_text Unauthenticated = ''Unauthenticated''"
| "code_text (OtherCode n) = ''Code('' @ dec_nat n @ '')''"

fun join_lines :: "string list \<Rightarrow> string" where
  "join_lines [] = []"
| "join_lines [x] = x"
| "join_lines (x # xs) = x @ CHR 0x0A # join_lines xs"

fun error_text :: "go_error \<Rightarrow> string" where
  "error_text (ErrNew t) = t"
| "error_text (ErrWrap t e) = t"
| "error_text (ErrJoin es) = join_lines (map error_text es)"
| "error_text (ErrApp e) = Error_Error e"
| "error_text (ErrStatus s) = ''rpc error: code = '' @ code_text (st_code s) @ '' desc = '' @ st_message s"
| "error_text (ErrHTTP c m i im eid) = (if im \<noteq> [] then im else dec_int c @ '': '' @ m)"
| "error_text (ErrPQ c t) = t"
| "error_text (ErrOther ty t) = t"

definition wrap_with :: "string \<Rightarrow> go_error \<Rightarrow> go_error" where
  "wrap_with msg e = ErrWrap (msg @ '': '' @ error_text e) e"

fun errors_Unwrap :: "go_error \<Rightarrow> go_error option" where
  "errors_Unwrap (ErrWrap t e) = Some e"
| "errors_Unwrap _ = None"

fun err_tree :: "go_error \<Rightarrow> go_error list" where
  "err_tree (ErrWrap t e) = ErrWrap t e # err_tree e"
| "err_tree (ErrJoin es) = ErrJoin es # concat (map err_tree es)"
| "err_tree e = [e]"

definition errors_Is :: "go_error \<Rightarrow> go_error \<Rightarrow> bool" where
  "errors_Is e target \<longleftrightarrow> target \<in> set (err_tree e)"

fun first_some :: "('a \<Rightarrow> 'b option) \<Rightarrow> 'a list \<Rightarrow> 'b option" where
  "first_some f [] = None"
| "first_some f (x # xs) = (case f x of None \<Rightarrow> first_some f xs | Some y \<Rightarrow> Some y)"

definition errors_As :: "(go_error \<Rightarrow> 'b option) \<Rightarrow> go_error \<Rightarrow> 'b option" where
  "errors_As sel e = first_some sel (err_tree e)"

text \<open>\<open>errors.Join\<close> drops nil errors and is nil when nothing is left.\<close>

definition errors_Join :: "go_error option list \<Rightarrow> go_error option" where
  "errors_Join es = (case List.map_filter id es of [] \<Rightarrow> None | es' \<Rightarrow> Some (ErrJoin es'))"

fun as_app :: "go_error \<Rightarrow> Error option" where
  "as_app (ErrApp e) = Some e"
| "as_app _ = None"

abbreviation As_Error :: "go_error \<Rightarrow> Error option" where
  "As_Error \<equiv> errors_As as_app"

definition IsErrorType :: "go_error \<Rightarrow> ErrorType \<Rightarrow> bool" where
  "IsErrorType err typ = (case As_Error err of Some e \<Rightarrow> Type e = typ | None \<Rightarrow> False)"

definition IsErrorCode :: "go_error \<Rightarrow> ErrorCode \<Rightarrow> bool" where
  "IsErrorCode err c = (case As_Error err of Some e \<Rightarrow> Code e = c | None \<Rightarrow> False)"

definition IsErrorDetailCode :: "go_error \<Rightarrow> ErrorDetailCode \<Rightarrow> bool" where
  "IsErrorDetailCode err c =
     (case As_Error err of Some e \<Rightarrow> ContainsErrorCode (ErrorDetails e) c | None \<Rightarrow> False)"

section \<open>Laws of the searches\<close>

lemma first_some_append:
  "first_some f (xs @ ys) = (case first_some f xs of None \<Rightarrow> first_some f ys | Some y \<Rightarrow> Some y)"
  by (induction xs) (auto split: option.splits)

lemma first_some_SomeD: "first_some f xs = Some y \<Longrightarrow> \<exists>x \<in> set xs. f x = Some y"
  by (induction xs) (auto split: option.splits)

lemma first_some_None: "first_some f xs = None \<longleftrightarrow> (\<forall>x \<in> set xs. f x = None)"
  by (induction xs) (auto split: option.splits)

lemma first_some_concat: "first_some f (concat (map g xs)) = first_some (\<lambda>x. first_some f (g x)) xs"
  by (induction xs) (auto simp: first_some_append split: option.splits)

lemma err_tree_self: "e \<in> set (err_tree e)"
  by (cases e) auto

lemma errors_Is_refl [simp]: "errors_Is e e"
  by (simp add: errors_Is_def err_tree_self)

lemma errors_Is_Wrap [simp]: "errors_Is (ErrWrap t e) g \<longleftrightarrow> g = ErrWrap t e \<or> errors_Is e g"
  by (auto simp: errors_Is_def)

lemma errors_As_Wrap [simp]: "sel (ErrWrap t e) = None \<Longrightarrow> errors_As sel (ErrWrap t e) = errors_As sel e"
  by (simp add: errors_As_def)

lemma errors_wrap_with [simp]:
  "errors_Is (wrap_with t e) g \<longleftrightarrow> g = wrap_with t e \<or> errors_Is e g"
  "sel (wrap_with t e) = None \<Longrightarrow> errors_As sel (wrap_with t e) = errors_As sel e"
  "as_app (wrap_with t e) = None"
  by (simp_all add: wrap_with_def)

lemma errors_As_Join [simp]:
  "sel (ErrJoin es) = None \<Longrightarrow> errors_As sel (ErrJoin es) = first_some (errors_As sel) es"
  by (simp add: errors_As_def first_some_concat) (simp add: errors_As_def [abs_def])

lemma errors_As_leaf [simp]:
  "errors_As sel (ErrNew t) = sel (ErrNew t)"
  "errors_As sel (ErrApp e) = sel (ErrApp e)"
  "errors_As sel (ErrStatus s) = sel (ErrStatus s)"
  "errors_As sel (ErrHTTP c m i im eid) = sel (ErrHTTP c m i im eid)"
  "errors_As sel (ErrPQ pc t) = sel (ErrPQ pc t)"
  "errors_As sel (ErrOther ty t) = sel (ErrOther ty t)"
  by (simp_all add: errors_As_def split: option.splits)

lemma FirstWithErrorCode_find: "FirstWithErrorCode ds c = find (\<lambda>d. detail_Code d = c) ds"
  by (induction ds) auto

lemma ContainsErrorCode_set: "ContainsErrorCode ds c \<longleftrightarrow> c \<in> detail_Code ` set ds"
  by (induction ds) auto

lemma HTTPStatus_undeclared: "t \<notin> set declared_types \<Longrightarrow> HTTPStatus t = -1"
  by (simp add: HTTPStatus_def declared_types_def)

lemma HTTPStatus_declared: "t \<in> set declared_types \<Longrightarrow> HTTPStatus t \<in> {400, 401, 404, 409, 422, 500}"
  by (auto simp: HTTPStatus_def declared_types_def)

text \<open>
  The three predicates read the first application error of the tree, whatever wraps it: a
  wrapper of \<open>fmt.Errorf\<close> changes none of them, and of a join they report the first joined error
  that holds an application error; an error with no application error in it satisfies none.
\<close>

theorem error_predicates_see_through:
  "IsErrorType (ErrWrap t e) ty = IsErrorType e ty
   \<and> IsErrorCode (ErrWrap t e) c = IsErrorCode e c
   \<and> IsErrorDetailCode (ErrWrap t e) dc = IsErrorDetailCode e dc
   \<and> IsErrorType (ErrJoin es) ty
       = (case find (\<lambda>x. As_Error x \<noteq> None) es of None \<Rightarrow> False | Some x \<Rightarrow> IsErrorType x ty)
   \<and> (As_Error e = None \<longleftrightarrow> (\<forall>x \<in> set (err_tree e). as_app x = None))
   \<and> (As_Error e = None \<longrightarrow> \<not> IsErrorType e ty \<and> \<not> IsErrorCode e c \<and> \<not> IsErrorDetailCode e dc)"
proof -
  have join: "IsErrorType (ErrJoin es) ty
      = (case find (\<lambda>x. As_Error x \<noteq> None) es of None \<Rightarrow> False | Some x \<Rightarrow> IsErrorType x ty)"
    by (induction es) (auto simp: IsErrorType_def split: option.splits)
  moreover have "As_Error e = None \<longleftrightarrow> (\<forall>x \<in> set (err_tree e). as_app x = None)"
    by (simp add: errors_As_def first_some_None)
  moreover have "As_Error e = None \<longrightarrow>
      \<not> IsErrorType e ty \<and> \<not> IsErrorCode e c \<and> \<not> IsErrorDetailCode e dc"
    by (simp add: IsErrorType_def IsErrorCode_def IsErrorDetailCode_def)
  moreover have "IsErrorType (ErrWrap t e) ty = IsErrorType e ty"
      "IsErrorCode (ErrWrap t e) c = IsErrorCode e c"
      "IsErrorDetailCode (ErrWrap t e) dc = IsErrorDetailCode e dc"
    by (simp_all add: IsErrorType_def IsErrorCode_def IsErrorDetailCode_def)
  ultimately show ?thesis by blast
qed

theorem error_predicates_see_through_witness:
  "let a = ErrApp \<lparr>Type = ErrorTypeConflict, Code = ''dup'', Message = ''m'', InternalMessage = [],
                    ErrorDetails = []\<rparr>
   in IsErrorType (ErrWrap ''w'' a) ErrorTypeConflict
      \<and> IsErrorType (ErrJoin [ErrNew ''x'', a]) ErrorTypeConflict
      \<and> \<not> IsErrorType (ErrNew ''x'') ErrorTypeConflict"
  using error_predicates_see_through [where e = "ErrApp \<lparr>Type = ErrorTypeConflict, Code = ''dup'',
      Message = ''m'', InternalMessage = [], ErrorDetails = []\<rparr>" and ty = ErrorTypeConflict
      and t = "''w''" and es = "[ErrNew ''x'', ErrApp \<lparr>Type = ErrorTypeConflict, Code = ''dup'',
      Message = ''m'', InternalMessage = [], ErrorDetails = []\<rparr>]"]
    error_predicates_see_through [where e = "ErrNew ''x''" and ty = ErrorTypeConflict]
  by (simp add: IsErrorType_def Let_def)

text \<open>
  \<open>FirstWithErrorCode\<close> finds a detail exactly when \<open>ContainsErrorCode\<close> says there is one, and
  what it returns is the first such detail of the list.
\<close>

theorem first_with_code_spec:
  "(FirstWithErrorCode ds c \<noteq> None) = ContainsErrorCode ds c
   \<and> (FirstWithErrorCode ds c = Some d \<longleftrightarrow>
        (\<exists>xs ys. ds = xs @ d # ys \<and> detail_Code d = c \<and> \<not> ContainsErrorCode xs c))"
proof -
  have "(FirstWithErrorCode ds c \<noteq> None) = ContainsErrorCode ds c"
    by (induction ds) auto
  moreover have "FirstWithErrorCode ds c = Some d \<Longrightarrow>
      \<exists>xs ys. ds = xs @ d # ys \<and> detail_Code d = c \<and> \<not> ContainsErrorCode xs c"
  proof (induction ds)
    case (Cons x ds)
    show ?case
    proof (cases "detail_Code x = c")
      case True
      with Cons.prems show ?thesis by (intro exI [of _ "[]"] exI [of _ ds]) simp
    next
      case False
      with Cons obtain xs ys where "ds = xs @ d # ys" "detail_Code d = c" "\<not> ContainsErrorCode xs c"
        by auto
      with False show ?thesis by (intro exI [of _ "x # xs"] exI [of _ ys]) simp
    qed
  qed simp
  moreover have "ds = xs @ d # ys \<Longrightarrow> detail_Code d = c \<Longrightarrow> \<not> ContainsErrorCode xs c \<Longrightarrow>
      FirstWithErrorCode ds c = Some d" for xs ys
    by (induction xs arbitrary: ds) (auto split: if_splits)
  ultimately show ?thesis by blast
qed

end
