(* ===== verification/Value_Int.thy ===== *)
theory Value_Int
  imports Go_BigInt Go_Errors
begin

text \<open>
  Package value (\<^verbatim>\<open>src/value/int.go\<close>): the wrapper around \<open>big.Int\<close> that is stored in a database
  column and sent as text or JSON. Methods with a pointer receiver take the old value and return
  the new one next to what they return.
\<close>

section \<open>The type and its constructors\<close>

abbreviation ErrInvalidValue :: go_error where
  "ErrInvalidValue \<equiv> ErrNew ''invalid value''"

record value_Int =
  bigInt :: int

definition ZeroInt :: value_Int where
  "ZeroInt = \<lparr>bigInt = 0\<rparr>"

definition NewIntFromString :: "string \<Rightarrow> value_Int result" where
  "NewIntFromString s =
     (if s = [] then Inl (ErrWrap ''invalid value: empty string value'' ErrInvalidValue)
      else case big_SetString s of
             None \<Rightarrow> Inl (ErrWrap (''invalid value: string \"'' @ s @ ''\" is not valid'') ErrInvalidValue)
           | Some b \<Rightarrow> Inr \<lparr>bigInt = b\<rparr>)"

definition NewIntFromInt64 :: "64 word \<Rightarrow> value_Int" where
  "NewIntFromInt64 v = \<lparr>bigInt = sint v\<rparr>"

definition NewIntFromUint64 :: "64 word \<Rightarrow> value_Int" where
  "NewIntFromUint64 v = \<lparr>bigInt = uint v\<rparr>"

definition NewIntFromBytes :: "string \<Rightarrow> value_Int" where
  "NewIntFromBytes b = \<lparr>bigInt = big_SetBytes b\<rparr>"

definition NewIntFromBigInt :: "int option \<Rightarrow> value_Int" where
  "NewIntFromBigInt i = (case i of None \<Rightarrow> ZeroInt | Some i \<Rightarrow> \<lparr>bigInt = i\<rparr>)"

section \<open>Arithmetic and comparison\<close>

definition BigInt :: "value_Int \<Rightarrow> int" where
  "BigInt v = bigInt v"

definition Int_Neg :: "value_Int \<Rightarrow> value_Int" where
  "Int_Neg v = \<lparr>bigInt = - BigInt v\<rparr>"

definition Int_Add :: "value_Int \<Rightarrow> value_Int \<Rightarrow> value_Int" where
  "Int_Add v x = \<lparr>bigInt = BigInt v + BigInt x\<rparr>"

definition Int_Sub :: "value_Int \<Rightarrow> value_Int \<Rightarrow> value_Int" where
  "Int_Sub v x = \<lparr>bigInt = BigInt v - BigInt x\<rparr>"

definition Int_Mul :: "value_Int \<Rightarrow> value_Int \<Rightarrow> value_Int" where
  "Int_Mul v x = \<lparr>bigInt = BigInt v * BigInt x\<rparr>"

definition Int_Div :: "value_Int \<Rightarrow> value_Int \<Rightarrow> value_Int go" where
  "Int_Div v x = go_bind (big_Div (BigInt v) (BigInt x)) (\<lambda>d. Ret \<lparr>bigInt = d\<rparr>)"

definition IsGreaterThan :: "value_Int \<Rightarrow> value_Int \<Rightarrow> bool" where
  "IsGreaterThan v x \<longleftrightarrow> big_Cmp (bigInt v) (bigInt x) = 1"

definition IsEqual :: "value_Int \<Rightarrow> value_Int \<Rightarrow> bool" where
  "IsEqual v x \<longleftrightarrow> big_Cmp (bigInt v) (bigInt x) = 0"

definition IsLesserThan :: "value_Int \<Rightarrow> value_Int \<Rightarrow> bool" where
  "IsLesserThan v x \<longleftrightarrow> big_Cmp (bigInt v) (bigInt x) = -1"

section \<open>Setters and getters\<close>

text \<open>
  \<open>SetBigInt\<close> stores zero for a nil argument and then still copies from it, which dereferences
  the nil pointer.
\<close>

definition SetBigInt :: "value_Int \<Rightarrow> int option \<Rightarrow> (value_Int \<times> value_Int) go" where
  "SetBigInt v i =
     (let v = (if i = None then v\<lparr>bigInt := 0\<rparr> else v) in
      case i of
        None \<Rightarrow> Panic ''invalid memory address or nil pointer dereference''
      | Some b \<Rightarrow> let v = v\<lparr>bigInt := b\<rparr> in Ret (v, v))"

definition Int_SetBytes :: "value_Int \<Rightarrow> string \<Rightarrow> value_Int \<times> value_Int" where
  "Int_SetBytes v buf = (let v = v\<lparr>bigInt := big_SetBytes buf\<rparr> in (v, v))"

definition Int_SetString :: "value_Int \<Rightarrow> string \<Rightarrow> (value_Int \<times> bool) \<times> value_Int" where
  "Int_SetString v s =
     (case big_SetString s of
        None \<Rightarrow> ((ZeroInt, False), v)
      | Some b \<Rightarrow> let v = v\<lparr>bigInt := b\<rparr> in ((v, True), v))"

text \<open>\<open>Int64\<close> keeps the low 64 bits, read as a signed number.\<close>

definition Int_Int64 :: "value_Int \<Rightarrow> 64 word" where
  "Int_Int64 v = word_of_int (bigInt v)"

definition Int_String :: "value_Int \<Rightarrow> string" where
  "Int_String v = big_String (bigInt v)"

definition Int_Bytes :: "value_Int \<Rightarrow> string" where
  "Int_Bytes v = big_Bytes (bigInt v)"

section \<open>Text, JSON and the database\<close>

definition MarshalText :: "value_Int \<Rightarrow> string" where
  "MarshalText v = big_String (bigInt v)"

text \<open>
  The text of the decoding error quotes the input; the escapes of the quoting are left out. A byte slice is printed as the list of
  its bytes in decimal.
\<close>

definition cannot_unmarshal :: "string \<Rightarrow> go_error" where
  "cannot_unmarshal t = ErrOther ''*errors.errorString'' (''math/big: cannot unmarshal '' @ [CHR 0x22] @ t @ [CHR 0x22] @ '' into a *big.Int'')"

definition bytes_text :: "string \<Rightarrow> string" where
  "bytes_text b = ''['' @ butlast (concat (map (\<lambda>c. big_String (int (of_char c)) @ '' '') b)) @ '']''"

definition UnmarshalText :: "value_Int \<Rightarrow> string \<Rightarrow> go_error option \<times> value_Int" where
  "UnmarshalText v text =
     (case big_UnmarshalText text of
        None \<Rightarrow> (Some (cannot_unmarshal text), v)
      | Some i \<Rightarrow> (None, v\<lparr>bigInt := i\<rparr>))"

definition MarshalJSON :: "value_Int \<Rightarrow> string" where
  "MarshalJSON v = big_String (bigInt v)"

definition UnmarshalJSON :: "value_Int \<Rightarrow> string \<Rightarrow> go_error option \<times> value_Int" where
  "UnmarshalJSON v data =
     (case big_UnmarshalJSON 0 data of
        None \<Rightarrow> (Some (cannot_unmarshal data), v)
      | Some i \<Rightarrow> (None, v\<lparr>bigInt := i\<rparr>))"

text \<open>The values a database driver hands to \<open>Scan\<close>.\<close>

datatype sql_value = SqlInt64 "64 word" | SqlString string | SqlBytes string | SqlNil | SqlOther string

definition Int_Value :: "value_Int \<Rightarrow> sql_value" where
  "Int_Value v = SqlString (big_String (bigInt v))"

definition Int_Scan :: "value_Int \<Rightarrow> sql_value \<Rightarrow> go_error option \<times> value_Int" where
  "Int_Scan v value =
     (case value of
        SqlInt64 n \<Rightarrow> (None, v\<lparr>bigInt := sint n\<rparr>)
      | SqlString s \<Rightarrow>
          (case big_SetString s of
             None \<Rightarrow> (Some (ErrWrap (''invalid value: failed to set string value '' @ s) ErrInvalidValue), v)
           | Some b \<Rightarrow> (None, v\<lparr>bigInt := b\<rparr>))
      | SqlBytes s \<Rightarrow>
          (case big_SetString s of
             None \<Rightarrow> (Some (ErrWrap (''invalid value: failed to set []uint8 value '' @ bytes_text s) ErrInvalidValue), v)
           | Some b \<Rightarrow> (None, v\<lparr>bigInt := b\<rparr>))
      | SqlNil \<Rightarrow> (None, v\<lparr>bigInt := 0\<rparr>)
      | SqlOther ty \<Rightarrow>
          (Some (ErrWrap (''invalid value: could not scan type '' @ ty @ '' into BigInt'') ErrInvalidValue), v))"

definition MustNewInt :: "value_Int \<Rightarrow> go_error option \<Rightarrow> value_Int go" where
  "MustNewInt v err = (case err of Some e \<Rightarrow> Panic (error_text e) | None \<Rightarrow> Ret v)"

section \<open>Properties\<close>

lemma bigInt_update [simp]: "(w :: value_Int)\<lparr>bigInt := b\<rparr> = \<lparr>bigInt = b\<rparr>"
  by (cases w) simp

lemma bigInt_surj [simp]: "\<lparr>bigInt = bigInt v\<rparr> = (v :: value_Int)"
  by (cases v) simp

text \<open>
  C8. Every textual representation of an \<open>Int\<close> is read back to the same \<open>Int\<close>: printing and
  parsing, text marshalling, JSON marshalling, and storing in a database column that the driver
  returns as a string or as bytes, whatever the receiver held before.
\<close>

theorem int_text_roundtrips:
  "NewIntFromString (Int_String v) = Inr v
   \<and> Int_SetString w (Int_String v) = ((v, True), v)
   \<and> UnmarshalText w (MarshalText v) = (None, v)
   \<and> UnmarshalJSON w (MarshalJSON v) = (None, v)
   \<and> Int_Scan w (Int_Value v) = (None, v)
   \<and> Int_Scan w (SqlBytes (Int_String v)) = (None, v)"
proof -
  have "big_String i \<noteq> []" for i by (simp add: big_String_def)
  then show ?thesis
    by (simp add: NewIntFromString_def Int_SetString_def Int_String_def UnmarshalText_def
        MarshalText_def UnmarshalJSON_def MarshalJSON_def Int_Scan_def Int_Value_def
        big_UnmarshalJSON_def big_String_not_null Let_def decimal.dec_enc decimal_text.dec_enc)
qed

text \<open>
  The byte form is the absolute value: reading the bytes of an \<open>Int\<close> gives its absolute
  value, and the bytes never start with a zero byte, so non-negative values have exactly one byte
  form.
\<close>

theorem int_bytes_roundtrip:
  "bigInt (NewIntFromBytes (Int_Bytes v)) = \<bar>bigInt v\<bar>
   \<and> Int_SetBytes w (Int_Bytes v) = (NewIntFromBytes (Int_Bytes v), NewIntFromBytes (Int_Bytes v))
   \<and> (Int_Bytes v = [] \<longleftrightarrow> bigInt v = 0)
   \<and> (bigInt v = 0 \<or> hd (Int_Bytes v) \<noteq> char_of (0 :: nat))"
proof -
  have "nat_bytes n = [] \<longleftrightarrow> n = 0" for n by (subst nat_bytes.simps) simp
  moreover have "bigInt v = 0 \<or> hd (Int_Bytes v) \<noteq> char_of (0 :: nat)"
    using hd_nat_bytes [of "nat \<bar>bigInt v\<bar>"] by (auto simp: Int_Bytes_def big_Bytes_def)
  ultimately show ?thesis
    by (simp add: NewIntFromBytes_def Int_SetBytes_def Int_Bytes_def big_Bytes_def
        big_SetBytes_nat_bytes Let_def)
qed

theorem int_bytes_roundtrip_witness:
  "bigInt (NewIntFromBytes (Int_Bytes \<lparr>bigInt = -300\<rparr>)) = 300
   \<and> hd (Int_Bytes \<lparr>bigInt = -300\<rparr>) \<noteq> char_of (0 :: nat)"
  using int_bytes_roundtrip [of "\<lparr>bigInt = -300\<rparr>"] by simp

text \<open>
  \<open>Div\<close> is Euclidean division: it panics exactly for a zero divisor, and otherwise the
  remainder is between zero and the absolute value of the divisor, whatever the signs.
\<close>

theorem int_div_euclid:
  "(bigInt x = 0 \<longrightarrow> Int_Div v x = Panic ''division by zero'')
   \<and> (bigInt x \<noteq> 0 \<longrightarrow> (\<exists>q. Int_Div v x = Ret q
        \<and> 0 \<le> bigInt (Int_Sub v (Int_Mul q x)) \<and> bigInt (Int_Sub v (Int_Mul q x)) < \<bar>bigInt x\<bar>))"
proof -
  have "0 \<le> a - a div b * b \<and> a - a div b * b < b" if "0 < b" for a b :: int
    using that by (simp add: minus_div_mult_eq_mod)
  from this [of "bigInt x" "bigInt v"] this [of "- bigInt x" "bigInt v"] show ?thesis
    by (auto simp: Int_Div_def big_Div_def Int_Sub_def Int_Mul_def BigInt_def)
qed

theorem int_div_euclid_witness:
  "Int_Div \<lparr>bigInt = -7\<rparr> \<lparr>bigInt = 0\<rparr> = Panic ''division by zero''
   \<and> Int_Div \<lparr>bigInt = -7\<rparr> \<lparr>bigInt = -2\<rparr> = Ret \<lparr>bigInt = 4\<rparr>
   \<and> 0 \<le> bigInt (Int_Sub \<lparr>bigInt = -7\<rparr> (Int_Mul \<lparr>bigInt = 4\<rparr> \<lparr>bigInt = -2\<rparr>))"
proof -
  have d: "Int_Div \<lparr>bigInt = -7\<rparr> \<lparr>bigInt = -2\<rparr> = Ret \<lparr>bigInt = 4\<rparr>"
    by (simp add: Int_Div_def big_Div_def BigInt_def)
  with int_div_euclid [of "\<lparr>bigInt = 0\<rparr>" "\<lparr>bigInt = -7\<rparr>"] int_div_euclid [of "\<lparr>bigInt = -2\<rparr>" "\<lparr>bigInt = -7\<rparr>"]
  show ?thesis by simp
qed

text \<open>
  The order of the values, so that lists of them can be sorted and compared with the library's functions: that of the
  integers, and of the extension where two are equal.
\<close>

instantiation value_Int_ext :: (linorder) linorder
begin

definition less_eq_value_Int_ext :: "'a value_Int_ext \<Rightarrow> 'a value_Int_ext \<Rightarrow> bool" where
  "less_eq_value_Int_ext v x \<longleftrightarrow> bigInt v < bigInt x \<or> bigInt v = bigInt x \<and> value_Int.more v \<le> value_Int.more x"

definition less_value_Int_ext :: "'a value_Int_ext \<Rightarrow> 'a value_Int_ext \<Rightarrow> bool" where
  "less_value_Int_ext v x \<longleftrightarrow> bigInt v < bigInt x \<or> bigInt v = bigInt x \<and> value_Int.more v < value_Int.more x"

instance
  by standard (auto simp: less_eq_value_Int_ext_def less_value_Int_ext_def)

end

lemma value_Int_less: "(v :: value_Int) < x \<longleftrightarrow> bigInt v < bigInt x" "(v :: value_Int) \<le> x \<longleftrightarrow> bigInt v \<le> bigInt x"
  by (auto simp: less_value_Int_ext_def less_eq_value_Int_ext_def)

text \<open>The comparisons of the package are this order, and addition keeps it.\<close>

theorem comparisons_are_the_order:
  "IsLesserThan v x = (v < x) \<and> IsGreaterThan v x = (x < v) \<and> (IsLesserThan v x \<or> IsEqual v x) = (v \<le> x)
   \<and> (v \<le> x \<longrightarrow> Int_Add v y \<le> Int_Add x y)
   \<and> sorted_wrt (\<lambda>a b. \<not> IsGreaterThan a b) (sort vs)"
proof -
  have "sorted_wrt (\<lambda>a b. \<not> IsGreaterThan a b) (sort vs)"
    using sorted_sort [of vs] by (rule sorted_wrt_mono_rel [rotated]) (auto simp: value_Int_less IsGreaterThan_def big_Cmp_def)
  then show ?thesis
    by (auto simp: value_Int_less IsGreaterThan_def IsEqual_def IsLesserThan_def big_Cmp_def Int_Add_def BigInt_def)
qed

text \<open>
  The three comparisons are a trichotomy that agrees with the integer order and with the sign
  of the difference.
\<close>

theorem int_compare_trichotomy:
  "IsGreaterThan v x = (bigInt v > bigInt x) \<and> IsEqual v x = (v = x)
   \<and> IsLesserThan v x = IsGreaterThan x v
   \<and> IsGreaterThan v x = IsGreaterThan (Int_Sub v x) ZeroInt
   \<and> length (filter id [IsGreaterThan v x, IsEqual v x, IsLesserThan v x]) = 1"
  by (cases v; cases x)
    (auto simp: IsGreaterThan_def IsEqual_def IsLesserThan_def big_Cmp_def Int_Sub_def BigInt_def ZeroInt_def)

text \<open>
  \<open>Int64\<close> returns the value exactly when it fits a signed 64-bit integer, is the inverse of
  \<open>NewIntFromInt64\<close>, and wraps modulo \<open>2^64\<close> otherwise.
\<close>

theorem int64_exact_in_range:
  "(sint (Int_Int64 v) = bigInt v \<longleftrightarrow> - (2 ^ 63) \<le> bigInt v \<and> bigInt v < 2 ^ 63)
   \<and> Int_Int64 (NewIntFromInt64 n) = n
   \<and> Int_Int64 v = Int_Int64 (Int_Add v \<lparr>bigInt = 2 ^ 64\<rparr>)"
proof -
  have rng: "- (2 ^ 63) \<le> sint w \<and> sint w < 2 ^ 63" for w :: "64 word"
    using sint_range_size [of w] by (simp add: word_size)
  have "sint (word_of_int i :: 64 word) = i" if "- (2 ^ 63) \<le> i" "i < 2 ^ 63" for i
    using that by (simp add: signed_of_int signed_take_bit_int_eq_self)
  with rng [of "Int_Int64 v"] have "sint (Int_Int64 v) = bigInt v
      \<longleftrightarrow> - (2 ^ 63) \<le> bigInt v \<and> bigInt v < 2 ^ 63"
    unfolding Int_Int64_def by metis
  moreover have "Int_Int64 v = Int_Int64 (Int_Add v \<lparr>bigInt = 2 ^ 64\<rparr>)"
    by (simp add: Int_Int64_def Int_Add_def BigInt_def word_of_int_eq_iff take_bit_eq_mod)
  ultimately show ?thesis
    by (simp add: NewIntFromInt64_def) (simp add: Int_Int64_def)
qed

text \<open>
  Text decoding is not the inverse of the other readers on other inputs: a decimal string with
  a leading zero is octal for \<open>UnmarshalText\<close> and \<open>UnmarshalJSON\<close> (and rejected when it has a
  digit above 7), while \<open>NewIntFromString\<close>, \<open>SetString\<close> and \<open>Scan\<close> read it as decimal; hexadecimal
  and separators are accepted by the former only; \<open>null\<close> sets the receiver to zero.
\<close>

theorem int_text_base_divergence:
  "UnmarshalText w ''010'' = (None, \<lparr>bigInt = 8\<rparr>) \<and> NewIntFromString ''010'' = Inr \<lparr>bigInt = 10\<rparr>
   \<and> Int_Scan w (SqlString ''010'') = (None, \<lparr>bigInt = 10\<rparr>)
   \<and> fst (UnmarshalText w ''09'') \<noteq> None \<and> NewIntFromString ''09'' = Inr \<lparr>bigInt = 9\<rparr>
   \<and> UnmarshalText w ''0x1_0'' = (None, \<lparr>bigInt = 16\<rparr>) \<and> isl (NewIntFromString ''0x1_0'')
   \<and> UnmarshalJSON w ''null'' = (None, \<lparr>bigInt = 0\<rparr>)"
  by (simp add: UnmarshalText_def UnmarshalJSON_def NewIntFromString_def Int_Scan_def
      big_UnmarshalText_def big_UnmarshalJSON_def big_SetString_def set_from_scanner_def nat_scan_def
      finish_scan_def digit_value_def max_base_def)

text \<open>
  No method but the setters changes a value, and the nil guard of \<open>SetBigInt\<close> has no effect:
  a nil argument panics, a non-nil argument is stored and returned.
\<close>

theorem set_big_int_nil_panics:
  "SetBigInt v None = Panic ''invalid memory address or nil pointer dereference''
   \<and> SetBigInt v (Some i) = Ret (NewIntFromBigInt (Some i), NewIntFromBigInt (Some i))
   \<and> NewIntFromBigInt None = ZeroInt"
  by (simp add: SetBigInt_def NewIntFromBigInt_def Let_def)

end
