(* ===== verification/Go_Encoding.thy ===== *)
theory Go_Encoding
  imports Go_Prelude "HOL-Library.Word"
begin

text \<open>
  What the sources use of the standard library's byte encodings: \<open>base64.StdEncoding\<close> (padded,
  not strict, newlines ignored when decoding), \<open>hex\<close>, \<open>strings.Cut\<close>, and SHA-256 with HMAC.
  Bytes are characters.
\<close>

unbundle bit_operations_syntax

abbreviation byte :: "char \<Rightarrow> nat" where
  "byte \<equiv> of_char"

lemma byte_less [simp]: "byte c < 256"
  by (metis of_char_mod_256 mod_less_divisor zero_less_numeral)

section \<open>Base64\<close>

definition b64_char :: "nat \<Rightarrow> char" where
  "b64_char n =
     (if n < 26 then char_of (65 + n)
      else if n < 52 then char_of (97 + (n - 26))
      else if n < 62 then char_of (48 + (n - 52))
      else if n = 62 then CHR ''+'' else CHR 0x2F)"

definition b64_val :: "char \<Rightarrow> nat option" where
  "b64_val ch =
     (let c = byte ch in
      if 65 \<le> c \<and> c \<le> 90 then Some (c - 65)
      else if 97 \<le> c \<and> c \<le> 122 then Some (c - 97 + 26)
      else if 48 \<le> c \<and> c \<le> 57 then Some (c - 48 + 52)
      else if c = 43 then Some 62 else if c = 47 then Some 63 else None)"

abbreviation b64_pad :: char where
  "b64_pad \<equiv> CHR ''=''"

fun b64_encode :: "string \<Rightarrow> string" where
  "b64_encode [] = []"
| "b64_encode [a] = [b64_char (byte a div 4), b64_char ((byte a mod 4) * 16), b64_pad, b64_pad]"
| "b64_encode [a, b] =
     [b64_char (byte a div 4), b64_char ((byte a mod 4) * 16 + byte b div 16),
      b64_char ((byte b mod 16) * 4), b64_pad]"
| "b64_encode (a # b # c # s) =
     b64_char (byte a div 4) # b64_char ((byte a mod 4) * 16 + byte b div 16)
     # b64_char ((byte b mod 16) * 4 + byte c div 64) # b64_char (byte c mod 64) # b64_encode s"

fun b64_quanta :: "string \<Rightarrow> string option" where
  "b64_quanta [] = Some []"
| "b64_quanta (p # q # r # t # s) =
     (case (b64_val p, b64_val q) of
        (Some w, Some x) \<Rightarrow>
          if t = b64_pad then
            (if s \<noteq> [] then None
             else if r = b64_pad then Some [char_of (w * 4 + x div 16)]
             else case b64_val r of
                    Some y \<Rightarrow> Some [char_of (w * 4 + x div 16), char_of ((x mod 16) * 16 + y div 4)]
                  | None \<Rightarrow> None)
          else (case (b64_val r, b64_val t) of
                  (Some y, Some z) \<Rightarrow>
                    map_option (\<lambda>rest. char_of (w * 4 + x div 16) # char_of ((x mod 16) * 16 + y div 4)
                      # char_of ((y mod 4) * 64 + z) # rest) (b64_quanta s)
                | _ \<Rightarrow> None)
      | _ \<Rightarrow> None)"
| "b64_quanta _ = None"

definition newline :: "char \<Rightarrow> bool" where
  "newline c \<longleftrightarrow> byte c = 10 \<or> byte c = 13"

definition b64_decode :: "string \<Rightarrow> string option" where
  "b64_decode s = b64_quanta (filter (\<lambda>c. \<not> newline c) s)"

lemma b64_val_char [simp]: "n < 64 \<Longrightarrow> b64_val (b64_char n) = Some n"
  by (auto simp: b64_val_def b64_char_def Let_def)

lemma byte_b64_char:
  "n < 64 \<Longrightarrow> byte (b64_char n) \<in> {65..90} \<union> {97..122} \<union> {48..57} \<union> {43, 47}"
  by (auto simp: b64_char_def)

lemma b64_char_not_special [simp]:
  "n < 64 \<Longrightarrow> b64_char n \<noteq> b64_pad" "n < 64 \<Longrightarrow> b64_char n \<noteq> CHR ''-''"
  "n < 64 \<Longrightarrow> \<not> newline (b64_char n)"
  using byte_b64_char [of n] by (auto simp: newline_def)

text \<open>The bytes of an encoded string, for the questions whether some character can occur in it.\<close>

lemma b64_bounds [simp]:
  "byte a div 4 < 64" "(byte a mod 4) * 16 < 64" "(byte a mod 4) * 16 + byte b div 16 < 64"
  "(byte b mod 16) * 4 < 64" "(byte b mod 16) * 4 + byte c div 64 < 64" "byte c mod 64 < 64"
  using byte_less [of a] byte_less [of b] byte_less [of c] by linarith+

definition b64_alphabet :: "char set" where
  "b64_alphabet = insert b64_pad (b64_char ` {..<64})"

lemma b64_alphabet_char [simp]: "n < 64 \<Longrightarrow> b64_char n \<in> b64_alphabet" "b64_pad \<in> b64_alphabet"
  by (auto simp: b64_alphabet_def)

lemma b64_encode_set: "set (b64_encode s) \<subseteq> b64_alphabet"
  by (induction s rule: b64_encode.induct) (simp_all del: mult_less_cancel2)

lemma b64_alphabet_cases:
  assumes "c \<in> b64_alphabet" obtains "c = b64_pad" | n where "n < 64" "c = b64_char n"
  using assms by (auto simp: b64_alphabet_def)

lemma b64_alphabet_special: "c \<in> b64_alphabet \<Longrightarrow> \<not> newline c \<and> c \<noteq> CHR ''-''"
  by (erule b64_alphabet_cases) (auto simp: newline_def [of b64_pad])

lemma b64_encode_no_newline: "filter (\<lambda>c. \<not> newline c) (b64_encode s) = b64_encode s"
  using b64_encode_set [of s] by (auto simp: filter_id_conv dest: b64_alphabet_special)

lemma b64_encode_no_dash: "CHR ''-'' \<notin> set (b64_encode s)"
  using b64_encode_set [of s] by (auto dest: b64_alphabet_special)

text \<open>The two six-bit groups that straddle bytes split back into their halves.\<close>

lemma byte_b64_split:
  "((byte a mod 4) * 16 + byte b div 16) div 16 = byte a mod 4"
  "((byte a mod 4) * 16 + byte b div 16) mod 16 = byte b div 16"
  "((byte b mod 16) * 4 + byte c div 64) div 4 = byte b mod 16"
  "((byte b mod 16) * 4 + byte c div 64) mod 4 = byte c div 64"
proof -
  have "byte b div 16 < 16" "byte c div 64 < 4"
    using byte_less [of b] byte_less [of c] by linarith+
  then show "((byte a mod 4) * 16 + byte b div 16) div 16 = byte a mod 4"
    "((byte a mod 4) * 16 + byte b div 16) mod 16 = byte b div 16"
    "((byte b mod 16) * 4 + byte c div 64) div 4 = byte b mod 16"
    "((byte b mod 16) * 4 + byte c div 64) mod 4 = byte c div 64"
    by (simp_all del: div_mult2_eq)
qed

lemma b64_quanta_encode: "b64_quanta (b64_encode s) = Some s"
proof (induction s rule: b64_encode.induct)
  case (2 a)
  then show ?case by simp
next
  case (3 a b)
  then show ?case by (simp add: byte_b64_split [simplified])
next
  case (4 a b c s)
  then show ?case by (simp add: byte_b64_split [simplified])
qed simp

interpretation b64: codec b64_encode b64_decode "\<lambda>_. True"
  by unfold_locales (simp add: b64_decode_def b64_encode_no_newline b64_quanta_encode)

section \<open>Hexadecimal\<close>

definition hex_char :: "nat \<Rightarrow> char" where
  "hex_char n = (if n < 10 then char_of (48 + n) else char_of (97 + (n - 10)))"

definition hex_val :: "char \<Rightarrow> nat option" where
  "hex_val ch =
     (let c = byte ch in
      if 48 \<le> c \<and> c \<le> 57 then Some (c - 48)
      else if 97 \<le> c \<and> c \<le> 102 then Some (c - 97 + 10)
      else if 65 \<le> c \<and> c \<le> 70 then Some (c - 65 + 10) else None)"

fun hex_encode :: "string \<Rightarrow> string" where
  "hex_encode [] = []"
| "hex_encode (c # s) = hex_char (byte c div 16) # hex_char (byte c mod 16) # hex_encode s"

fun hex_decode :: "string \<Rightarrow> string option" where
  "hex_decode [] = Some []"
| "hex_decode [_] = None"
| "hex_decode (p # q # s) =
     (case (hex_val p, hex_val q) of
        (Some w, Some x) \<Rightarrow> map_option (\<lambda>rest. char_of (w * 16 + x) # rest) (hex_decode s)
      | _ \<Rightarrow> None)"

lemma hex_val_char [simp]: "n < 16 \<Longrightarrow> hex_val (hex_char n) = Some n"
  by (auto simp: hex_val_def hex_char_def Let_def)

lemma hex_decode_encode: "hex_decode (hex_encode s) = Some s"
proof (induction s)
  case (Cons c s)
  have "byte c div 16 < 16" using byte_less [of c] by linarith
  moreover have "char_of (byte c div 16 * 16 + byte c mod 16) = c" by simp
  ultimately show ?case using Cons by simp
qed simp

lemma hex_encode_nonempty: "hex_encode s = [] \<longleftrightarrow> s = []"
  by (cases s) auto

lemma length_hex_encode [simp]: "length (hex_encode s) = 2 * length s"
  by (induction s) auto

lemma hex_encode_set: "c \<in> set (hex_encode s) \<Longrightarrow> \<exists>n < 16. c = hex_char n"
proof (induction s)
  case (Cons d s)
  have "byte d div 16 < 16" using byte_less [of d] by linarith
  moreover have "\<exists>n < 16. hex_char (byte d mod 16) = hex_char n"
    by (intro exI [of _ "byte d mod 16"]) simp
  ultimately show ?case using Cons by auto
qed simp

interpretation hex: codec hex_encode hex_decode "\<lambda>_. True"
  by unfold_locales (rule hex_decode_encode)

section \<open>Cutting a string\<close>

fun strings_Cut :: "string \<Rightarrow> string \<Rightarrow> (string \<times> string) option" where
  "strings_Cut sep [] = (if sep = [] then Some ([], []) else None)"
| "strings_Cut sep (c # cs) =
     (if take (length sep) (c # cs) = sep then Some ([], drop (length sep) (c # cs))
      else map_option (\<lambda>(a, b). (c # a, b)) (strings_Cut sep cs))"

lemma strings_Cut_sound: "strings_Cut sep s = Some (a, b) \<Longrightarrow> s = a @ sep @ b"
proof (induction s arbitrary: a)
  case (Cons c s)
  show ?case
  proof (cases "take (length sep) (c # s) = sep")
    case True
    with Cons.prems show ?thesis by (metis append_Nil append_take_drop_id option.inject
        prod.inject strings_Cut.simps(2))
  next
    case False
    with Cons show ?thesis by auto
  qed
qed (auto split: if_splits)

text \<open>The cut is at the first separator: here, where the separator's first byte is not in the prefix.\<close>

lemma strings_Cut_first:
  assumes "sep = x # xs" and "x \<notin> set p"
  shows "strings_Cut sep (p @ sep @ q) = Some (p, q)"
  using assms(2)
proof (induction p)
  case Nil
  have "strings_Cut sep (sep @ q) = Some ([], q)"
    using assms(1) by (cases "sep @ q") auto
  then show ?case by simp
next
  case (Cons c p)
  with assms(1) show ?case by auto
qed

lemma strings_Cut_absent: "x \<notin> set s \<Longrightarrow> strings_Cut (x # xs) s = None"
  by (induction s) auto

section \<open>SHA-256 and HMAC\<close>

definition sha_k :: "32 word list" where
  "sha_k =
   [1116352408, 1899447441, 3049323471, 3921009573, 961987163, 1508970993, 2453635748, 2870763221,
    3624381080, 310598401, 607225278, 1426881987, 1925078388, 2162078206, 2614888103, 3248222580,
    3835390401, 4022224774, 264347078, 604807628, 770255983, 1249150122, 1555081692, 1996064986,
    2554220882, 2821834349, 2952996808, 3210313671, 3336571891, 3584528711, 113926993, 338241895,
    666307205, 773529912, 1294757372, 1396182291, 1695183700, 1986661051, 2177026350, 2456956037,
    2730485921, 2820302411, 3259730800, 3345764771, 3516065817, 3600352804, 4094571909, 275423344,
    430227734, 506948616, 659060556, 883997877, 958139571, 1322822218, 1537002063, 1747873779,
    1955562222, 2024104815, 2227730452, 2361852424, 2428436474, 2756734187, 3204031479, 3329325298]"

type_synonym sha_state =
  "32 word \<times> 32 word \<times> 32 word \<times> 32 word \<times> 32 word \<times> 32 word \<times> 32 word \<times> 32 word"

definition sha_init :: sha_state where
  "sha_init = (1779033703, 3144134277, 1013904242, 2773480762, 1359893119, 2600822924, 528734635, 1541459225)"

definition word_bytes :: "32 word \<Rightarrow> string" where
  "word_bytes w = map (\<lambda>k. char_of (unat w div 256 ^ k mod 256)) [3, 2, 1, 0]"

fun bytes_words :: "string \<Rightarrow> 32 word list" where
  "bytes_words (a # b # c # d # s) =
     word_of_nat (((byte a * 256 + byte b) * 256 + byte c) * 256 + byte d) # bytes_words s"
| "bytes_words _ = []"

fun sha_schedule :: "nat \<Rightarrow> 32 word list \<Rightarrow> 32 word list" where
  "sha_schedule 0 ws = ws"
| "sha_schedule (Suc n) ws =
     (let t = length ws; x = ws ! (t - 15); y = ws ! (t - 2);
          s0 = word_rotr 7 x XOR word_rotr 18 x XOR drop_bit 3 x;
          s1 = word_rotr 17 y XOR word_rotr 19 y XOR drop_bit 10 y
      in sha_schedule n (ws @ [ws ! (t - 16) + s0 + ws ! (t - 7) + s1]))"

fun sha_round :: "32 word \<times> 32 word \<Rightarrow> sha_state \<Rightarrow> sha_state" where
  "sha_round (k, w) (a, b, c, d, e, f, g, h) =
     (let s1 = word_rotr 6 e XOR word_rotr 11 e XOR word_rotr 25 e;
          ch = (e AND f) XOR (NOT e AND g);
          t1 = h + s1 + ch + k + w;
          s0 = word_rotr 2 a XOR word_rotr 13 a XOR word_rotr 22 a;
          maj = (a AND b) XOR (a AND c) XOR (b AND c)
      in (t1 + (s0 + maj), a, b, c, d + t1, e, f, g))"

fun sha_add :: "sha_state \<Rightarrow> sha_state \<Rightarrow> sha_state" where
  "sha_add (a, b, c, d, e, f, g, h) (a', b', c', d', e', f', g', h') =
     (a + a', b + b', c + c', d + d', e + e', f + f', g + g', h + h')"

definition sha_block :: "string \<Rightarrow> sha_state \<Rightarrow> sha_state" where
  "sha_block blk st = sha_add st (fold sha_round (zip sha_k (sha_schedule 48 (bytes_words blk))) st)"

definition sha_pad :: "string \<Rightarrow> string" where
  "sha_pad m = m @ [char_of (128 :: nat)] @ replicate ((119 - length m mod 64) mod 64) (char_of (0 :: nat))
     @ map (\<lambda>k. char_of (8 * length m div 256 ^ k mod 256)) [7, 6, 5, 4, 3, 2, 1, 0]"

function sha_blocks :: "string \<Rightarrow> sha_state \<Rightarrow> sha_state" where
  "sha_blocks m st = (if m = [] then st else sha_blocks (drop 64 m) (sha_block (take 64 m) st))"
  by pat_completeness auto
termination by (relation "measure (\<lambda>(m, st). length m)") auto

declare sha_blocks.simps [simp del]

fun sha_out :: "sha_state \<Rightarrow> string" where
  "sha_out (a, b, c, d, e, f, g, h) = concat (map word_bytes [a, b, c, d, e, f, g, h])"

definition sha256 :: "string \<Rightarrow> string" where
  "sha256 m = sha_out (sha_blocks (sha_pad m) sha_init)"

definition xor_byte :: "8 word \<Rightarrow> char \<Rightarrow> char" where
  "xor_byte p c = char_of (unat ((word_of_nat (byte c) :: 8 word) XOR p))"

definition hmac_sha256 :: "string \<Rightarrow> string \<Rightarrow> string" where
  "hmac_sha256 key msg =
     (let k = (if length key > 64 then sha256 key else key);
          k = k @ replicate (64 - length k) (char_of (0 :: nat))
      in sha256 (map (xor_byte 0x5c) k @ sha256 (map (xor_byte 0x36) k @ msg)))"

definition sha256_Size :: nat where
  "sha256_Size = 32"

lemma length_sha256 [simp]: "length (sha256 m) = 32"
proof -
  have "length (sha_out st) = 32" for st
    by (induction st rule: sha_out.induct) (simp add: word_bytes_def)
  then show ?thesis by (simp add: sha256_def)
qed

lemma length_hmac [simp]: "length (hmac_sha256 key msg) = sha256_Size"
  by (simp add: hmac_sha256_def Let_def sha256_Size_def)

end
