(* ===== verification/Signed_Cookie.thy ===== *)
theory Signed_Cookie
  imports Go_Encoding Go_Errors
begin

text \<open>
  The cookie signer of \<^verbatim>\<open>src/httpserver/signed_cookie.go\<close>: a cookie value is the base64 payload,
  two dashes and the hexadecimal HMAC-SHA256 of name and payload under the first key of a ring;
  every key of the ring is accepted when verifying. Of net/http the model has what the signer
  calls: \<open>Request.Cookie\<close> on the cookies of a request, and \<open>http.SetCookie\<close>, which writes nothing
  for a name that is not a token and drops bytes that may not stand in a cookie value. A response
  is the list of cookies set on it.
\<close>

section \<open>Cookies of net/http\<close>

datatype SameSite = SameSiteDefaultMode | SameSiteLaxMode | SameSiteStrictMode | SameSiteNoneMode

text \<open>Seconds since the epoch; \<open>None\<close> is the zero time.\<close>

type_synonym cookie_time = "int option"

record http_Cookie =
  ck_Name :: string
  ck_Value :: string
  ck_Path :: string
  ck_Domain :: string
  ck_MaxAge :: int
  ck_Expires :: cookie_time
  ck_Secure :: bool
  ck_HttpOnly :: bool
  ck_SameSite :: SameSite

definition token_char :: "char \<Rightarrow> bool" where
  "token_char ch =
     (let c = byte ch in
      (48 \<le> c \<and> c \<le> 57) \<or> (65 \<le> c \<and> c \<le> 90) \<or> (97 \<le> c \<and> c \<le> 122)
      \<or> ch \<in> set ''!#$%&*+-.^_|~'' \<or> c = 39 \<or> c = 96)"

definition isToken :: "string \<Rightarrow> bool" where
  "isToken s \<longleftrightarrow> s \<noteq> [] \<and> list_all token_char s"

definition validCookieValueByte :: "char \<Rightarrow> bool" where
  "validCookieValueByte ch =
     (let c = byte ch in 32 \<le> c \<and> c < 127 \<and> c \<noteq> 34 \<and> c \<noteq> 59 \<and> c \<noteq> 92)"

definition SetCookie :: "http_Cookie list \<Rightarrow> http_Cookie \<Rightarrow> http_Cookie list" where
  "SetCookie w c =
     (if isToken (ck_Name c)
      then w @ [c\<lparr>ck_Value := filter validCookieValueByte (ck_Value c)\<rparr>] else w)"

abbreviation ErrNoCookie :: go_error where
  "ErrNoCookie \<equiv> ErrNew ''http: named cookie not present''"

fun find_cookie :: "(string \<times> string) list \<Rightarrow> string \<Rightarrow> string result" where
  "find_cookie [] n = Inl ErrNoCookie"
| "find_cookie ((m, v) # cs) n = (if m = n then Inr v else find_cookie cs n)"

definition Request_Cookie :: "(string \<times> string) list \<Rightarrow> string \<Rightarrow> string result" where
  "Request_Cookie cs n = (if n = [] then Inl ErrNoCookie else find_cookie cs n)"

text \<open>What a client sends back: the name and value of every cookie of a response.\<close>

definition client_cookies :: "http_Cookie list \<Rightarrow> (string \<times> string) list" where
  "client_cookies w = map (\<lambda>c. (ck_Name c, ck_Value c)) w"

section \<open>The signer\<close>

abbreviation signedCookieDelimiter :: string where
  "signedCookieDelimiter \<equiv> ''--''"

abbreviation ErrInvalidConfig :: go_error where
  "ErrInvalidConfig \<equiv> ErrNew ''invalid signed cookie config''"
abbreviation ErrMalformedValue :: go_error where
  "ErrMalformedValue \<equiv> ErrNew ''malformed signed cookie value''"
abbreviation ErrInvalidSignature :: go_error where
  "ErrInvalidSignature \<equiv> ErrNew ''invalid signed cookie signature''"
abbreviation ErrInvalidBase64 :: go_error where
  "ErrInvalidBase64 \<equiv> ErrNew ''invalid signed cookie payload encoding''"

record HMACCookieSigner =
  cookieName :: string
  keys :: "string list"

record CookieWriteOptions =
  cw_Path :: string
  cw_Domain :: string
  cw_MaxAge :: int
  cw_Expires :: cookie_time
  cw_Secure :: "bool option"
  cw_HttpOnly :: "bool option"
  cw_SameSite :: "SameSite option"

text \<open>
  The loop over the fallback keys stops at the first empty one; the index it reports is kept, the
  text is the message of the wrapped error.
\<close>

fun copy_fallback :: "nat \<Rightarrow> string list \<Rightarrow> nat + string list" where
  "copy_fallback i [] = Inr []"
| "copy_fallback i (k # ks) =
     (if k = [] then Inl i
      else case copy_fallback (Suc i) ks of Inl j \<Rightarrow> Inl j | Inr rest \<Rightarrow> Inr (k # rest))"

definition NewHMACCookieSigner :: "string \<Rightarrow> string \<Rightarrow> string list \<Rightarrow> HMACCookieSigner result" where
  "NewHMACCookieSigner name primaryKey fallbackKeys =
     (if name = [] then
        Inl (ErrWrap ''invalid signed cookie config: cookie name is required'' ErrInvalidConfig)
      else if length primaryKey = 0 then
        Inl (ErrWrap ''invalid signed cookie config: primary key is required'' ErrInvalidConfig)
      else case copy_fallback 0 fallbackKeys of
             Inl i \<Rightarrow> Inl (ErrWrap (''invalid signed cookie config: fallback key '' @ dec_nat i
                               @ '' is empty'') ErrInvalidConfig)
           | Inr ks \<Rightarrow> Inr \<lparr>cookieName = name, keys = primaryKey # ks\<rparr>)"

text \<open>The bytes written to the MAC: the name, a NUL byte, the payload.\<close>

definition mac_message :: "string \<Rightarrow> string \<Rightarrow> string" where
  "mac_message name payload = name @ [char_of (0 :: nat)] @ payload"

definition signBytes :: "string \<Rightarrow> string \<Rightarrow> string \<Rightarrow> string" where
  "signBytes name payload key = hmac_sha256 key (mac_message name payload)"

definition sign :: "string \<Rightarrow> string \<Rightarrow> string \<Rightarrow> string" where
  "sign name payload key = hex_encode (signBytes name payload key)"

definition signValue :: "string \<Rightarrow> string \<Rightarrow> string \<Rightarrow> string" where
  "signValue name signing_key val =
     (let payload = b64_encode val; sig = sign name payload signing_key
      in payload @ signedCookieDelimiter @ sig)"

fun valid_signature :: "string \<Rightarrow> string \<Rightarrow> string \<Rightarrow> string list \<Rightarrow> bool" where
  "valid_signature name payload sigBytes [] = False"
| "valid_signature name payload sigBytes (key # ks) =
     (if signBytes name payload key = sigBytes then True
      else valid_signature name payload sigBytes ks)"

definition verifySignedValue :: "string \<Rightarrow> string \<Rightarrow> string list \<Rightarrow> string result" where
  "verifySignedValue signedValue name ks =
     (case strings_Cut signedCookieDelimiter signedValue of
        None \<Rightarrow> Inl (ErrWrap ''malformed signed cookie value: missing delimiter'' ErrMalformedValue)
      | Some (payload, signature) \<Rightarrow>
          if signature = [] then
            Inl (ErrWrap ''malformed signed cookie value: signature is empty'' ErrMalformedValue)
          else case hex_decode signature of
            None \<Rightarrow> Inl (ErrWrap ''malformed signed cookie value: signature is not valid hex'' ErrMalformedValue)
          | Some sigBytes \<Rightarrow>
              if length sigBytes \<noteq> sha256_Size then
                Inl (ErrWrap (''malformed signed cookie value: signature length ''
                       @ dec_nat (length sigBytes) @ '', want '' @ dec_nat sha256_Size) ErrMalformedValue)
              else if \<not> valid_signature name payload sigBytes ks then Inl ErrInvalidSignature
              else case b64_decode payload of
                None \<Rightarrow> Inl (ErrWrap ''invalid signed cookie payload encoding: illegal base64 data'' ErrInvalidBase64)
              | Some raw \<Rightarrow> Inr raw)"

text \<open>\<open>s.keys[0]\<close>: the index panics on a signer with no keys (the zero value of the type).\<close>

definition signingKey :: "HMACCookieSigner \<Rightarrow> string go" where
  "signingKey s = (case keys s of [] \<Rightarrow> Panic ''index out of range [0] with length 0'' | k # _ \<Rightarrow> Ret k)"

definition buildCookie :: "string \<Rightarrow> string \<Rightarrow> string \<Rightarrow> CookieWriteOptions \<Rightarrow> http_Cookie" where
  "buildCookie name signing_key val opts =
     \<lparr>ck_Name = name, ck_Value = signValue name signing_key val,
      ck_Path = (if cw_Path opts \<noteq> [] then cw_Path opts else ''/''),
      ck_Domain = cw_Domain opts, ck_MaxAge = cw_MaxAge opts, ck_Expires = cw_Expires opts,
      ck_Secure = (case cw_Secure opts of None \<Rightarrow> True | Some b \<Rightarrow> b),
      ck_HttpOnly = (case cw_HttpOnly opts of None \<Rightarrow> True | Some b \<Rightarrow> b),
      ck_SameSite = (case cw_SameSite opts of None \<Rightarrow> SameSiteNoneMode | Some m \<Rightarrow> m)\<rparr>"

definition Signer_Set ::
  "HMACCookieSigner \<Rightarrow> http_Cookie list \<Rightarrow> string \<Rightarrow> CookieWriteOptions \<Rightarrow> http_Cookie list go" where
  "Signer_Set s w val opts =
     go_bind (signingKey s) (\<lambda>k. Ret (SetCookie w (buildCookie (cookieName s) k val opts)))"

definition Signer_Verify :: "HMACCookieSigner \<Rightarrow> (string \<times> string) list \<Rightarrow> string result" where
  "Signer_Verify s r =
     (case Request_Cookie r (cookieName s) of
        Inl e \<Rightarrow> Inl e
      | Inr v \<Rightarrow> verifySignedValue v (cookieName s) (keys s))"

section \<open>Lemmas\<close>

lemma copy_fallback_ok: "[] \<notin> set ks \<Longrightarrow> copy_fallback i ks = Inr ks"
  by (induction ks arbitrary: i) auto

lemma copy_fallback_empty: "[] \<notin> set xs \<Longrightarrow> copy_fallback i (xs @ [] # ys) = Inl (i + length xs)"
  by (induction xs arbitrary: i) auto

lemma NewHMACCookieSigner_ok:
  "name \<noteq> [] \<Longrightarrow> k \<noteq> [] \<Longrightarrow> [] \<notin> set ks \<Longrightarrow>
   NewHMACCookieSigner name k ks = Inr \<lparr>cookieName = name, keys = k # ks\<rparr>"
  by (simp add: NewHMACCookieSigner_def copy_fallback_ok)

lemma valid_signature_iff: "valid_signature name p b ks \<longleftrightarrow> (\<exists>k \<in> set ks. signBytes name p k = b)"
  by (induction ks) auto

lemma verify_iff:
  "verifySignedValue v name ks = Inr raw \<longleftrightarrow>
     (\<exists>payload sig k. strings_Cut signedCookieDelimiter v = Some (payload, sig) \<and> k \<in> set ks
        \<and> hex_decode sig = Some (signBytes name payload k) \<and> b64_decode payload = Some raw)"
  (is "_ \<longleftrightarrow> ?R")
proof
  assume "verifySignedValue v name ks = Inr raw"
  then show ?R
    by (auto simp: verifySignedValue_def valid_signature_iff split: option.splits if_splits)
next
  assume ?R
  then obtain payload sig k where *: "strings_Cut signedCookieDelimiter v = Some (payload, sig)"
    "k \<in> set ks" "hex_decode sig = Some (signBytes name payload k)" "b64_decode payload = Some raw"
    by blast
  have len: "length (signBytes name payload k) = sha256_Size" by (simp add: signBytes_def)
  then have "sig \<noteq> []" using *(3) by (auto simp: sha256_Size_def)
  with * len show "verifySignedValue v name ks = Inr raw"
    by (auto simp: verifySignedValue_def valid_signature_iff)
qed

lemma cut_signed: "strings_Cut signedCookieDelimiter (signValue name k val)
    = Some (b64_encode val, sign name (b64_encode val) k)"
  unfolding signValue_def Let_def by (rule strings_Cut_first [OF refl b64_encode_no_dash])

lemma verify_signed: "k \<in> set ks \<Longrightarrow> verifySignedValue (signValue name k val) name ks = Inr val"
  unfolding verify_iff cut_signed by (auto simp: sign_def hex_decode_encode b64.dec_enc)

lemma find_cookie_append:
  "n \<notin> fst ` set r \<Longrightarrow> find_cookie (r @ (n, v) # r') n = Inr v"
  by (induction r) auto

lemma b64_alphabet_value_byte: "c \<in> b64_alphabet \<Longrightarrow> validCookieValueByte c"
  by (erule b64_alphabet_cases)
    (use byte_b64_char in \<open>force simp: validCookieValueByte_def Let_def\<close>)+

lemma hex_value_byte: "n < 16 \<Longrightarrow> validCookieValueByte (hex_char n)"
  by (auto simp: validCookieValueByte_def hex_char_def Let_def)

lemma signValue_bytes: "c \<in> set (signValue name k val) \<Longrightarrow> validCookieValueByte c"
  using b64_encode_set [of val] hex_encode_set [of c]
  by (auto simp: signValue_def Let_def sign_def validCookieValueByte_def [of "CHR ''-''"]
      intro: b64_alphabet_value_byte hex_value_byte)

lemma token_not_nul:
  assumes "isToken name" shows "char_of (0 :: nat) \<notin> set name"
proof
  assume "char_of (0 :: nat) \<in> set name"
  with assms have "token_char (char_of (0 :: nat))" by (simp add: isToken_def list_all_iff)
  then show False by (simp add: token_char_def char_of_def)
qed

lemma Signer_Set_client:
  assumes "isToken (cookieName s)" and "keys s = k # ks"
  shows "Signer_Set s w val opts
    = Ret (w @ [buildCookie (cookieName s) k val opts])"
  using assms signValue_bytes [of _ "cookieName s" k val]
  by (simp add: Signer_Set_def signingKey_def SetCookie_def buildCookie_def filter_id_conv)

section \<open>Properties\<close>

text \<open>
  C4. Verification accepts exactly the values that carry, after the first double dash, the
  hexadecimal HMAC-SHA256 of name and payload under some key of the ring, and whose payload is
  base64; what it returns is the decoded payload. Every other value gives an error.
\<close>

theorem cookie_verify_characterised:
  "verifySignedValue v name ks = Inr raw \<longleftrightarrow>
     (\<exists>payload sig k. strings_Cut signedCookieDelimiter v = Some (payload, sig)
        \<and> v = payload @ signedCookieDelimiter @ sig \<and> k \<in> set ks
        \<and> hex_decode sig = Some (signBytes name payload k) \<and> b64_decode payload = Some raw)"
  unfolding verify_iff using strings_Cut_sound by blast

text \<open>
  C18. A cookie written by a signer is accepted by every signer of the same name whose ring still
  holds the signing key, wherever the key stands in it, and gives the payload back: keys can be
  rotated. The bytes of the cookie survive \<open>http.SetCookie\<close> unchanged. The hypotheses are what
  the constructor checks, plus that the name is a cookie token and that the client holds no other
  cookie of that name.
\<close>

theorem cookie_set_verify:
  assumes "NewHMACCookieSigner name k fallback = Inr s"
    and "isToken name"
    and "name \<notin> ck_Name ` set w"
    and "k \<in> set (keys s')" and "cookieName s' = name"
  shows "\<exists>w'. Signer_Set s w val opts = Ret w' \<and> Signer_Verify s' (client_cookies w') = Inr val"
proof -
  have s: "cookieName s = name" "\<exists>ks. keys s = k # ks"
    using assms(1) by (auto simp: NewHMACCookieSigner_def split: if_splits sum.splits)
  then have "Signer_Set s w val opts = Ret (w @ [buildCookie name k val opts])"
    using Signer_Set_client assms(2) by blast
  moreover have "Request_Cookie (client_cookies (w @ [buildCookie name k val opts])) name
      = Inr (signValue name k val)"
    using assms(2,3) find_cookie_append [of name "client_cookies w" _ "[]"]
    by (auto simp: Request_Cookie_def client_cookies_def buildCookie_def isToken_def image_image)
  ultimately show ?thesis
    using assms(4,5) by (simp add: Signer_Verify_def verify_signed)
qed

theorem cookie_set_verify_witness:
  "\<exists>s w'. NewHMACCookieSigner ''sid'' ''k1'' [''k0''] = Inr s
     \<and> Signer_Set s [] ''user=7'' \<lparr>cw_Path = [], cw_Domain = [], cw_MaxAge = 0, cw_Expires = None,
          cw_Secure = None, cw_HttpOnly = None, cw_SameSite = None\<rparr> = Ret w'
     \<and> Signer_Verify \<lparr>cookieName = ''sid'', keys = [''k2'', ''k1'']\<rparr> (client_cookies w') = Inr ''user=7''"
proof -
  have "NewHMACCookieSigner ''sid'' ''k1'' [''k0''] = Inr \<lparr>cookieName = ''sid'', keys = [''k1'', ''k0'']\<rparr>"
    by (simp add: NewHMACCookieSigner_ok)
  then show ?thesis
    using cookie_set_verify [where s' = "\<lparr>cookieName = ''sid'', keys = [''k2'', ''k1'']\<rparr>" and w = "[]"]
    by (force simp: isToken_def token_char_def Let_def)
qed

text \<open>
  The constructor accepts exactly a non-empty name with non-empty keys, and builds the ring
  with the primary key first; otherwise its error is \<open>ErrInvalidConfig\<close>, and for an empty fallback
  key it names the position of the first one.
\<close>

theorem cookie_signer_config:
  "(NewHMACCookieSigner name k ks = Inr s \<longleftrightarrow>
      name \<noteq> [] \<and> k \<noteq> [] \<and> [] \<notin> set ks \<and> s = \<lparr>cookieName = name, keys = k # ks\<rparr>)
   \<and> (NewHMACCookieSigner name k ks = Inl e \<longrightarrow> errors_Is e ErrInvalidConfig)
   \<and> (name \<noteq> [] \<and> k \<noteq> [] \<and> ks = xs @ [] # ys \<and> [] \<notin> set xs \<longrightarrow>
      NewHMACCookieSigner name k ks = Inl (ErrWrap (''invalid signed cookie config: fallback key ''
        @ dec_nat (length xs) @ '' is empty'') ErrInvalidConfig))"
proof -
  have "[] \<in> set ks \<Longrightarrow> \<exists>i. copy_fallback 0 ks = Inl i"
    by (drule split_list_first) (auto simp: copy_fallback_empty)
  then have "copy_fallback 0 ks = Inr ks \<and> [] \<notin> set ks \<or> (\<exists>i. copy_fallback 0 ks = Inl i \<and> [] \<in> set ks)"
    using copy_fallback_ok by blast
  then show ?thesis
    by (auto simp: NewHMACCookieSigner_def copy_fallback_empty split: if_splits)
qed

theorem cookie_signer_config_witness:
  "NewHMACCookieSigner ''sid'' ''k'' [''a'', [], []] = Inl (ErrWrap (''invalid signed cookie config: fallback key ''
        @ dec_nat 1 @ '' is empty'') ErrInvalidConfig)"
  using cookie_signer_config [where name = "''sid''" and k = "''k''" and ks = "[''a'', [], []]"
      and xs = "[''a'']" and ys = "[[]]"]
  by simp

text \<open>
  A signature binds the cookie's name to the payload: the authenticated message, name, NUL
  byte, payload, is different for different pairs of a token name and a payload, so a value signed
  for one cookie is not one signed for another unless HMAC-SHA256 collides.
\<close>

theorem cookie_message_injective:
  assumes "isToken name" and "isToken name'"
  shows "(mac_message name payload = mac_message name' payload' \<longleftrightarrow> name = name' \<and> payload = payload')
    \<and> signBytes name payload k = hmac_sha256 k (mac_message name payload)"
  using append_Cons_first [OF token_not_nul [OF assms(1)] token_not_nul [OF assms(2)]]
  by (simp add: mac_message_def signBytes_def)

theorem cookie_message_injective_witness:
  "mac_message ''ab'' ''c'' \<noteq> mac_message ''a'' ''bc''"
  using cookie_message_injective [of "''ab''" "''a''" "''c''" "''bc''"]
  by (simp add: isToken_def token_char_def Let_def)

text \<open>
  A signer whose cookie name is not a token, which the constructor does not refuse, reports
  success and writes no cookie.
\<close>

theorem cookie_set_silently_dropped:
  assumes "\<not> isToken (cookieName s)" and "keys s \<noteq> []"
  shows "Signer_Set s w val opts = Ret w"
  using assms by (cases "keys s") (auto simp: Signer_Set_def signingKey_def SetCookie_def buildCookie_def)

theorem cookie_set_silently_dropped_witness:
  "NewHMACCookieSigner ''my sid'' ''k'' [] = Inr \<lparr>cookieName = ''my sid'', keys = [''k'']\<rparr>
   \<and> Signer_Set \<lparr>cookieName = ''my sid'', keys = [''k'']\<rparr> [] ''v'' opts = Ret []"
  using cookie_set_silently_dropped [where s = "\<lparr>cookieName = ''my sid'', keys = [''k'']\<rparr>" and w = "[]"]
  by (simp add: isToken_def token_char_def Let_def NewHMACCookieSigner_ok)

end
