(* ===== verification/Pubsub.thy ===== *)
theory Pubsub
  imports Go_Errors
begin

text \<open>
  Package pubsub (\<^verbatim>\<open>src/pubsub/pubsub.go\<close>): the event that every backend delivers, and the contract of
  an acknowledger as a locale. An acknowledger is an operation on the backend's state; an event
  without one ignores \<open>Ack\<close> and \<open>Nack\<close>.
\<close>

abbreviation EventTypeError :: string where
  "EventTypeError \<equiv> ''error''"

abbreviation ErrExactlyOneChannelAllowed :: go_error where
  "ErrExactlyOneChannelAllowed \<equiv> ErrNew ''exactly one channel allowed''"

record ('t, 'p, 'a) Event =
  ev_Type :: 't
  ev_Payload :: 'p
  ev_Error :: "go_error option"
  ev_Acker :: "'a option"

definition Event_Ack :: "('a \<Rightarrow> 's \<Rightarrow> 's) \<Rightarrow> ('t, 'p, 'a) Event \<Rightarrow> 's \<Rightarrow> 's" where
  "Event_Ack ack e s = (case ev_Acker e of None \<Rightarrow> s | Some a \<Rightarrow> ack a s)"

definition Event_Nack :: "('a \<Rightarrow> 's \<Rightarrow> 's) \<Rightarrow> ('t, 'p, 'a) Event \<Rightarrow> 's \<Rightarrow> 's" where
  "Event_Nack nack e s = (case ev_Acker e of None \<Rightarrow> s | Some a \<Rightarrow> nack a s)"

text \<open>
  \<open>Acker\<close>: only the first call, of either method, has an effect. A sequence of calls is a list
  of booleans, \<open>True\<close> for \<open>Ack\<close>.
\<close>

locale acker =
  fixes ack nack :: "'s \<Rightarrow> 's"
  assumes ack_ack: "ack (ack s) = ack s" and nack_ack: "nack (ack s) = ack s"
    and ack_nack: "ack (nack s) = nack s" and nack_nack: "nack (nack s) = nack s"
begin

lemma calls_after_ack: "fold (\<lambda>b. if b then ack else nack) bs (ack s) = ack s"
  by (induction bs) (simp_all add: ack_ack nack_ack)

lemma calls_after_nack: "fold (\<lambda>b. if b then ack else nack) bs (nack s) = nack s"
  by (induction bs) (simp_all add: ack_nack nack_nack)

lemma first_call_decides:
  "fold (\<lambda>b. if b then ack else nack) (b # bs) s = (if b then ack s else nack s)"
  by (simp add: calls_after_ack calls_after_nack)

end

end
