(* ===== verification/Pubsub_Inmem.thy ===== *)
theory Pubsub_Inmem
  imports Pubsub
begin

text \<open>
  The in-memory publish-subscribe service (\<^verbatim>\<open>src/pubsub/inmem/pubsub.go\<close> and \<^verbatim>\<open>subscription.go\<close>).
  Subscriptions are Go pointers: they live in a store indexed by their address, the registry holds
  sets of addresses. The event channel of a subscription is a buffered channel; a consumer blocked
  in a receive is counted in \<open>sub_waiting\<close>, so that the send of an unbuffered channel succeeds
  exactly when a consumer waits; \<open>sub_got\<close> is the history of what its consumers received.

  The iteration order of Go's maps is arbitrary: the loop over the subscriptions of a channel takes
  its order from a function \<open>pick\<close>. First the operations as they run under the mutex, then a
  step relation in which receives run between the sends of a \<open>Publish\<close> in progress.
\<close>

section \<open>State\<close>

record 'e Subscription =
  sub_channels :: "string list"
  sub_once :: bool
  sub_c :: "'e chan"
  sub_waiting :: nat
  sub_got :: "'e list"

record 'e PubSub =
  channelsSubs :: "string \<rightharpoonup> nat set"
  eventBufferSize :: int
  ps_subs :: "'e Subscription list"

abbreviation ErrNoChannel :: go_error where
  "ErrNoChannel \<equiv> ErrNew ''no channel given''"

definition NewPubSub :: "int \<Rightarrow> 'e PubSub" where
  "NewPubSub n = \<lparr>channelsSubs = (\<lambda>_. None), eventBufferSize = n, ps_subs = []\<rparr>"

section \<open>Operations\<close>

text \<open>\<open>close(sub.c)\<close> under \<open>sub.once\<close>: closing a closed channel panics.\<close>

definition once_close :: "'e Subscription \<Rightarrow> 'e Subscription go" where
  "once_close s = (if sub_once s then Ret s
     else go_bind (close_chan (sub_c s)) (\<lambda>c. Ret (s\<lparr>sub_once := True, sub_c := c\<rparr>)))"

definition remove_from_channel ::
  "nat \<Rightarrow> string \<Rightarrow> (string \<rightharpoonup> nat set) \<Rightarrow> (string \<rightharpoonup> nat set)" where
  "remove_from_channel i ch m =
     (case m ch of
        None \<Rightarrow> m
      | Some A \<Rightarrow> if A - {i} = {} then m(ch := None) else m(ch \<mapsto> A - {i}))"

definition removeSubscription :: "nat \<Rightarrow> 'e PubSub \<Rightarrow> 'e PubSub go" where
  "removeSubscription i ps =
     go_bind (once_close (ps_subs ps ! i)) (\<lambda>sub.
       Ret (ps\<lparr>ps_subs := (ps_subs ps)[i := sub],
               channelsSubs := fold (remove_from_channel i) (sub_channels sub) (channelsSubs ps)\<rparr>))"

definition Unsubscribe :: "nat \<Rightarrow> 'e PubSub \<Rightarrow> 'e PubSub go" where
  "Unsubscribe i ps = removeSubscription i ps"

definition Subscription_Close :: "nat \<Rightarrow> 'e PubSub \<Rightarrow> (go_error option \<times> 'e PubSub) go" where
  "Subscription_Close i ps = go_bind (Unsubscribe i ps) (\<lambda>ps'. Ret (None, ps'))"

definition add_to_channel :: "nat \<Rightarrow> string \<Rightarrow> (string \<rightharpoonup> nat set) \<Rightarrow> (string \<rightharpoonup> nat set)" where
  "add_to_channel i ch m = m(ch \<mapsto> insert i (case m ch of None \<Rightarrow> {} | Some A \<Rightarrow> A))"

definition Subscribe :: "string list \<Rightarrow> 'e PubSub \<Rightarrow> (nat result \<times> 'e PubSub) go" where
  "Subscribe chs ps =
     (if chs = [] then Ret (Inl ErrNoChannel, ps)
      else if eventBufferSize ps < 0 then Panic ''makechan: size out of range''
      else let i = length (ps_subs ps);
               sub = \<lparr>sub_channels = chs, sub_once = False,
                      sub_c = make_chan (nat (eventBufferSize ps)), sub_waiting = 0, sub_got = []\<rparr>
           in Ret (Inr i, ps\<lparr>ps_subs := ps_subs ps @ [sub],
                             channelsSubs := fold (add_to_channel i) chs (channelsSubs ps)\<rparr>))"

text \<open>
  The send of the \<open>select\<close>: to a consumer that waits, else into the buffer; \<open>WouldBlock\<close> is the
  \<open>default\<close> branch.
\<close>

definition sub_send :: "'e \<Rightarrow> 'e Subscription \<Rightarrow> 'e Subscription option go" where
  "sub_send e s =
     (if \<not> chan_closed (sub_c s) \<and> 0 < sub_waiting s
      then Ret (Some (s\<lparr>sub_waiting := sub_waiting s - 1, sub_got := sub_got s @ [e]\<rparr>))
      else case try_send e (sub_c s) of
             Sent c \<Rightarrow> Ret (Some (s\<lparr>sub_c := c\<rparr>))
           | WouldBlock \<Rightarrow> Ret None
           | SendOnClosed \<Rightarrow> Panic ''send on closed channel'')"

definition publish_sub :: "'e \<Rightarrow> nat \<Rightarrow> 'e PubSub \<Rightarrow> 'e PubSub go" where
  "publish_sub e i ps =
     go_bind (sub_send e (ps_subs ps ! i))
       (\<lambda>r. case r of Some s \<Rightarrow> Ret (ps\<lparr>ps_subs := (ps_subs ps)[i := s]\<rparr>)
                    | None \<Rightarrow> removeSubscription i ps)"

fun publish_subs :: "'e \<Rightarrow> nat list \<Rightarrow> 'e PubSub \<Rightarrow> 'e PubSub go" where
  "publish_subs e [] ps = Ret ps"
| "publish_subs e (i # is) ps = go_bind (publish_sub e i ps) (publish_subs e is)"

fun publish_channels ::
  "(nat set \<Rightarrow> nat list) \<Rightarrow> 'e \<Rightarrow> string list \<Rightarrow> 'e PubSub \<Rightarrow> 'e PubSub go" where
  "publish_channels pick e [] ps = Ret ps"
| "publish_channels pick e (ch # chs) ps =
     (case channelsSubs ps ch of
        None \<Rightarrow> publish_channels pick e chs ps
      | Some A \<Rightarrow> go_bind (publish_subs e (pick A) ps) (publish_channels pick e chs))"

definition Publish ::
  "(nat set \<Rightarrow> nat list) \<Rightarrow> 'e \<Rightarrow> string list \<Rightarrow> 'e PubSub \<Rightarrow> (go_error option \<times> 'e PubSub) go" where
  "Publish pick e chs ps =
     (if chs = [] then Ret (Some ErrNoChannel, ps)
      else go_bind (publish_channels pick e chs ps) (\<lambda>ps'. Ret (None, ps')))"

text \<open>
  The consumer's side: a receive from \<open>sub.C()\<close> takes the oldest buffered event, blocks on an
  empty open channel and reports the end of the stream on an empty closed one.
\<close>

definition receive :: "nat \<Rightarrow> 'e PubSub \<Rightarrow> 'e PubSub" where
  "receive i ps =
     (let s = ps_subs ps ! i in
      ps\<lparr>ps_subs := (ps_subs ps)[i :=
        (case chan_buf (sub_c s) of
           e # es \<Rightarrow> s\<lparr>sub_c := (sub_c s)\<lparr>chan_buf := es\<rparr>, sub_got := sub_got s @ [e]\<rparr>
         | [] \<Rightarrow> if chan_closed (sub_c s) then s else s\<lparr>sub_waiting := Suc (sub_waiting s)\<rparr>)]\<rparr>)"

section \<open>The registry invariant\<close>

text \<open>
  The registry is a function of the store: a channel has an entry exactly when some open
  subscription names it, and the entry is the set of those subscriptions; a channel is closed
  exactly when its \<open>sync.Once\<close> has run.
\<close>

definition sub_open :: "'e Subscription \<Rightarrow> bool" where
  "sub_open s \<longleftrightarrow> \<not> chan_closed (sub_c s)"

definition members :: "'e Subscription list \<Rightarrow> string \<Rightarrow> nat set" where
  "members subs ch = {i. i < length subs \<and> sub_open (subs ! i) \<and> ch \<in> set (sub_channels (subs ! i))}"

definition registry :: "'e Subscription list \<Rightarrow> string \<rightharpoonup> nat set" where
  "registry subs ch = (if members subs ch = {} then None else Some (members subs ch))"

definition ps_wf :: "'e PubSub \<Rightarrow> bool" where
  "ps_wf ps \<longleftrightarrow> channelsSubs ps = registry (ps_subs ps)
     \<and> (\<forall>s \<in> set (ps_subs ps). sub_once s = chan_closed (sub_c s))"

text \<open>What removing a subscription makes of it and of the service when nothing panics.\<close>

definition closed_once :: "'e Subscription \<Rightarrow> 'e Subscription" where
  "closed_once s = (if sub_once s then s
     else s\<lparr>sub_once := True, sub_c := (sub_c s)\<lparr>chan_closed := True\<rparr>\<rparr>)"

definition removed :: "nat \<Rightarrow> 'e PubSub \<Rightarrow> 'e PubSub" where
  "removed i ps =
     ps\<lparr>ps_subs := (ps_subs ps)[i := closed_once (ps_subs ps ! i)],
        channelsSubs := fold (remove_from_channel i) (sub_channels (ps_subs ps ! i)) (channelsSubs ps)\<rparr>"

lemma once_close_Ret: "sub_once s = chan_closed (sub_c s) \<Longrightarrow> once_close s = Ret (closed_once s)"
  by (simp add: once_close_def closed_once_def close_chan_def)

lemma removeSubscription_Ret:
  assumes "ps_wf ps" and "i < length (ps_subs ps)"
  shows "removeSubscription i ps = Ret (removed i ps)"
proof -
  have "sub_once (ps_subs ps ! i) = chan_closed (sub_c (ps_subs ps ! i))"
    using assms nth_mem [OF assms(2)] by (simp add: ps_wf_def)
  from once_close_Ret [OF this] show ?thesis
    by (simp add: removeSubscription_def removed_def closed_once_def)
qed

definition drop_member :: "nat \<Rightarrow> nat set option \<Rightarrow> nat set option" where
  "drop_member i a = (case a of None \<Rightarrow> None | Some A \<Rightarrow> if A - {i} = {} then None else Some (A - {i}))"

lemma drop_member_idem [simp]: "drop_member i (drop_member i a) = drop_member i a"
  by (auto simp: drop_member_def split: option.splits)

lemma remove_from_channel_apply:
  "remove_from_channel i ch m c = (if c = ch then drop_member i (m c) else m c)"
  by (auto simp: remove_from_channel_def drop_member_def split: option.splits)

lemma fold_remove_apply:
  "fold (remove_from_channel i) chs m c = (if c \<in> set chs then drop_member i (m c) else m c)"
  by (induction chs arbitrary: m) (auto simp: remove_from_channel_apply)

lemma fold_add_apply:
  "fold (add_to_channel i) chs m c
     = (if c \<in> set chs then Some (insert i (case m c of None \<Rightarrow> {} | Some A \<Rightarrow> A)) else m c)"
  by (induction chs arbitrary: m) (auto simp: add_to_channel_def split: option.splits)

lemma closed_once_simps [simp]:
  "sub_channels (closed_once s) = sub_channels s" "sub_once (closed_once s)"
  "sub_once s = chan_closed (sub_c s) \<Longrightarrow> \<not> sub_open (closed_once s)"
  by (auto simp: closed_once_def sub_open_def)

lemma members_update:
  assumes "i < length subs" and "sub_channels s = sub_channels (subs ! i)"
  shows "members (subs[i := s]) ch
    = (if sub_open s \<and> ch \<in> set (sub_channels s) then insert i (members subs ch) else members subs ch - {i})"
  using assms by (auto simp: members_def nth_list_update)

text \<open>An update of a stored subscription that neither opens, closes nor renames it keeps the invariant.\<close>

lemma ps_wf_update:
  assumes "ps_wf ps" and "i < length (ps_subs ps)" and "sub_channels s = sub_channels (ps_subs ps ! i)"
    and "sub_open s = sub_open (ps_subs ps ! i)" and "sub_once s = sub_once (ps_subs ps ! i)"
  shows "ps_wf (ps\<lparr>ps_subs := (ps_subs ps)[i := s]\<rparr>)"
proof -
  have "members ((ps_subs ps)[i := s]) ch = members (ps_subs ps) ch" for ch
    unfolding members_update [OF assms(2,3)] using assms(2-4) by (auto simp: members_def)
  then have "registry ((ps_subs ps)[i := s]) = registry (ps_subs ps)"
    by (simp add: registry_def fun_eq_iff)
  moreover have "sub_once s = chan_closed (sub_c s)"
    using assms nth_mem [OF assms(2)] by (auto simp: ps_wf_def sub_open_def)
  ultimately show ?thesis
    using assms(1) by (auto simp: ps_wf_def dest: set_update_subset_insert [THEN subsetD])
qed

lemma ps_wf_remove:
  assumes "ps_wf ps" and "i < length (ps_subs ps)"
  shows "ps_wf (removed i ps)"
proof -
  let ?s = "ps_subs ps ! i"
  have once: "sub_once ?s = chan_closed (sub_c ?s)" using assms nth_mem [OF assms(2)] by (simp add: ps_wf_def)
  have "fold (remove_from_channel i) (sub_channels ?s) (channelsSubs ps) ch
      = registry ((ps_subs ps)[i := closed_once ?s]) ch" for ch
  proof -
    have "members ((ps_subs ps)[i := closed_once ?s]) ch = members (ps_subs ps) ch - {i}"
      using once by (subst members_update) (simp_all add: assms(2))
    moreover have "ch \<notin> set (sub_channels ?s) \<Longrightarrow> i \<notin> members (ps_subs ps) ch"
      by (simp add: members_def)
    ultimately show ?thesis
      using assms(1) by (auto simp: fold_remove_apply ps_wf_def registry_def drop_member_def)
  qed
  moreover have "sub_once (closed_once ?s) = chan_closed (sub_c (closed_once ?s))"
    using once by (simp add: closed_once_def)
  ultimately show ?thesis
    using assms by (auto simp: ps_wf_def removed_def dest: set_update_subset_insert [THEN subsetD])
qed

lemma Subscription_Close_removed:
  "ps_wf ps \<Longrightarrow> i < length (ps_subs ps) \<Longrightarrow> Subscription_Close i ps = Ret (None, removed i ps)"
  by (simp add: Subscription_Close_def Unsubscribe_def removeSubscription_Ret)

text \<open>A well-formed state is determined by its store.\<close>

definition with_subs :: "'e PubSub \<Rightarrow> 'e Subscription list \<Rightarrow> 'e PubSub" where
  "with_subs ps subs = ps\<lparr>ps_subs := subs, channelsSubs := registry subs\<rparr>"

lemma with_subs_simps [simp]:
  "ps_subs (with_subs ps subs) = subs" "eventBufferSize (with_subs ps subs) = eventBufferSize ps"
  "with_subs (with_subs ps subs) subs' = with_subs ps subs'"
  by (simp_all add: with_subs_def)

lemma ps_wf_with_subs: "ps_wf ps \<Longrightarrow> with_subs ps (ps_subs ps) = ps"
  by (simp add: with_subs_def ps_wf_def)

lemma ps_wf_eq: "ps_wf ps' \<Longrightarrow> eventBufferSize ps' = eventBufferSize ps \<Longrightarrow> ps_subs ps' = subs
    \<Longrightarrow> ps' = with_subs (ps :: 'e PubSub) subs"
  by (simp add: with_subs_def ps_wf_def)

lemma ps_wf_New: "ps_wf (NewPubSub n)"
  by (simp add: ps_wf_def NewPubSub_def registry_def members_def fun_eq_iff)

lemma ps_wf_Subscribe:
  assumes "ps_wf ps" and "Subscribe chs ps = Ret (r, ps')"
  shows "ps_wf ps'"
proof (cases "chs = []")
  case True
  with assms show ?thesis by (simp add: Subscribe_def)
next
  case False
  let ?s = "\<lparr>sub_channels = chs, sub_once = False, sub_c = make_chan (nat (eventBufferSize ps)),
      sub_waiting = 0, sub_got = []\<rparr> :: 'a Subscription"
  have "members (ps_subs ps @ [?s]) ch
      = (if ch \<in> set chs then insert (length (ps_subs ps)) (members (ps_subs ps) ch)
         else members (ps_subs ps) ch)" for ch
    by (auto simp: members_def nth_append sub_open_def make_chan_def less_Suc_eq split: if_splits)
  then have "fold (add_to_channel (length (ps_subs ps))) chs (channelsSubs ps)
      = registry (ps_subs ps @ [?s])"
    using assms(1) by (auto simp: fun_eq_iff fold_add_apply ps_wf_def registry_def)
  with False assms show ?thesis
    by (auto simp: Subscribe_def Let_def ps_wf_def make_chan_def split: if_splits)
qed

section \<open>What a publication does\<close>

text \<open>
  The effect of one send attempt on one subscription: a closed one ignores it, an open one takes
  the event or, when nobody listens and the buffer is full, is closed.
\<close>

definition deliver :: "'e \<Rightarrow> 'e Subscription \<Rightarrow> 'e Subscription" where
  "deliver e s =
     (if \<not> sub_open s then s
      else case sub_send e s of Ret (Some s') \<Rightarrow> s' | _ \<Rightarrow> closed_once s)"

lemma sub_send_open: "sub_open s \<Longrightarrow> is_ret (sub_send e s)"
  by (auto simp: sub_send_def sub_open_def try_send_def)

lemma sub_send_Some:
  "sub_send e s = Ret (Some s') \<Longrightarrow>
     sub_channels s' = sub_channels s \<and> sub_once s' = sub_once s \<and> sub_open s' = sub_open s
     \<and> sub_got s' @ chan_buf (sub_c s') = (if 0 < sub_waiting s then sub_got s @ [e] @ chan_buf (sub_c s)
          else sub_got s @ chan_buf (sub_c s) @ [e])"
  by (auto simp: sub_send_def sub_open_def try_send_def split: if_splits)

lemma deliver_channels [simp]: "sub_channels (deliver e s) = sub_channels s"
  using sub_send_Some by (fastforce simp: deliver_def split: go.splits option.splits)

lemma publish_sub_wf:
  assumes "ps_wf ps" and "i < length (ps_subs ps)" and "sub_open (ps_subs ps ! i)"
  shows "publish_sub e i ps = Ret (with_subs ps ((ps_subs ps)[i := deliver e (ps_subs ps ! i)]))
    \<and> ps_wf (with_subs ps ((ps_subs ps)[i := deliver e (ps_subs ps ! i)]))"
proof -
  obtain r where r: "sub_send e (ps_subs ps ! i) = Ret r"
    using sub_send_open [OF assms(3)] by (auto simp: is_ret_iff)
  define ps' where "ps' = (case r of Some s \<Rightarrow> ps\<lparr>ps_subs := (ps_subs ps)[i := s]\<rparr>
    | None \<Rightarrow> removed i ps)"
  have "ps_wf ps'"
  proof (cases r)
    case None
    then show ?thesis using ps_wf_remove [OF assms(1,2)] by (simp add: ps'_def)
  next
    case (Some s)
    with r have "sub_send e (ps_subs ps ! i) = Ret (Some s)" by simp
    from sub_send_Some [OF this] Some show ?thesis
      using ps_wf_update [OF assms(1,2)] by (simp add: ps'_def)
  qed
  moreover have "ps_subs ps' = (ps_subs ps)[i := deliver e (ps_subs ps ! i)]"
    using r assms(3) by (auto simp: ps'_def deliver_def removed_def split: option.splits)
  moreover have "eventBufferSize ps' = eventBufferSize ps"
    by (auto simp: ps'_def removed_def split: option.splits)
  moreover have "publish_sub e i ps = Ret ps'"
    using r removeSubscription_Ret [OF assms(1,2)] by (auto simp: publish_sub_def ps'_def split: option.splits)
  ultimately show ?thesis using ps_wf_eq by metis
qed

text \<open>One pass over the addresses of a set, in any order.\<close>

definition deliver_at :: "'e \<Rightarrow> nat set \<Rightarrow> 'e Subscription list \<Rightarrow> 'e Subscription list" where
  "deliver_at e A subs = map (\<lambda>j. if j \<in> A then deliver e (subs ! j) else subs ! j) [0..<length subs]"

lemma deliver_at_insert:
  "i \<notin> A \<Longrightarrow> i < length subs \<Longrightarrow>
   deliver_at e A (subs[i := deliver e (subs ! i)]) = deliver_at e (insert i A) subs"
  by (auto simp: deliver_at_def nth_list_update intro!: nth_equalityI)

lemma deliver_at_empty [simp]: "deliver_at e {} subs = subs"
  by (simp add: deliver_at_def map_nth)

lemma publish_subs_wf:
  assumes "ps_wf ps" and "distinct is"
    and "\<And>i. i \<in> set is \<Longrightarrow> i < length (ps_subs ps) \<and> sub_open (ps_subs ps ! i)"
  shows "publish_subs e is ps = Ret (with_subs ps (deliver_at e (set is) (ps_subs ps)))
    \<and> ps_wf (with_subs ps (deliver_at e (set is) (ps_subs ps)))"
  using assms
proof (induction "is" arbitrary: ps)
  case Nil
  then show ?case by (simp add: ps_wf_with_subs)
next
  case (Cons i "is")
  define ps1 where "ps1 = with_subs ps ((ps_subs ps)[i := deliver e (ps_subs ps ! i)])"
  have i: "i < length (ps_subs ps)" "sub_open (ps_subs ps ! i)" using Cons.prems(3) by auto
  have 1: "publish_sub e i ps = Ret ps1" "ps_wf ps1"
    using publish_sub_wf [OF Cons.prems(1) i] by (auto simp: ps1_def)
  have "publish_subs e is ps1 = Ret (with_subs ps1 (deliver_at e (set is) (ps_subs ps1)))
    \<and> ps_wf (with_subs ps1 (deliver_at e (set is) (ps_subs ps1)))"
    using Cons.prems by (intro Cons.IH 1(2)) (auto simp: ps1_def nth_list_update)
  moreover have "deliver_at e (set is) (ps_subs ps1) = deliver_at e (set (i # is)) (ps_subs ps)"
    using deliver_at_insert [of i "set is" "ps_subs ps" e] Cons.prems(2) i(1) by (simp add: ps1_def)
  ultimately show ?case using 1(1) by (simp add: ps1_def)
qed

text \<open>The effect of publishing to one channel, and to a list of channels, on one subscription.\<close>

definition deliver_channel :: "'e \<Rightarrow> string \<Rightarrow> 'e Subscription \<Rightarrow> 'e Subscription" where
  "deliver_channel e ch s = (if ch \<in> set (sub_channels s) then deliver e s else s)"

lemma deliver_at_members: "deliver_at e (members subs ch) subs = map (deliver_channel e ch) subs"
  by (auto simp: deliver_at_def deliver_channel_def members_def deliver_def intro!: nth_equalityI)

lemma members_open: "i \<in> members subs ch \<Longrightarrow> i < length subs \<and> sub_open (subs ! i)"
  by (simp add: members_def)

definition map_order :: "(nat set \<Rightarrow> nat list) \<Rightarrow> bool" where
  "map_order pick \<longleftrightarrow> (\<forall>A. finite A \<longrightarrow> distinct (pick A) \<and> set (pick A) = A)"

lemma finite_members [simp]: "finite (members subs ch)"
  by (rule finite_subset [of _ "{..<length subs}"]) (auto simp: members_def)

lemma publish_channels_wf:
  assumes "map_order pick" and "ps_wf ps"
  shows "publish_channels pick e chs ps
      = Ret (with_subs ps (map (fold (deliver_channel e) chs) (ps_subs ps)))
    \<and> ps_wf (with_subs ps (map (fold (deliver_channel e) chs) (ps_subs ps)))"
  using assms(2)
proof (induction chs arbitrary: ps)
  case Nil
  then show ?case by (simp add: ps_wf_with_subs id_def)
next
  case (Cons ch chs)
  define ps1 where "ps1 = with_subs ps (map (deliver_channel e ch) (ps_subs ps))"
  have reg: "channelsSubs ps ch = (let A = members (ps_subs ps) ch in if A = {} then None else Some A)"
    using Cons.prems by (simp add: ps_wf_def registry_def Let_def)
  have unchanged: "map (deliver_channel e ch) (ps_subs ps) = ps_subs ps" if "members (ps_subs ps) ch = {}"
    using deliver_at_members [of e "ps_subs ps" ch] that by simp
  have pick: "distinct (pick (members (ps_subs ps) ch))" "set (pick (members (ps_subs ps) ch)) = members (ps_subs ps) ch"
    using assms(1) by (auto simp: map_order_def)
  have one: "publish_subs e (pick (members (ps_subs ps) ch)) ps = Ret ps1 \<and> ps_wf ps1"
    using publish_subs_wf [OF Cons.prems pick(1), of e]
    unfolding pick(2) by (simp add: deliver_at_members ps1_def members_open)
  have "publish_channels pick e (ch # chs) ps = publish_channels pick e chs ps1"
  proof (cases "members (ps_subs ps) ch = {}")
    case True
    then have "ps1 = ps" unfolding ps1_def unchanged [OF True] by (intro ps_wf_with_subs Cons.prems)
    with True reg show ?thesis by simp
  next
    case False
    with reg one show ?thesis by (simp add: Let_def)
  qed
  then show ?case using Cons.IH [of ps1] one by (simp add: ps1_def comp_def)
qed

lemma fold_deliver_channel:
  "fold (deliver_channel e) chs s
     = (deliver e ^^ length (filter (\<lambda>ch. ch \<in> set (sub_channels s)) chs)) s"
  by (induction chs arbitrary: s) (simp_all add: deliver_channel_def funpow_swap1)

section \<open>Interleaving\<close>

text \<open>
  A publication in progress holds the mutex: the addresses of the current channel still to be
  served and the channels still to come. Subscribing, closing and another publication wait for
  the mutex; receives do not. The order of the addresses is any enumeration of the entry.
\<close>

record 'e ps_machine =
  m_ps :: "'e PubSub"
  m_pub :: "('e \<times> nat list \<times> string list) option"
  m_panic :: bool

definition ps_machine_init :: "nat \<Rightarrow> 'e ps_machine" where
  "ps_machine_init n = \<lparr>m_ps = NewPubSub (int n), m_pub = None, m_panic = False\<rparr>"

datatype 'e ps_op =
  OpSubscribe "string list" | OpClose nat | OpPublish 'e "string list"
| OpChannel "nat list" | OpSend | OpDone | OpReceive nat

inductive ps_step :: "'e ps_machine \<Rightarrow> 'e ps_op \<Rightarrow> 'e ps_machine \<Rightarrow> bool" where
  step_subscribe: "m_pub s = None \<Longrightarrow> Subscribe chs (m_ps s) = Ret (r, ps') \<Longrightarrow>
    ps_step s (OpSubscribe chs) (s\<lparr>m_ps := ps'\<rparr>)"
| step_subscribe_panic: "m_pub s = None \<Longrightarrow> Subscribe chs (m_ps s) = Panic msg \<Longrightarrow>
    ps_step s (OpSubscribe chs) (s\<lparr>m_panic := True\<rparr>)"
| step_close: "m_pub s = None \<Longrightarrow> i < length (ps_subs (m_ps s)) \<Longrightarrow> Subscription_Close i (m_ps s) = Ret (r, ps') \<Longrightarrow>
    ps_step s (OpClose i) (s\<lparr>m_ps := ps'\<rparr>)"
| step_close_panic: "m_pub s = None \<Longrightarrow> i < length (ps_subs (m_ps s)) \<Longrightarrow> Subscription_Close i (m_ps s) = Panic msg \<Longrightarrow>
    ps_step s (OpClose i) (s\<lparr>m_panic := True\<rparr>)"
| step_publish: "m_pub s = None \<Longrightarrow> chs \<noteq> [] \<Longrightarrow>
    ps_step s (OpPublish e chs) (s\<lparr>m_pub := Some (e, [], chs)\<rparr>)"
| step_channel: "m_pub s = Some (e, [], ch # chs) \<Longrightarrow> distinct is \<Longrightarrow>
    set is = (case channelsSubs (m_ps s) ch of None \<Rightarrow> {} | Some A \<Rightarrow> A) \<Longrightarrow>
    ps_step s (OpChannel is) (s\<lparr>m_pub := Some (e, is, chs)\<rparr>)"
| step_send: "m_pub s = Some (e, i # is, chs) \<Longrightarrow> publish_sub e i (m_ps s) = Ret ps' \<Longrightarrow>
    ps_step s OpSend (s\<lparr>m_ps := ps', m_pub := Some (e, is, chs)\<rparr>)"
| step_send_panic: "m_pub s = Some (e, i # is, chs) \<Longrightarrow> publish_sub e i (m_ps s) = Panic msg \<Longrightarrow>
    ps_step s OpSend (s\<lparr>m_panic := True\<rparr>)"
| step_done: "m_pub s = Some (e, [], []) \<Longrightarrow> ps_step s OpDone (s\<lparr>m_pub := None\<rparr>)"
| step_receive: "i < length (ps_subs (m_ps s)) \<Longrightarrow> ps_step s (OpReceive i) (s\<lparr>m_ps := receive i (m_ps s)\<rparr>)"

inductive_cases ps_stepE: "ps_step s a t"

text \<open>The addresses still to be served are open and pairwise different.\<close>

definition pub_ok :: "'e PubSub \<Rightarrow> ('e \<times> nat list \<times> string list) option \<Rightarrow> bool" where
  "pub_ok ps p = (case p of None \<Rightarrow> True
     | Some (e, is, chs) \<Rightarrow> distinct is \<and> (\<forall>i \<in> set is. i < length (ps_subs ps) \<and> sub_open (ps_subs ps ! i)))"

lemma pub_ok_simps [simp]:
  "pub_ok ps None"
  "pub_ok ps (Some (e, is, chs)) \<longleftrightarrow>
     distinct is \<and> (\<forall>i \<in> set is. i < length (ps_subs ps) \<and> sub_open (ps_subs ps ! i))"
  by (simp_all add: pub_ok_def)

definition fifo_ok :: "'e Subscription \<Rightarrow> bool" where
  "fifo_ok s \<longleftrightarrow> (0 < sub_waiting s \<longrightarrow> chan_buf (sub_c s) = []) \<and> chan_wf (sub_c s)"

definition ps_inv :: "'e ps_machine \<Rightarrow> bool" where
  "ps_inv s \<longleftrightarrow> ps_wf (m_ps s) \<and> 0 \<le> eventBufferSize (m_ps s) \<and> \<not> m_panic s
     \<and> pub_ok (m_ps s) (m_pub s) \<and> list_all fifo_ok (ps_subs (m_ps s))"

text \<open>Everything a subscription has been given so far, oldest first.\<close>

definition stream :: "'e Subscription \<Rightarrow> 'e list" where
  "stream s = sub_got s @ chan_buf (sub_c s)"

text \<open>
  How one step may change one subscription: it keeps its channels, its stream grows at the end,
  only while it is open, and it never reopens.
\<close>

definition sub_evolves :: "'e Subscription \<Rightarrow> 'e Subscription \<Rightarrow> bool" where
  "sub_evolves s t \<longleftrightarrow> sub_channels t = sub_channels s \<and> prefix (stream s) (stream t)
     \<and> (\<not> sub_open s \<longrightarrow> \<not> sub_open t \<and> stream t = stream s)"

lemma sub_evolves_refl [simp]: "sub_evolves s s"
  by (simp add: sub_evolves_def)

lemma closed_once_stream [simp]: "stream (closed_once s) = stream s" "fifo_ok (closed_once s) = fifo_ok s"
  "sub_evolves s (closed_once s)"
  by (auto simp: closed_once_def stream_def fifo_ok_def chan_wf_def sub_evolves_def sub_open_def)

lemma deliver_ok:
  assumes "fifo_ok s"
  shows "fifo_ok (deliver e s) \<and> sub_evolves s (deliver e s)"
  using assms
  by (auto simp: deliver_def sub_send_def try_send_def fifo_ok_def chan_wf_def sub_evolves_def
      sub_open_def stream_def closed_once_def)

definition receive_sub :: "'e Subscription \<Rightarrow> 'e Subscription" where
  "receive_sub s = (case chan_buf (sub_c s) of
       e # es \<Rightarrow> s\<lparr>sub_c := (sub_c s)\<lparr>chan_buf := es\<rparr>, sub_got := sub_got s @ [e]\<rparr>
     | [] \<Rightarrow> if chan_closed (sub_c s) then s else s\<lparr>sub_waiting := Suc (sub_waiting s)\<rparr>)"

lemma receive_sub_ok:
  "fifo_ok s \<Longrightarrow> fifo_ok (receive_sub s) \<and> sub_evolves s (receive_sub s)
   \<and> sub_channels (receive_sub s) = sub_channels s \<and> sub_open (receive_sub s) = sub_open s
   \<and> sub_once (receive_sub s) = sub_once s \<and> stream (receive_sub s) = stream s"
  by (auto simp: receive_sub_def fifo_ok_def chan_wf_def sub_evolves_def stream_def sub_open_def
      split: list.splits)

lemma receive_alt: "receive i ps = ps\<lparr>ps_subs := (ps_subs ps)[i := receive_sub (ps_subs ps ! i)]\<rparr>"
  by (simp add: receive_def receive_sub_def Let_def)

text \<open>The store after a step: what changes is one subscription, or a fresh one is appended.\<close>

definition store_evolves :: "'e Subscription list \<Rightarrow> 'e Subscription list \<Rightarrow> bool" where
  "store_evolves xs ys \<longleftrightarrow> length xs \<le> length ys \<and> (\<forall>i < length xs. sub_evolves (xs ! i) (ys ! i))
     \<and> (\<forall>i < length ys. length xs \<le> i \<longrightarrow> stream (ys ! i) = [])"

lemma store_evolves_refl: "store_evolves xs xs"
  by (simp add: store_evolves_def)

lemma store_evolves_update:
  "i < length xs \<Longrightarrow> sub_evolves (xs ! i) s \<Longrightarrow> store_evolves xs (xs[i := s])"
  by (auto simp: store_evolves_def nth_list_update)

text \<open>Each kind of step keeps the invariant and evolves the store.\<close>

lemma subscribe_ok:
  assumes "ps_wf ps" "list_all fifo_ok (ps_subs ps)" "Subscribe chs ps = Ret (r, ps')"
  shows "ps_wf ps'" "list_all fifo_ok (ps_subs ps')" "store_evolves (ps_subs ps) (ps_subs ps')"
    "eventBufferSize ps' = eventBufferSize ps"
  using assms ps_wf_Subscribe [OF assms(1,3)]
  by (auto simp: Subscribe_def Let_def fifo_ok_def make_chan_def chan_wf_def store_evolves_def nth_append
      stream_def split: if_splits)

lemma close_ok:
  assumes "ps_wf ps" "list_all fifo_ok (ps_subs ps)" "i < length (ps_subs ps)"
  shows "ps_wf (removed i ps)" "list_all fifo_ok (ps_subs (removed i ps))"
    "store_evolves (ps_subs ps) (ps_subs (removed i ps))"
    "eventBufferSize (removed i ps) = eventBufferSize ps"
  using assms ps_wf_remove [OF assms(1,3)]
  by (auto simp: removed_def list_all_length intro!: list_all_update store_evolves_update)
    (auto simp: nth_list_update)

lemma receive_ok:
  assumes "ps_wf ps" "list_all fifo_ok (ps_subs ps)" "i < length (ps_subs ps)"
  shows "ps_wf (receive i ps)" "list_all fifo_ok (ps_subs (receive i ps))"
    "store_evolves (ps_subs ps) (ps_subs (receive i ps))"
    "eventBufferSize (receive i ps) = eventBufferSize ps"
    "pub_ok ps p \<Longrightarrow> pub_ok (receive i ps) p"
proof -
  have ok: "fifo_ok (ps_subs ps ! i)" using assms(2,3) by (simp add: list_all_length)
  note r = receive_sub_ok [OF ok]
  show "ps_wf (receive i ps)" using ps_wf_update [OF assms(1,3)] r by (simp add: receive_alt)
  show "list_all fifo_ok (ps_subs (receive i ps))" using assms(2) r by (simp add: receive_alt list_all_update)
  show "store_evolves (ps_subs ps) (ps_subs (receive i ps))"
    using store_evolves_update [OF assms(3)] r by (simp add: receive_alt)
  show "eventBufferSize (receive i ps) = eventBufferSize ps" by (simp add: receive_alt)
  have "sub_open ((ps_subs ps)[i := receive_sub (ps_subs ps ! i)] ! j) = sub_open (ps_subs ps ! j)" for j
    using r assms(3) by (cases "j = i") auto
  then show "pub_ok ps p \<Longrightarrow> pub_ok (receive i ps) p"
    by (cases p) (auto simp: receive_alt)
qed

lemma send_ok:
  assumes "ps_wf ps" "list_all fifo_ok (ps_subs ps)" "pub_ok ps (Some (e, i # is, chs))"
  obtains ps' where "publish_sub e i ps = Ret ps'" "ps_wf ps'" "list_all fifo_ok (ps_subs ps')"
    "store_evolves (ps_subs ps) (ps_subs ps')" "eventBufferSize ps' = eventBufferSize ps"
    "pub_ok ps' (Some (e, is, chs))"
proof -
  have i: "i < length (ps_subs ps)" "sub_open (ps_subs ps ! i)" using assms(3) by (auto simp: pub_ok_def)
  have d: "fifo_ok (deliver e (ps_subs ps ! i)) \<and> sub_evolves (ps_subs ps ! i) (deliver e (ps_subs ps ! i))"
    using deliver_ok [of "ps_subs ps ! i" e] assms(2) i(1) by (simp add: list_all_length)
  define ps' where "ps' = with_subs ps ((ps_subs ps)[i := deliver e (ps_subs ps ! i)])"
  have "publish_sub e i ps = Ret ps'" "ps_wf ps'"
    using publish_sub_wf [OF assms(1) i, of e] by (simp_all add: ps'_def)
  moreover have "list_all fifo_ok (ps_subs ps')" using assms(2) d by (simp add: ps'_def list_all_update)
  moreover have "store_evolves (ps_subs ps) (ps_subs ps')"
    using store_evolves_update [OF i(1)] d by (simp add: ps'_def)
  moreover have "pub_ok ps' (Some (e, is, chs))"
    using assms(3) by (auto simp: pub_ok_def ps'_def nth_list_update)
  moreover have "eventBufferSize ps' = eventBufferSize ps" by (simp add: ps'_def)
  ultimately show thesis using that by blast
qed

lemma ps_step_ok:
  assumes "ps_inv s" and "ps_step s a t"
  shows "ps_inv t \<and> store_evolves (ps_subs (m_ps s)) (ps_subs (m_ps t))"
  using assms(2)
proof (cases rule: ps_step.cases)
  case (step_subscribe chs r ps')
  with assms(1) subscribe_ok [OF _ _ step_subscribe(4)] show ?thesis by (auto simp: ps_inv_def pub_ok_def)
next
  case (step_subscribe_panic chs msg)
  with assms(1) show ?thesis by (auto simp: ps_inv_def Subscribe_def Let_def split: if_splits)
next
  case (step_close i r ps')
  with assms(1) have "ps' = removed i (m_ps s)" by (simp add: ps_inv_def Subscription_Close_removed)
  with step_close assms(1) close_ok [of "m_ps s" i] show ?thesis by (auto simp: ps_inv_def pub_ok_def)
next
  case (step_close_panic i msg)
  with assms(1) show ?thesis by (simp add: ps_inv_def Subscription_Close_removed)
next
  case (step_channel e ch chs "is")
  have "set is = members (ps_subs (m_ps s)) ch"
    using step_channel(5) assms(1) by (auto simp: ps_inv_def ps_wf_def registry_def split: if_splits)
  then have "pub_ok (m_ps s) (Some (e, is, chs))"
    using step_channel(4) members_open by auto
  with step_channel(2) assms(1) show ?thesis by (simp add: ps_inv_def store_evolves_refl)
next
  case (step_send e i "is" chs ps')
  then have "ps_wf (m_ps s)" "list_all fifo_ok (ps_subs (m_ps s))" "pub_ok (m_ps s) (Some (e, i # is, chs))"
    using assms(1) by (simp_all add: ps_inv_def)
  then obtain ps1 where "publish_sub e i (m_ps s) = Ret ps1" and ok: "ps_wf ps1"
    "list_all fifo_ok (ps_subs ps1)" "store_evolves (ps_subs (m_ps s)) (ps_subs ps1)"
    "eventBufferSize ps1 = eventBufferSize (m_ps s)" "pub_ok ps1 (Some (e, is, chs))"
    by (rule send_ok)
  with step_send have "ps1 = ps'" by simp
  with ok step_send(2) assms(1) show ?thesis by (simp add: ps_inv_def)
next
  case (step_send_panic e i "is" chs msg)
  then have "ps_wf (m_ps s)" "list_all fifo_ok (ps_subs (m_ps s))" "pub_ok (m_ps s) (Some (e, i # is, chs))"
    using assms(1) by (simp_all add: ps_inv_def)
  then obtain ps1 where "publish_sub e i (m_ps s) = Ret ps1" by (rule send_ok)
  with step_send_panic show ?thesis by simp
next
  case (step_receive i)
  with assms(1) receive_ok [of "m_ps s" i] show ?thesis by (auto simp: ps_inv_def)
qed (use assms(1) in \<open>simp_all add: ps_inv_def store_evolves_refl\<close>)

interpretation inmem: invariant_machine "ps_machine_init n" ps_step ps_inv for n
proof unfold_locales
  show "ps_inv (ps_machine_init n)"
    using ps_wf_New [of "int n"] by (simp add: ps_inv_def ps_machine_init_def pub_ok_def) (simp add: NewPubSub_def)
qed (use ps_step_ok in blast)

lemma reachable_first_subscription:
  assumes "Subscribe chs (m_ps (ps_machine_init n)) = Ret (r, ps)"
  shows "reachable (ps_machine_init n) ps_step ((ps_machine_init n)\<lparr>m_ps := ps\<rparr>)"
proof (rule reachable_step [where a = "OpSubscribe chs"])
  show "ps_step (ps_machine_init n) (OpSubscribe chs) ((ps_machine_init n)\<lparr>m_ps := ps\<rparr>)"
    by (rule step_subscribe [OF _ assms]) (simp add: ps_machine_init_def)
qed (rule reachable_init)

section \<open>Properties\<close>

text \<open>
  C10. Publishing does the same whatever order the map is iterated in: it returns no error, and
  every subscription is offered the event once per published channel it subscribes to. An offer to
  an open subscription is taken by a waiting consumer or by the buffer, and closes the
  subscription when neither can take it; closed subscriptions are left alone, and the registry
  holds exactly the subscriptions that are still open.
\<close>

theorem publish_effect:
  assumes "map_order pick" and "ps_wf ps" and "chs \<noteq> []"
  shows "Publish pick e chs ps = Ret (None, with_subs ps
    (map (\<lambda>s. (deliver e ^^ length (filter (\<lambda>ch. ch \<in> set (sub_channels s)) chs)) s) (ps_subs ps)))"
  using publish_channels_wf [OF assms(1,2), of e chs] assms(3)
  by (simp add: Publish_def fold_deliver_channel [abs_def])

lemma map_order_sorted: "map_order sorted_list_of_set"
  by (simp add: map_order_def)

theorem publish_effect_witness:
  "\<exists>ps ps'. Subscribe [''a'', ''b''] (NewPubSub 1) = Ret (Inr 0, ps)
     \<and> Publish sorted_list_of_set (7 :: nat) [''a'', ''b''] ps = Ret (None, ps')
     \<and> map (chan_buf \<circ> sub_c) (ps_subs ps') = [[7]] \<and> map sub_open (ps_subs ps') = [False]"
proof -
  obtain ps where ps: "Subscribe [''a'', ''b''] (NewPubSub 1 :: nat PubSub) = Ret (Inr 0, ps)"
    "ps_subs ps = [\<lparr>sub_channels = [''a'', ''b''], sub_once = False, sub_c = make_chan 1, sub_waiting = 0, sub_got = []\<rparr>]"
    by (simp add: Subscribe_def NewPubSub_def Let_def)
  have "ps_wf ps" using ps_wf_Subscribe ps_wf_New ps(1) by blast
  then have "Publish sorted_list_of_set (7 :: nat) [''a'', ''b''] ps = Ret (None, with_subs ps
      (map (\<lambda>s. (deliver 7 ^^ length (filter (\<lambda>ch. ch \<in> set (sub_channels s)) [''a'', ''b''])) s) (ps_subs ps)))"
    by (intro publish_effect map_order_sorted) auto
  with ps show ?thesis
    by (simp add: deliver_def sub_open_def sub_send_def try_send_def make_chan_def closed_once_def)
qed

text \<open>
  C1. In every interleaving of subscriptions, closes, publications and receives, at any buffer
  size, no operation panics (in particular nothing is sent on a closed channel and no channel is
  closed twice), and the registry lists under each channel exactly the open subscriptions that
  name it, with no empty entry left behind.
\<close>

theorem inmem_never_panics:
  assumes "reachable (ps_machine_init n) ps_step s"
  shows "\<not> m_panic s \<and> channelsSubs (m_ps s) = registry (ps_subs (m_ps s))
    \<and> list_all (\<lambda>sub. length (chan_buf (sub_c sub)) \<le> chan_cap (sub_c sub)) (ps_subs (m_ps s))"
  using inmem.inv_reachable [OF assms]
  by (auto simp: ps_inv_def ps_wf_def list_all_iff fifo_ok_def chan_wf_def)

text \<open>A run that subscribes and closes the subscription twice.\<close>

theorem inmem_never_panics_witness:
  "\<exists>s s1 s2. ps_step (ps_machine_init 0 :: nat ps_machine) (OpSubscribe [''a'']) s \<and> ps_step s (OpClose 0) s1 \<and> ps_step s1 (OpClose 0) s2
     \<and> \<not> m_panic s2 \<and> \<not> sub_open (ps_subs (m_ps s2) ! 0) \<and> channelsSubs (m_ps s2) ''a'' = None"
proof -
  let ?init = "ps_machine_init 0 :: nat ps_machine"
  obtain ps where ps: "Subscribe [''a''] (m_ps ?init) = Ret (Inr 0, ps)" "length (ps_subs ps) = 1"
    by (simp add: Subscribe_def ps_machine_init_def NewPubSub_def Let_def)
  have "ps_wf (m_ps ?init)" using ps_wf_New [of 0] by (simp add: ps_machine_init_def)
  then have wf: "ps_wf ps" by (rule ps_wf_Subscribe [OF _ ps(1)])
  obtain ps' where ps': "Subscription_Close 0 ps = Ret (None, ps')" "Subscription_Close 0 ps' = Ret (None, ps')"
      "\<not> sub_open (ps_subs ps' ! 0)" "length (ps_subs ps') = 1"
  proof
    show "Subscription_Close 0 ps = Ret (None, removed 0 ps)" using Subscription_Close_removed [OF wf] ps(2) by simp
    have "ps_subs ps ! 0 \<in> set (ps_subs ps)" using ps(2) by simp
    then have "sub_once (ps_subs ps ! 0) = chan_closed (sub_c (ps_subs ps ! 0))" using wf by (simp add: ps_wf_def)
    then show "\<not> sub_open (ps_subs (removed 0 ps) ! 0)" using ps(2) by (simp add: removed_def)
    have "removed 0 (removed 0 ps) = removed 0 ps"
      using ps(2) by (simp add: removed_def closed_once_def fold_remove_apply fun_eq_iff)
    then show "Subscription_Close 0 (removed 0 ps) = Ret (None, removed 0 ps)"
      using Subscription_Close_removed [OF ps_wf_remove [OF wf], of 0 0] ps(2) by (simp add: removed_def)
    show "length (ps_subs (removed 0 ps)) = 1" using ps(2) by (simp add: removed_def)
  qed
  define s where "s = ?init\<lparr>m_ps := ps\<rparr>"
  define s1 where "s1 = s\<lparr>m_ps := ps'\<rparr>"
  have st: "ps_step ?init (OpSubscribe [''a'']) s" "ps_step s (OpClose 0) s1" "ps_step s1 (OpClose 0) s1"
    using step_subscribe [OF _ ps(1)] step_close [of s 0 None ps'] step_close [of s1 0 None ps'] ps ps'
    by (simp_all add: s_def s1_def ps_machine_init_def)
  then have "reachable ?init ps_step s1" by (meson reachable_intros)
  from inmem_never_panics [OF this] have "\<not> m_panic s1" "channelsSubs (m_ps s1) = registry (ps_subs (m_ps s1))" by auto
  with st ps'(3,4) show ?thesis
    by (intro exI [of _ s] exI [of _ s1]) (auto simp: s1_def registry_def members_def)
qed

text \<open>
  Consumers read a stream: along every step from a reachable state, what a subscription was
  given so far is only extended at its end, and not at all once it is closed; a closed
  subscription stays closed, and events buffered before a close can still be received. A new
  subscription starts with an empty stream.
\<close>

theorem inmem_streams_grow:
  assumes "reachable (ps_machine_init n) ps_step s" and "ps_step s a t" and "i < length (ps_subs (m_ps s))"
  shows "prefix (stream (ps_subs (m_ps s) ! i)) (stream (ps_subs (m_ps t) ! i))
    \<and> (\<not> sub_open (ps_subs (m_ps s) ! i) \<longrightarrow> \<not> sub_open (ps_subs (m_ps t) ! i)
         \<and> stream (ps_subs (m_ps t) ! i) = stream (ps_subs (m_ps s) ! i))"
  using ps_step_ok [OF inmem.inv_reachable [OF assms(1)] assms(2)] assms(3)
  by (simp add: store_evolves_def sub_evolves_def)

theorem inmem_streams_grow_witness:
  "\<exists>s t. reachable (ps_machine_init 1 :: nat ps_machine) ps_step s \<and> ps_step s (OpReceive 0) t
     \<and> prefix (stream (ps_subs (m_ps s) ! 0)) (stream (ps_subs (m_ps t) ! 0))"
proof -
  obtain ps where ps: "Subscribe [''a''] (m_ps (ps_machine_init 1 :: nat ps_machine)) = Ret (Inr 0, ps)" "0 < length (ps_subs ps)"
    by (simp add: Subscribe_def ps_machine_init_def NewPubSub_def Let_def)
  define s where "s = (ps_machine_init 1)\<lparr>m_ps := ps\<rparr>"
  have "reachable (ps_machine_init 1) ps_step s"
    using reachable_first_subscription [OF ps(1)] by (simp add: s_def)
  moreover have "ps_step s (OpReceive 0) (s\<lparr>m_ps := receive 0 (m_ps s)\<rparr>)"
    using ps(2) by (intro step_receive) (simp add: s_def)
  moreover have "0 < length (ps_subs (m_ps s))" using ps(2) by (simp add: s_def)
  ultimately show ?thesis using inmem_streams_grow by blast
qed

text \<open>
  Closing a subscription removes it from every channel and closes its event channel; closing
  it again changes nothing and reports no error.
\<close>

theorem inmem_close_idempotent:
  assumes "ps_wf ps" and "i < length (ps_subs ps)"
  shows "\<exists>ps'. Subscription_Close i ps = Ret (None, ps') \<and> \<not> sub_open (ps_subs ps' ! i)
    \<and> (\<forall>ch A. channelsSubs ps' ch = Some A \<longrightarrow> i \<notin> A) \<and> Subscription_Close i ps' = Ret (None, ps')"
proof -
  define ps' where "ps' = removed i ps"
  have "sub_once (ps_subs ps ! i) = chan_closed (sub_c (ps_subs ps ! i))"
    using assms(1,2) nth_mem by (fastforce simp: ps_wf_def)
  then have closed: "\<not> sub_open (ps_subs ps' ! i)"
    using assms(2) by (simp add: ps'_def removed_def)
  have wf: "ps_wf ps'" using ps_wf_remove [OF assms] by (simp add: ps'_def)
  then have "channelsSubs ps' ch \<noteq> Some A \<or> i \<notin> A" for ch A
    using closed by (auto simp: ps_wf_def registry_def members_def split: if_splits)
  moreover have "removed i ps' = ps'"
    using assms(2) by (simp add: ps'_def removed_def closed_once_def fold_remove_apply fun_eq_iff)
  moreover have "i < length (ps_subs ps')" using assms(2) by (simp add: ps'_def removed_def)
  ultimately show ?thesis
    using Subscription_Close_removed [OF assms] Subscription_Close_removed [OF wf] closed by (auto simp: ps'_def)
qed

theorem inmem_close_idempotent_witness:
  "\<exists>ps ps' :: nat PubSub. Subscribe [''a''] (NewPubSub 1) = Ret (Inr 0, ps)
     \<and> Subscription_Close 0 ps = Ret (None, ps') \<and> Subscription_Close 0 ps' = Ret (None, ps')"
proof -
  obtain ps where ps: "Subscribe [''a''] (NewPubSub 1 :: nat PubSub) = Ret (Inr 0, ps)" "0 < length (ps_subs ps)"
    by (simp add: Subscribe_def NewPubSub_def Let_def)
  moreover have "ps_wf ps" using ps_wf_Subscribe ps_wf_New ps(1) by blast
  ultimately show ?thesis using inmem_close_idempotent [of ps 0] by blast
qed

end
