(* ===== verification/Inmem_Delivery.thy ===== *)
theory Inmem_Delivery
  imports Pubsub_Inmem
begin

text \<open>
  What the subscribers of the in-memory service are promised, stated on whole runs: the abstract specification keeps, for
  each subscription, the events published on its channels since it subscribed, and the service refines it. An open
  subscription has been given exactly these events, in order and without gaps; one that was closed, by its owner or because
  nobody took an event, has been given a prefix of them.
\<close>

section \<open>The specification\<close>

text \<open>Per subscription its channels and the events it is to be given, as the operations of a run say.\<close>

type_synonym 'e ledger = "(string list \<times> 'e list) list"

definition matching :: "string list \<Rightarrow> string list \<Rightarrow> nat" where
  "matching cs chs = length (filter (\<lambda>ch. ch \<in> set cs) chs)"

fun spec_step :: "'e ps_op \<Rightarrow> 'e ledger \<Rightarrow> 'e ledger" where
  "spec_step (OpSubscribe chs) h = (if chs = [] then h else h @ [(chs, [])])"
| "spec_step (OpPublish e chs) h = map (\<lambda>(cs, es). (cs, es @ replicate (matching cs chs) e)) h"
| "spec_step (OpClose i) h = h"
| "spec_step (OpChannel is) h = h"
| "spec_step OpSend h = h"
| "spec_step OpDone h = h"
| "spec_step (OpReceive i) h = h"

definition spec_run :: "'e ps_op list \<Rightarrow> 'e ledger" where
  "spec_run ops = fold spec_step ops []"

lemma spec_run_snoc: "spec_run (ops @ [a]) = spec_step a (spec_run ops)"
  by (simp add: spec_run_def)

section \<open>Runs of the service\<close>

inductive ps_run :: "nat \<Rightarrow> 'e ps_op list \<Rightarrow> 'e ps_machine \<Rightarrow> bool" where
  ps_run_init: "ps_run n [] (ps_machine_init n)"
| ps_run_step: "ps_run n ops s \<Longrightarrow> ps_step s a t \<Longrightarrow> ps_run n (ops @ [a]) t"

lemma ps_run_inv: "ps_run n ops s \<Longrightarrow> ps_inv s"
proof (induction rule: ps_run.induct)
  case (ps_run_init n)
  show ?case by (rule inmem.inv_init)
next
  case (ps_run_step n ops s a t)
  then show ?case using inmem.inv_step by blast
qed

section \<open>The refinement\<close>

text \<open>What the publication in progress still owes to a subscription.\<close>

fun owed :: "('e \<times> nat list \<times> string list) option \<Rightarrow> nat \<Rightarrow> string list \<Rightarrow> 'e list" where
  "owed None i cs = []"
| "owed (Some (e, is, chs)) i cs = replicate ((if i \<in> set is then 1 else 0) + matching cs chs) e"

definition sub_refines :: "'e list \<Rightarrow> 'e Subscription \<Rightarrow> string list \<times> 'e list \<Rightarrow> bool" where
  "sub_refines pend s l \<longleftrightarrow> sub_channels s = fst l \<and> prefix (stream s) (snd l)
     \<and> (sub_open s \<longrightarrow> stream s @ pend = snd l)"

definition refines :: "'e ps_machine \<Rightarrow> 'e ledger \<Rightarrow> bool" where
  "refines s h \<longleftrightarrow> length h = length (ps_subs (m_ps s))
     \<and> (\<forall>i < length h. sub_refines (owed (m_pub s) i (fst (h ! i))) (ps_subs (m_ps s) ! i) (h ! i))"

lemma deliver_stream:
  assumes "fifo_ok s" and "sub_open s" and "\<not> sub_once s"
  shows "stream (deliver e s) = (if sub_open (deliver e s) then stream s @ [e] else stream s)"
  using assms by (auto simp: deliver_def sub_send_def try_send_def fifo_ok_def stream_def sub_open_def closed_once_def)

lemma sub_refines_deliver:
  assumes "sub_refines (e # pend) s l" and "fifo_ok s" and "sub_open s" and "\<not> sub_once s"
  shows "sub_refines pend (deliver e s) l"
  using assms(1,3) deliver_stream [OF assms(2-4), of e] by (cases "sub_open (deliver e s)") (auto simp: sub_refines_def prefix_def)

lemma sub_refines_close: "sub_refines pend s l \<Longrightarrow> \<not> sub_open (closed_once s) \<Longrightarrow> sub_refines pend' (closed_once s) l"
  by (auto simp: sub_refines_def closed_once_def stream_def)

text \<open>Publishing: the ledger grows by what the publication now owes.\<close>

lemma sub_refines_publish:
  assumes "sub_refines [] s l"
  shows "sub_refines (replicate k e) s (fst l, snd l @ replicate k e)"
  using assms by (auto simp: sub_refines_def intro: prefix_prefix)

lemma refinesI:
  assumes "length h = length (ps_subs (m_ps s))"
    and "\<And>i. i < length h \<Longrightarrow> sub_refines (owed (m_pub s) i (fst (h ! i))) (ps_subs (m_ps s) ! i) (h ! i)"
  shows "refines s h"
  using assms by (simp add: refines_def)

lemma refinesD:
  assumes "refines s h"
  shows "length h = length (ps_subs (m_ps s))"
    and "i < length h \<Longrightarrow> sub_refines (owed (m_pub s) i (fst (h ! i))) (ps_subs (m_ps s) ! i) (h ! i)"
  using assms by (simp_all add: refines_def)

lemma refines_subscribe:
  assumes "refines s h" and "m_pub s = None" and "Subscribe chs (m_ps s) = Ret (r, ps')"
  shows "refines (s\<lparr>m_ps := ps'\<rparr>) (spec_step (OpSubscribe chs) h)"
  using assms
  by (auto simp: Subscribe_def Let_def refines_def nth_append less_Suc_eq sub_refines_def stream_def make_chan_def
      split: if_splits)

lemma refines_close:
  assumes "refines s h" and "ps_inv s" and "m_pub s = None" and i: "i < length (ps_subs (m_ps s))"
  shows "refines (s\<lparr>m_ps := removed i (m_ps s)\<rparr>) h"
proof (rule refinesI)
  fix j assume j: "j < length h"
  have "sub_once (ps_subs (m_ps s) ! i) = chan_closed (sub_c (ps_subs (m_ps s) ! i))"
    using assms(2) i nth_mem by (fastforce simp: ps_inv_def ps_wf_def)
  then have "\<not> sub_open (closed_once (ps_subs (m_ps s) ! i))" by (simp add: closed_once_def sub_open_def)
  with refinesD(2) [OF assms(1) j] sub_refines_close [of "[]" "ps_subs (m_ps s) ! i" "h ! i" "[]"] i assms(3)
  show "sub_refines (owed (m_pub (s\<lparr>m_ps := removed i (m_ps s)\<rparr>)) j (fst (h ! j)))
      (ps_subs (m_ps (s\<lparr>m_ps := removed i (m_ps s)\<rparr>)) ! j) (h ! j)"
    by (cases "j = i") (auto simp: removed_def)
qed (use refinesD(1) [OF assms(1)] in \<open>simp add: removed_def\<close>)

lemma refines_publish:
  assumes "refines s h" and "m_pub s = None"
  shows "refines (s\<lparr>m_pub := Some (e, [], chs)\<rparr>) (spec_step (OpPublish e chs) h)"
proof (rule refinesI)
  fix i assume i: "i < length (spec_step (OpPublish e chs) h)"
  then have "sub_refines [] (ps_subs (m_ps s) ! i) (h ! i)" using refinesD(2) [OF assms(1), of i] assms(2) by simp
  from sub_refines_publish [OF this, of "matching (fst (h ! i)) chs" e] i
  show "sub_refines (owed (m_pub (s\<lparr>m_pub := Some (e, [], chs)\<rparr>)) i (fst (spec_step (OpPublish e chs) h ! i)))
      (ps_subs (m_ps (s\<lparr>m_pub := Some (e, [], chs)\<rparr>)) ! i) (spec_step (OpPublish e chs) h ! i)"
    by (simp add: case_prod_unfold)
qed (use refinesD(1) [OF assms(1)] in simp)

text \<open>The addresses of a channel are its open subscribers, so what is owed to an open subscription stays the same.\<close>

lemma refines_channel:
  assumes "refines s h" and "m_pub s = Some (e, [], ch # chs)" and "set is = members (ps_subs (m_ps s)) ch"
  shows "refines (s\<lparr>m_pub := Some (e, is, chs)\<rparr>) h"
proof (rule refinesI)
  fix i assume i: "i < length h"
  from refinesD [OF assms(1)] i have r: "sub_refines (owed (m_pub s) i (fst (h ! i))) (ps_subs (m_ps s) ! i) (h ! i)"
    and len: "i < length (ps_subs (m_ps s))" by simp_all
  have "owed (Some (e, is, chs)) i (fst (h ! i)) = owed (m_pub s) i (fst (h ! i))" if "sub_open (ps_subs (m_ps s) ! i)"
    using that r len assms(2,3) by (simp add: sub_refines_def members_def matching_def)
  with r show "sub_refines (owed (m_pub (s\<lparr>m_pub := Some (e, is, chs)\<rparr>)) i (fst (h ! i)))
      (ps_subs (m_ps (s\<lparr>m_pub := Some (e, is, chs)\<rparr>)) ! i) (h ! i)"
    by (auto simp: sub_refines_def)
qed (use refinesD(1) [OF assms(1)] in simp)

lemma refines_send:
  assumes "refines s h" and inv: "ps_inv s" and pub: "m_pub s = Some (e, i # is, chs)"
    and send: "publish_sub e i (m_ps s) = Ret ps'"
  shows "refines (s\<lparr>m_ps := ps', m_pub := Some (e, is, chs)\<rparr>) h"
proof (rule refinesI)
  have i: "i < length (ps_subs (m_ps s))" "sub_open (ps_subs (m_ps s) ! i)" "i \<notin> set is"
    using inv pub by (auto simp: ps_inv_def pub_ok_def)
  have ps': "ps_subs ps' = (ps_subs (m_ps s))[i := deliver e (ps_subs (m_ps s) ! i)]"
    using publish_sub_wf [of "m_ps s" i e] inv i send by (auto simp: ps_inv_def)
  show "length h = length (ps_subs (m_ps (s\<lparr>m_ps := ps', m_pub := Some (e, is, chs)\<rparr>)))"
    using refinesD(1) [OF assms(1)] ps' by simp
  fix j assume j: "j < length h"
  note r = refinesD(2) [OF assms(1) j, unfolded pub]
  have fifo: "fifo_ok (ps_subs (m_ps s) ! i)" "\<not> sub_once (ps_subs (m_ps s) ! i)"
    using inv i(1,2) nth_mem [OF i(1)] by (auto simp: ps_inv_def list_all_length ps_wf_def sub_open_def)
  show "sub_refines (owed (m_pub (s\<lparr>m_ps := ps', m_pub := Some (e, is, chs)\<rparr>)) j (fst (h ! j)))
      (ps_subs (m_ps (s\<lparr>m_ps := ps', m_pub := Some (e, is, chs)\<rparr>)) ! j) (h ! j)"
    using r sub_refines_deliver [OF _ fifo(1) i(2) fifo(2), of e "replicate (matching (fst (h ! i)) chs) e" "h ! i"] i ps'
    by (cases "j = i") auto
qed

lemma refines_receive:
  assumes "refines s h" and "ps_inv s" and i: "i < length (ps_subs (m_ps s))"
  shows "refines (s\<lparr>m_ps := receive i (m_ps s)\<rparr>) h"
proof (rule refinesI)
  fix j assume j: "j < length h"
  have "fifo_ok (ps_subs (m_ps s) ! i)" using assms(2) i by (simp add: ps_inv_def list_all_length)
  from receive_sub_ok [OF this] refinesD(2) [OF assms(1) j] i
  show "sub_refines (owed (m_pub (s\<lparr>m_ps := receive i (m_ps s)\<rparr>)) j (fst (h ! j)))
      (ps_subs (m_ps (s\<lparr>m_ps := receive i (m_ps s)\<rparr>)) ! j) (h ! j)"
    by (cases "j = i") (simp_all add: receive_alt sub_refines_def)
qed (use refinesD(1) [OF assms(1)] in \<open>simp add: receive_alt\<close>)

lemma refines_step:
  assumes "refines s h" and inv: "ps_inv s" and "ps_step s a t"
  shows "refines t (spec_step a h)"
  using assms(3)
proof cases
  case (step_subscribe chs r ps')
  then show ?thesis using refines_subscribe [OF assms(1), of chs r ps'] by simp
next
  case (step_subscribe_panic chs msg)
  with inv show ?thesis by (auto simp: ps_inv_def Subscribe_def Let_def split: if_splits)
next
  case (step_close i r ps')
  with inv have "ps' = removed i (m_ps s)" by (simp add: ps_inv_def Subscription_Close_removed)
  with step_close refines_close [OF assms(1) inv] show ?thesis by simp
next
  case (step_close_panic i msg)
  with inv show ?thesis by (simp add: ps_inv_def Subscription_Close_removed)
next
  case (step_publish chs e)
  then show ?thesis using refines_publish [OF assms(1), of e chs] by simp
next
  case (step_channel e ch chs "is")
  have "set is = members (ps_subs (m_ps s)) ch"
    using step_channel(5) inv by (auto simp: ps_inv_def ps_wf_def registry_def split: if_splits)
  with step_channel refines_channel [OF assms(1)] show ?thesis by simp
next
  case (step_send e i "is" chs ps')
  with refines_send [OF assms(1) inv] show ?thesis by simp
next
  case (step_send_panic e i "is" chs msg)
  then show ?thesis
    using send_ok [of "m_ps s" e i "is" chs] inv by (auto simp: ps_inv_def)
next
  case (step_done e)
  with assms(1) show ?thesis by (simp add: refines_def matching_def)
next
  case (step_receive i)
  with refines_receive [OF assms(1) inv] show ?thesis by simp
qed

lemma run_refines: "ps_run n ops s \<Longrightarrow> refines s (spec_run ops)"
proof (induction rule: ps_run.induct)
  case (ps_run_init n)
  show ?case by (simp add: refines_def spec_run_def ps_machine_init_def NewPubSub_def)
next
  case (ps_run_step n ops s a t)
  then show ?case using refines_step [OF _ ps_run_inv [OF ps_run_step.hyps(1)]] by (simp add: spec_run_snoc)
qed

section \<open>Properties\<close>

text \<open>
  C14. No subscriber silently misses an event: after any run, with receives between the sends of a publication, the consumers of a
  subscription have received, and its buffer holds, a prefix of the events published on its channels since it subscribed, each as often as
  the publication named channels of it; and while the subscription is open and no publication is in progress, exactly these events.
\<close>

theorem inmem_delivery:
  assumes "ps_run n ops s" and "i < length (ps_subs (m_ps s))"
  shows "i < length (spec_run ops) \<and> sub_channels (ps_subs (m_ps s) ! i) = fst (spec_run ops ! i)
    \<and> prefix (sub_got (ps_subs (m_ps s) ! i) @ chan_buf (sub_c (ps_subs (m_ps s) ! i))) (snd (spec_run ops ! i))
    \<and> (sub_open (ps_subs (m_ps s) ! i) \<and> m_pub s = None \<longrightarrow>
         sub_got (ps_subs (m_ps s) ! i) @ chan_buf (sub_c (ps_subs (m_ps s) ! i)) = snd (spec_run ops ! i))"
proof -
  have len: "i < length (spec_run ops)" using refinesD(1) [OF run_refines [OF assms(1)]] assms(2) by simp
  from refinesD(2) [OF run_refines [OF assms(1)] len] show ?thesis
    using len by (auto simp: sub_refines_def stream_def)
qed

text \<open>A run in which an event is published on two channels, of which the subscription has one.\<close>

theorem inmem_delivery_witness:
  "\<exists>s. ps_run 1 [OpSubscribe [''a''], OpPublish (7 :: nat) [''b'', ''a''], OpChannel [], OpChannel [0], OpSend, OpDone] s
     \<and> spec_run [OpSubscribe [''a''], OpPublish (7 :: nat) [''b'', ''a''], OpChannel [], OpChannel [0], OpSend, OpDone] = [([''a''], [7])]
     \<and> sub_got (ps_subs (m_ps s) ! 0) @ chan_buf (sub_c (ps_subs (m_ps s) ! 0)) = [7]"
proof -
  define sub where "sub = \<lparr>sub_channels = [''a''], sub_once = False, sub_c = make_chan 1, sub_waiting = 0, sub_got = [] :: nat list\<rparr>"
  define ps where "ps = \<lparr>channelsSubs = [''a'' \<mapsto> {0}], eventBufferSize = 1, ps_subs = [sub]\<rparr>"
  define ps' where "ps' = ps\<lparr>ps_subs := [sub\<lparr>sub_c := (make_chan 1)\<lparr>chan_buf := [7]\<rparr>\<rparr>]\<rparr>"
  define st where "st = (\<lambda>(ps :: nat PubSub) pub. \<lparr>m_ps = ps, m_pub = pub, m_panic = False\<rparr>)"
  note defs = sub_def ps_def ps'_def st_def
  have r0: "ps_run 1 [] (st (NewPubSub 1) None)"
    using ps_run_init [of 1, where 'e = nat] by (simp add: ps_machine_init_def st_def)
  have r1: "ps_step (st (NewPubSub 1) None) (OpSubscribe [''a'']) (st ps None)"
    using step_subscribe [of "st (NewPubSub 1) None" "[''a'']" "Inr 0" ps]
    by (simp add: defs Subscribe_def NewPubSub_def add_to_channel_def fun_eq_iff)
  have r2: "ps_step (st ps None) (OpPublish 7 [''b'', ''a'']) (st ps (Some (7, [], [''b'', ''a''])))"
    using step_publish [of "st ps None" "[''b'', ''a'']" 7] by (simp add: st_def)
  have r3: "ps_step (st ps (Some (7, [], [''b'', ''a'']))) (OpChannel []) (st ps (Some (7, [], [''a''])))"
    using step_channel [of "st ps (Some (7, [], [''b'', ''a'']))" 7 "''b''" "[''a'']" "[]"] by (simp add: defs)
  have r4: "ps_step (st ps (Some (7, [], [''a'']))) (OpChannel [0]) (st ps (Some (7, [0], [])))"
    using step_channel [of "st ps (Some (7, [], [''a'']))" 7 "''a''" "[]" "[0]"] by (simp add: defs)
  have r5: "ps_step (st ps (Some (7, [0], []))) OpSend (st ps' (Some (7, [], [])))"
    using step_send [of "st ps (Some (7, [0], []))" 7 0 "[]" "[]" ps']
    by (simp add: defs publish_sub_def sub_send_def try_send_def make_chan_def)
  have r6: "ps_step (st ps' (Some (7, [], []))) OpDone (st ps' None)"
    using step_done [of "st ps' (Some (7, [], []))" 7] by (simp add: st_def)
  have run: "ps_run 1 [OpSubscribe [''a''], OpPublish 7 [''b'', ''a''], OpChannel [], OpChannel [0], OpSend, OpDone] (st ps' None)"
    using ps_run_step [OF ps_run_step [OF ps_run_step [OF ps_run_step [OF ps_run_step [OF ps_run_step [OF r0 r1] r2] r3] r4] r5] r6] by simp
  moreover have "spec_run [OpSubscribe [''a''], OpPublish (7 :: nat) [''b'', ''a''], OpChannel [], OpChannel [0], OpSend, OpDone] = [([''a''], [7])]"
    by (simp add: spec_run_def matching_def)
  ultimately show ?thesis
    using inmem_delivery [OF run, of 0] by (auto simp: defs sub_open_def make_chan_def)
qed

end
