(* ===== verification/Kafka_Config.thy ===== *)
theory Kafka_Config
  imports Go_Errors
begin

text \<open>
  The client configurations built by \<^verbatim>\<open>src/pubsub/kafkasarama/kafka_sasl.go\<close>,
  \<^verbatim>\<open>kafkasarama_tls.go\<close> and \<^verbatim>\<open>src/pubsub/kafka/kafka_sasl.go\<close>. The record holds the fields of
  \<open>sarama.Config\<close> that the sources assign; the defaults made by sarama and watermill are
  parameters, and so are the certificate loader and the file system.
\<close>

datatype sasl_mechanism = SASLTypePlaintext | SASLTypeSCRAMSHA512 | OtherMechanism string
datatype tls_version = VersionTLS12 | OtherTLSVersion nat

record 'cert tls_Config =
  tls_InsecureSkipVerify :: bool
  tls_MinVersion :: tls_version
  tls_Certificates :: "'cert list"
  tls_RootCAs :: "string list option"

record 'cert sarama_Config =
  cfg_Version :: string
  cfg_Consumer_Return_Errors :: bool
  cfg_Producer_Retry_Max :: int
  cfg_Producer_Return_Successes :: bool
  cfg_Metadata_Retry_Backoff :: int
  cfg_TLS_Enable :: bool
  cfg_TLS_Config :: "'cert tls_Config option"
  cfg_SASL_Enable :: bool
  cfg_SASL_Handshake :: bool
  cfg_SASL_Mechanism :: sasl_mechanism
  cfg_SASL_User :: string
  cfg_SASL_Version :: int
  cfg_SASL_Password :: string
  cfg_SASL_SCRAM :: "string option"

abbreviation V3_6_0_0 :: string where "V3_6_0_0 \<equiv> ''3.6.0.0''"
abbreviation SASLHandshakeV1 :: int where "SASLHandshakeV1 \<equiv> 1"

section \<open>Package kafkasarama\<close>

definition saslPlainConfig :: "'c sarama_Config \<Rightarrow> string \<Rightarrow> string \<Rightarrow> 'c sarama_Config" where
  "saslPlainConfig cfg username password =
     cfg\<lparr>cfg_Version := V3_6_0_0, cfg_SASL_Enable := True, cfg_SASL_Handshake := True,
         cfg_SASL_Mechanism := SASLTypePlaintext, cfg_SASL_User := username,
         cfg_SASL_Version := SASLHandshakeV1, cfg_SASL_Password := password\<rparr>"

definition saslConfig :: "'c sarama_Config \<Rightarrow> string \<Rightarrow> string \<Rightarrow> 'c sarama_Config" where
  "saslConfig cfg username password =
     cfg\<lparr>cfg_TLS_Enable := True,
         cfg_TLS_Config := Some \<lparr>tls_InsecureSkipVerify = False, tls_MinVersion = VersionTLS12,
                                 tls_Certificates = [], tls_RootCAs = None\<rparr>,
         cfg_SASL_Enable := True, cfg_SASL_Handshake := True,
         cfg_SASL_Mechanism := SASLTypeSCRAMSHA512, cfg_SASL_User := username,
         cfg_SASL_Version := SASLHandshakeV1, cfg_SASL_Password := password,
         cfg_SASL_SCRAM := Some ''SHA-512''\<rparr>"

definition NewSASLPlainSubscriberConfig where
  "NewSASLPlainSubscriberConfig (defaultSub :: 'c sarama_Config) u p = saslPlainConfig defaultSub u p"

definition NewSASLPlainPublisherConfig where
  "NewSASLPlainPublisherConfig (defaultPub :: 'c sarama_Config) u p = saslPlainConfig defaultPub u p"

definition NewSASLSubscriberConfig where
  "NewSASLSubscriberConfig (defaultSub :: 'c sarama_Config) u p = saslConfig defaultSub u p"

definition NewSASLPublisherConfig where
  "NewSASLPublisherConfig (defaultPub :: 'c sarama_Config) u p = saslConfig defaultPub u p"

text \<open>
  The SCRAM client: the conversation is nil until \<open>Begin\<close>; the methods it promotes are called on
  it, so a step before \<open>Begin\<close> dereferences nil. The library's client and conversation are
  parameters.
\<close>

record 'conv xdgScramClient =
  ClientConversation :: "'conv option"
  HashGeneratorFcn :: string

definition scram_Begin ::
  "(string \<Rightarrow> string \<Rightarrow> string \<Rightarrow> string \<Rightarrow> 'conv result) \<Rightarrow> 'conv xdgScramClient
   \<Rightarrow> string \<Rightarrow> string \<Rightarrow> string \<Rightarrow> go_error option \<times> 'conv xdgScramClient" where
  "scram_Begin newConversation c user password authzID =
     (case newConversation (HashGeneratorFcn c) user password authzID of
        Inl err \<Rightarrow> (Some (wrap_with ''new client'' err), c)
      | Inr conv \<Rightarrow> (None, c\<lparr>ClientConversation := Some conv\<rparr>))"

definition scram_Step ::
  "('conv \<Rightarrow> string \<Rightarrow> (string result \<times> 'conv)) \<Rightarrow> 'conv xdgScramClient \<Rightarrow> string
   \<Rightarrow> (string result \<times> 'conv xdgScramClient) go" where
  "scram_Step convStep c challenge =
     (case ClientConversation c of
        None \<Rightarrow> Panic ''invalid memory address or nil pointer dereference''
      | Some conv \<Rightarrow> let (r, conv') = convStep conv challenge
                    in Ret (r, c\<lparr>ClientConversation := Some conv'\<rparr>))"

definition scram_Done :: "('conv \<Rightarrow> bool) \<Rightarrow> 'conv xdgScramClient \<Rightarrow> bool go" where
  "scram_Done convDone c =
     (case ClientConversation c of
        None \<Rightarrow> Panic ''invalid memory address or nil pointer dereference''
      | Some conv \<Rightarrow> Ret (convDone conv))"

text \<open>
  TLS: the key pair and the CA file are read; certificates the PEM parser rejects are silently
  not added to the pool (\<open>AppendCertsFromPEM\<close> reports it in a result the code drops).
\<close>

definition loadTLSConfig ::
  "(string \<Rightarrow> string \<Rightarrow> 'c result) \<Rightarrow> (string \<Rightarrow> string result) \<Rightarrow> (string \<Rightarrow> string list)
   \<Rightarrow> 'c sarama_Config \<Rightarrow> string \<Rightarrow> string \<Rightarrow> string \<Rightarrow> 'c sarama_Config result" where
  "loadTLSConfig loadKeyPair readFile pemCerts cfg certFile keyFile caFile =
     (case loadKeyPair certFile keyFile of
        Inl err \<Rightarrow> Inl (wrap_with ''failed to load client cert'' err)
      | Inr cert \<Rightarrow>
          (case readFile caFile of
             Inl err \<Rightarrow> Inl (wrap_with ''failed to load CA cert'' err)
           | Inr caCert \<Rightarrow>
               Inr (cfg\<lparr>cfg_TLS_Enable := True,
                        cfg_TLS_Config := Some \<lparr>tls_InsecureSkipVerify = False, tls_MinVersion = VersionTLS12,
                          tls_Certificates = [cert], tls_RootCAs = Some (pemCerts caCert)\<rparr>\<rparr>)))"

definition NewTLSSubscriberConfig where
  "NewTLSSubscriberConfig newConfig loadKeyPair readFile pemCerts certFile keyFile caFile =
     loadTLSConfig loadKeyPair readFile pemCerts
       ((newConfig :: 'c sarama_Config)\<lparr>cfg_Consumer_Return_Errors := True\<rparr>) certFile keyFile caFile"

definition NewTLSPublisherConfig where
  "NewTLSPublisherConfig newConfig loadKeyPair readFile pemCerts certFile keyFile caFile =
     loadTLSConfig loadKeyPair readFile pemCerts
       ((newConfig :: 'c sarama_Config)\<lparr>cfg_Producer_Retry_Max := 10, cfg_Producer_Return_Successes := True,
          cfg_Metadata_Retry_Backoff := 2000000000\<rparr>) certFile keyFile caFile"

section \<open>Package kafka\<close>

text \<open>The two assignments to the mechanism are kept in their order.\<close>

definition wm_saslPlainConfig :: "'c sarama_Config \<Rightarrow> string \<Rightarrow> string \<Rightarrow> 'c sarama_Config" where
  "wm_saslPlainConfig cfg username password =
     cfg\<lparr>cfg_Version := V3_6_0_0, cfg_SASL_Enable := True, cfg_SASL_Handshake := True,
         cfg_SASL_Mechanism := SASLTypePlaintext, cfg_SASL_User := username,
         cfg_SASL_Version := SASLHandshakeV1, cfg_SASL_Password := password\<rparr>"

definition wm_saslConfig :: "'c sarama_Config \<Rightarrow> string \<Rightarrow> string \<Rightarrow> 'c sarama_Config" where
  "wm_saslConfig cfg username password =
     (let cfg = cfg\<lparr>cfg_TLS_Enable := True,
                    cfg_TLS_Config := Some \<lparr>tls_InsecureSkipVerify = False, tls_MinVersion = VersionTLS12,
                                            tls_Certificates = [], tls_RootCAs = None\<rparr>,
                    cfg_Version := V3_6_0_0, cfg_SASL_Enable := True, cfg_SASL_Handshake := True\<rparr>;
          cfg = cfg\<lparr>cfg_SASL_Mechanism := SASLTypeSCRAMSHA512\<rparr>;
          cfg = cfg\<lparr>cfg_SASL_Mechanism := SASLTypePlaintext\<rparr>
      in cfg\<lparr>cfg_SASL_User := username, cfg_SASL_Version := SASLHandshakeV1,
             cfg_SASL_Password := password, cfg_SASL_SCRAM := Some ''SHA-512''\<rparr>)"

definition wm_NewSASLPlainSubscriberConfig where
  "wm_NewSASLPlainSubscriberConfig (defaultSub :: 'c sarama_Config) u p = wm_saslPlainConfig defaultSub u p"

definition wm_NewSASLPlainPublisherConfig where
  "wm_NewSASLPlainPublisherConfig (defaultPub :: 'c sarama_Config) u p = wm_saslPlainConfig defaultPub u p"

definition wm_NewSASLSubscriberConfig where
  "wm_NewSASLSubscriberConfig (defaultSub :: 'c sarama_Config) u p = wm_saslConfig defaultSub u p"

definition wm_NewSASLPublisherConfig where
  "wm_NewSASLPublisherConfig (defaultPub :: 'c sarama_Config) u p = wm_saslConfig defaultPub u p"

text \<open>The package has its own copy of the SCRAM client.\<close>

record 'conv wm_xdgScramClient =
  wm_ClientConversation :: "'conv option"
  wm_HashGeneratorFcn :: string

definition wm_scram_Begin ::
  "(string \<Rightarrow> string \<Rightarrow> string \<Rightarrow> string \<Rightarrow> 'conv result) \<Rightarrow> 'conv wm_xdgScramClient
   \<Rightarrow> string \<Rightarrow> string \<Rightarrow> string \<Rightarrow> go_error option \<times> 'conv wm_xdgScramClient" where
  "wm_scram_Begin newConversation c user password authzID =
     (case newConversation (wm_HashGeneratorFcn c) user password authzID of
        Inl err \<Rightarrow> (Some (wrap_with ''new client'' err), c)
      | Inr conv \<Rightarrow> (None, c\<lparr>wm_ClientConversation := Some conv\<rparr>))"

definition wm_scram_Step ::
  "('conv \<Rightarrow> string \<Rightarrow> (string result \<times> 'conv)) \<Rightarrow> 'conv wm_xdgScramClient \<Rightarrow> string
   \<Rightarrow> (string result \<times> 'conv wm_xdgScramClient) go" where
  "wm_scram_Step convStep c challenge =
     (case wm_ClientConversation c of
        None \<Rightarrow> Panic ''invalid memory address or nil pointer dereference''
      | Some conv \<Rightarrow> let (r, conv') = convStep conv challenge
                    in Ret (r, c\<lparr>wm_ClientConversation := Some conv'\<rparr>))"

definition wm_scram_Done :: "('conv \<Rightarrow> bool) \<Rightarrow> 'conv wm_xdgScramClient \<Rightarrow> bool go" where
  "wm_scram_Done convDone c =
     (case wm_ClientConversation c of
        None \<Rightarrow> Panic ''invalid memory address or nil pointer dereference''
      | Some conv \<Rightarrow> Ret (convDone conv))"

section \<open>The contract of a SCRAM client\<close>

text \<open>
  What sarama relies on: after a \<open>Begin\<close> without error the client is ready, a ready client can be stepped without a panic
  and stays ready, and can be asked whether it is done.
\<close>

locale scram_client =
  fixes begin_call :: "'c \<Rightarrow> string \<Rightarrow> string \<Rightarrow> string \<Rightarrow> go_error option \<times> 'c"
    and step_call :: "'c \<Rightarrow> string \<Rightarrow> (string result \<times> 'c) go"
    and done_call :: "'c \<Rightarrow> bool go"
    and ready :: "'c \<Rightarrow> bool"
  assumes begin_ready: "begin_call c u p z = (None, c') \<Longrightarrow> ready c'"
    and step_ready: "ready c \<Longrightarrow> \<exists>r c'. step_call c challenge = Ret (r, c') \<and> ready c'"
    and done_ready: "ready c \<Longrightarrow> is_ret (done_call c)"
begin

text \<open>The exchange of a conversation: the challenges of the broker are answered until an answer is an error.\<close>

primrec exchange :: "'c \<Rightarrow> string list \<Rightarrow> (string result list \<times> 'c) go" where
  "exchange c [] = Ret ([], c)"
| "exchange c (ch # chs) =
     go_bind (step_call c ch) (\<lambda>(r, c'). case r of
        Inl e \<Rightarrow> Ret ([Inl e], c')
      | Inr t \<Rightarrow> go_bind (exchange c' chs) (\<lambda>(rs, c''). Ret (Inr t # rs, c'')))"

lemma exchange_ready: "ready c \<Longrightarrow> \<exists>rs c'. exchange c chs = Ret (rs, c') \<and> ready c'"
proof (induction chs arbitrary: c)
  case (Cons ch chs)
  from step_ready [OF Cons.prems] obtain r c' where step: "step_call c ch = Ret (r, c')" "ready c'" by blast
  from Cons.IH [OF step(2)] obtain rs c'' where "exchange c' chs = Ret (rs, c'')" "ready c''" by blast
  with step show ?case by (cases r) simp_all
qed simp

lemma conversation_returns:
  assumes "begin_call c u p z = (None, c')"
  shows "\<exists>rs c''. exchange c' chs = Ret (rs, c'') \<and> is_ret (done_call c'')"
  using exchange_ready [OF begin_ready [OF assms]] done_ready by blast

end

interpretation sarama_scram: scram_client "scram_Begin nc" "scram_Step cs" "scram_Done cd" "\<lambda>c. ClientConversation c \<noteq> None"
  for nc cs cd
  by unfold_locales (auto simp: scram_Begin_def scram_Step_def scram_Done_def split: sum.splits prod.split)

interpretation wm_scram: scram_client "wm_scram_Begin nc" "wm_scram_Step cs" "wm_scram_Done cd" "\<lambda>c. wm_ClientConversation c \<noteq> None"
  for nc cs cd
  by unfold_locales (auto simp: wm_scram_Begin_def wm_scram_Step_def wm_scram_Done_def split: sum.splits prod.split)

text \<open>In both packages: a step before \<open>Begin\<close> panics, and after it every exchange and the question for the end return.\<close>

theorem scram_clients:
  "scram_Step cs \<lparr>ClientConversation = None, HashGeneratorFcn = hash\<rparr> ch = Panic ''invalid memory address or nil pointer dereference''
   \<and> (scram_Begin nc c u p z = (None, c') \<longrightarrow> (\<exists>rs c''. sarama_scram.exchange cs c' chs = Ret (rs, c'') \<and> is_ret (scram_Done cd c'')))
   \<and> (wm_scram_Begin nc w u p z = (None, w') \<longrightarrow> (\<exists>rs w''. wm_scram.exchange cs w' chs = Ret (rs, w'') \<and> is_ret (wm_scram_Done cd w'')))"
  using sarama_scram.conversation_returns [of nc c u p z c' cs chs cd] wm_scram.conversation_returns [of nc w u p z w' cs chs cd]
  by (simp add: scram_Step_def)

section \<open>Properties\<close>

text \<open>
  Every configuration with SASL credentials or client certificates over TLS verifies the
  broker's certificate and requires TLS 1.2; the SASL configurations carry the given credentials.
  The configuration of package kafkasarama authenticates with SCRAM-SHA-512; that of package
  kafka ends up with the plain mechanism, although it sets SCRAM first and installs a SCRAM
  client.
\<close>

theorem kafka_sasl_tls_config:
  "(let c = saslConfig cfg u p in
      cfg_TLS_Enable c \<and> cfg_SASL_Enable c \<and> cfg_SASL_Mechanism c = SASLTypeSCRAMSHA512
      \<and> cfg_SASL_User c = u \<and> cfg_SASL_Password c = p
      \<and> (\<exists>t. cfg_TLS_Config c = Some t \<and> \<not> tls_InsecureSkipVerify t \<and> tls_MinVersion t = VersionTLS12))
   \<and> (let c = wm_saslConfig cfg u p in
      cfg_TLS_Enable c \<and> cfg_SASL_Mechanism c = SASLTypePlaintext \<and> cfg_SASL_SCRAM c \<noteq> None
      \<and> (\<exists>t. cfg_TLS_Config c = Some t \<and> \<not> tls_InsecureSkipVerify t \<and> tls_MinVersion t = VersionTLS12))
   \<and> (loadTLSConfig loadKeyPair readFile pemCerts cfg certFile keyFile caFile = Inr c \<longrightarrow>
      cfg_TLS_Enable c \<and> (\<exists>t cert ca. cfg_TLS_Config c = Some t \<and> \<not> tls_InsecureSkipVerify t
        \<and> tls_MinVersion t = VersionTLS12 \<and> loadKeyPair certFile keyFile = Inr cert \<and> readFile caFile = Inr ca
        \<and> tls_Certificates t = [cert] \<and> tls_RootCAs t = Some (pemCerts ca)))"
  by (auto simp: saslConfig_def wm_saslConfig_def loadTLSConfig_def Let_def split: sum.splits)

definition example_config :: "string sarama_Config" where
  "example_config = \<lparr>cfg_Version = [], cfg_Consumer_Return_Errors = False, cfg_Producer_Retry_Max = 3,
     cfg_Producer_Return_Successes = False, cfg_Metadata_Retry_Backoff = 0, cfg_TLS_Enable = False,
     cfg_TLS_Config = None, cfg_SASL_Enable = False, cfg_SASL_Handshake = False,
     cfg_SASL_Mechanism = OtherMechanism [], cfg_SASL_User = [], cfg_SASL_Version = 0,
     cfg_SASL_Password = [], cfg_SASL_SCRAM = None\<rparr>"

theorem kafka_sasl_tls_config_witness:
  "\<exists>c. loadTLSConfig (\<lambda>c k. Inr (c @ k)) (\<lambda>f. Inr f) (\<lambda>ca. [ca]) example_config ''c'' ''k'' ''ca'' = Inr c
     \<and> cfg_TLS_Enable c"
proof -
  obtain c where c: "loadTLSConfig (\<lambda>c k. Inr (c @ k)) (\<lambda>f. Inr f) (\<lambda>ca. [ca]) example_config ''c'' ''k'' ''ca'' = Inr c"
    by (simp add: loadTLSConfig_def)
  with kafka_sasl_tls_config [of example_config "[]" "[]" "\<lambda>c k. Inr (c @ k)" "\<lambda>f. Inr f" "\<lambda>ca. [ca]" "''c''" "''k''" "''ca''" c]
  show ?thesis by auto
qed

end
