(* ===== verification/Kafka_Sarama.thy ===== *)
theory Kafka_Sarama
  imports Pubsub Kafka_Config
begin

text \<open>
  The Kafka backend of \<^verbatim>\<open>src/pubsub/kafkasarama\<close>: publisher, the subscription over partition
  consumers and the subscription over a consumer group with per-message acknowledgement. The Kafka
  client library is a parameter: the functions of it that are called are arguments. The goroutines
  are step relations: one for the loop of a claim (\<open>ConsumeClaim\<close>), one for the partition
  goroutines of a subscription together with its \<open>Close\<close>.
\<close>

section \<open>Messages\<close>

record producer_message =
  pm_Topic :: string
  pm_Headers :: "(string \<times> string) list"
  pm_Value :: string

record consumer_message =
  cm_Topic :: string
  cm_Partition :: int
  cm_Offset :: int
  cm_Headers :: "(string \<times> string) list"
  cm_Value :: string

type_synonym kafka_event = "(string, string, nat) Event"

text \<open>\<open>buildEvent\<close>: the first header named type gives the event's type, else the topic does.\<close>

fun type_header :: "(string \<times> string) list \<Rightarrow> string" where
  "type_header [] = []"
| "type_header ((k, v) # hs) = (if k = ''type'' then v else type_header hs)"

definition buildEvent :: "consumer_message \<Rightarrow> kafka_event" where
  "buildEvent m =
     (let typ = type_header (cm_Headers m);
          typ = (if typ = [] then cm_Topic m else typ)
      in \<lparr>ev_Type = typ, ev_Payload = cm_Value m, ev_Error = None, ev_Acker = None\<rparr>)"

section \<open>Publisher\<close>

record 'prod Publisher =
  syncProducer :: 'prod

definition NewPublisher ::
  "(string list \<Rightarrow> 'c sarama_Config \<Rightarrow> 'prod result) \<Rightarrow> ('c sarama_Config \<Rightarrow> 'prod \<Rightarrow> 'prod)
   \<Rightarrow> 'c sarama_Config \<Rightarrow> 'c sarama_Config option \<Rightarrow> string list \<Rightarrow> 'prod Publisher result" where
  "NewPublisher newSyncProducer wrapProducer newConfig saramaConfig brokers =
     (let cfg = (case saramaConfig of
                   Some cfg \<Rightarrow> cfg
                 | None \<Rightarrow> newConfig\<lparr>cfg_Producer_Retry_Max := 10, cfg_Producer_Return_Successes := True,
                                     cfg_Metadata_Retry_Backoff := 2000000000\<rparr>)
      in case newSyncProducer brokers cfg of
           Inl err \<Rightarrow> Inl (wrap_with ''new kafka publisher'' err)
         | Inr p \<Rightarrow> Inr \<lparr>syncProducer = wrapProducer cfg p\<rparr>)"

text \<open>The message a publication sends, and the publication with the producer's answer to it.\<close>

definition publish_message :: "kafka_event \<Rightarrow> string \<Rightarrow> producer_message" where
  "publish_message event topic =
     \<lparr>pm_Topic = topic, pm_Headers = [(''type'', ev_Type event)], pm_Value = ev_Payload event\<rparr>"

definition Publisher_Publish ::
  "('prod \<Rightarrow> producer_message \<Rightarrow> go_error option) \<Rightarrow> 'prod Publisher \<Rightarrow> kafka_event \<Rightarrow> string list
   \<Rightarrow> go_error option" where
  "Publisher_Publish sendMessage p event channels =
     (case channels of
        [topic] \<Rightarrow> map_option (wrap_with ''publish'') (sendMessage (syncProducer p) (publish_message event topic))
      | _ \<Rightarrow> Some ErrExactlyOneChannelAllowed)"

section \<open>Subscriber\<close>

record 'c Subscriber =
  sb_cfg :: "'c sarama_Config"
  sb_brokers :: "string list"
  sb_consumerGroup :: string

definition NewSubscriber ::
  "'c sarama_Config \<Rightarrow> 'c sarama_Config option \<Rightarrow> string list \<Rightarrow> string \<Rightarrow> 'c Subscriber result" where
  "NewSubscriber newConfig saramaConfig brokers consumerGroup =
     (let cfg = (case saramaConfig of Some cfg \<Rightarrow> cfg | None \<Rightarrow> newConfig\<lparr>cfg_Consumer_Return_Errors := True\<rparr>)
      in Inr \<lparr>sb_cfg = cfg, sb_brokers = brokers, sb_consumerGroup = consumerGroup\<rparr>)"

text \<open>
  What a subscription starts: one goroutine per partition consumer, or one goroutine that runs the
  consumer group. A failure on some partition cancels the ones already started.
\<close>

datatype ('consumer, 'group, 'pc) started =
  ConsumerSubscription 'consumer "'pc list"
| GroupSubscription 'group "string list"

fun consume_partitions ::
  "(string \<Rightarrow> int \<Rightarrow> 'pc result) \<Rightarrow> string \<Rightarrow> int list \<Rightarrow> go_error + 'pc list" where
  "consume_partitions consumePartition topic [] = Inr []"
| "consume_partitions consumePartition topic (p # ps) =
     (case consumePartition topic p of
        Inl err \<Rightarrow> Inl (wrap_with (''consume partition '' @ dec_int p @ '' for topic \"'' @ topic @ ''\"'') err)
      | Inr pc \<Rightarrow> (case consume_partitions consumePartition topic ps of
                     Inl err \<Rightarrow> Inl err
                   | Inr pcs \<Rightarrow> Inr (pc # pcs)))"

definition newConsumerSubscription ::
  "('consumer \<Rightarrow> string \<Rightarrow> int list result) \<Rightarrow> ('consumer \<Rightarrow> string \<Rightarrow> int \<Rightarrow> 'pc result) \<Rightarrow> 'consumer
   \<Rightarrow> string \<Rightarrow> ('consumer, 'group, 'pc) started result" where
  "newConsumerSubscription partitions consumePartition consumer topic =
     (case partitions consumer topic of
        Inl err \<Rightarrow> Inl (wrap_with (''get topic \"'' @ topic @ ''\" partitions'') err)
      | Inr ps \<Rightarrow> (case consume_partitions (consumePartition consumer) topic ps of
                     Inl err \<Rightarrow> Inl err
                   | Inr pcs \<Rightarrow> Inr (ConsumerSubscription consumer pcs)))"

text \<open>
  The loop around \<open>Consume\<close>: each iteration is one call, described by whether it called the
  handler's \<open>Setup\<close>, the error it returned and whether the context is done afterwards. \<open>None\<close> is a
  loop still running after the given calls; the result is the number of calls made.
\<close>

type_synonym consume_call = "bool \<times> go_error option \<times> bool"

abbreviation ErrClosedConsumerGroup :: go_error where
  "ErrClosedConsumerGroup \<equiv> ErrNew ''kafka: tried to use a consumer group that was closed''"

fun consume_loop :: "consume_call list \<Rightarrow> nat option" where
  "consume_loop [] = None"
| "consume_loop ((setup, err, ctx_done) # calls) =
     (if (case err of Some e \<Rightarrow> errors_Is e ErrClosedConsumerGroup | None \<Rightarrow> False) then Some 1
      else if ctx_done then Some 1
      else map_option Suc (consume_loop calls))"

text \<open>
  \<open>Setup\<close> closes the ready channel; after each call the loop replaces it by a fresh one. The
  constructor waits on the channel it read, that of call number \<open>gen\<close> (the first, unless the
  goroutine overtook it): it returns when that call is made and sets up a session, and \<open>None\<close>
  means that it waits for ever.
\<close>

definition newConsumerGroupSubscription ::
  "nat \<Rightarrow> consume_call list \<Rightarrow> 'group \<Rightarrow> string list \<Rightarrow> ('consumer, 'group, 'pc) started result option" where
  "newConsumerGroupSubscription gen calls g topics =
     (if gen < length calls \<and> consume_loop (take gen calls) = None \<and> fst (calls ! gen)
      then Some (Inr (GroupSubscription g topics)) else None)"

definition Subscriber_Subscribe ::
  "(string list \<Rightarrow> 'c sarama_Config \<Rightarrow> 'consumer result)
   \<Rightarrow> (string list \<Rightarrow> string \<Rightarrow> 'c sarama_Config \<Rightarrow> 'group result)
   \<Rightarrow> ('consumer \<Rightarrow> string \<Rightarrow> int list result) \<Rightarrow> ('consumer \<Rightarrow> string \<Rightarrow> int \<Rightarrow> 'pc result)
   \<Rightarrow> nat \<Rightarrow> consume_call list
   \<Rightarrow> 'c Subscriber \<Rightarrow> string list \<Rightarrow> ('consumer, 'group, 'pc) started result option" where
  "Subscriber_Subscribe newConsumer newConsumerGroup partitions consumePartition gen calls s topics =
     (if sb_consumerGroup s = [] then
        (case topics of
           [topic] \<Rightarrow>
             (case newConsumer (sb_brokers s) (sb_cfg s) of
                Inl err \<Rightarrow> Some (Inl (wrap_with ''new sarama consumer'' err))
              | Inr consumer \<Rightarrow> Some (newConsumerSubscription partitions consumePartition consumer topic))
         | _ \<Rightarrow> Some (Inl ErrExactlyOneChannelAllowed))
      else (case newConsumerGroup (sb_brokers s) (sb_consumerGroup s) (sb_cfg s) of
              Inl err \<Rightarrow> Some (Inl (wrap_with ''new sarama consumer group'' err))
            | Inr g \<Rightarrow> newConsumerGroupSubscription gen calls g topics))"

section \<open>Acknowledging a message\<close>

text \<open>A send that would block leaves the call pending, with no effect.\<close>

record messageAcker =
  ma_once :: bool
  ma_done :: "bool chan"

definition newMessageAcker :: messageAcker where
  "newMessageAcker = \<lparr>ma_once = False, ma_done = make_chan 1\<rparr>"

definition once_send :: "bool \<Rightarrow> messageAcker \<Rightarrow> messageAcker" where
  "once_send b m =
     (if ma_once m then m
      else case try_send b (ma_done m) of
             Sent c \<Rightarrow> \<lparr>ma_once = True, ma_done = c\<rparr>
           | _ \<Rightarrow> m)"

definition Ack :: "messageAcker \<Rightarrow> messageAcker" where
  "Ack m = once_send True m"

definition Nack :: "messageAcker \<Rightarrow> messageAcker" where
  "Nack m = once_send False m"

lemma once_send_twice [simp]: "once_send b (once_send c m) = once_send c m"
proof (cases "ma_once m")
  case False
  then show ?thesis
    by (cases "try_send c (ma_done m)"; cases "try_send b (ma_done m)")
      (auto simp: once_send_def try_send_def split: if_splits)
qed (simp add: once_send_def)

interpretation message_acker: acker Ack Nack
  by unfold_locales (simp_all add: Ack_def Nack_def)

section \<open>The loop of a claim\<close>

text \<open>
  Where the loop of \<open>ConsumeClaim\<close> stands: at its \<open>select\<close>, sending an event, waiting for its
  acknowledgement, or returned. Ackers live in a store; \<open>cl_calls\<close> is the history of the consumer's
  calls of \<open>Ack\<close> (\<open>True\<close>) and \<open>Nack\<close>, \<open>cl_settled\<close> counts the messages whose answer was read,
  \<open>cl_marked\<close> the messages given to \<open>session.MarkMessage\<close>.
\<close>

datatype claim_pc = CLoop | CSend consumer_message nat | CWait consumer_message nat | CReturned

record claim =
  cl_msgs :: "consumer_message list"
  cl_closed :: bool
  cl_ctx_done :: bool
  cl_pc :: claim_pc
  cl_ackers :: "messageAcker list"
  cl_events :: "kafka_event list"
  cl_marked :: "consumer_message list"
  cl_calls :: "(nat \<times> bool) list"
  cl_settled :: nat

definition claim_init :: "consumer_message list \<Rightarrow> claim" where
  "claim_init ms = \<lparr>cl_msgs = ms, cl_closed = False, cl_ctx_done = False, cl_pc = CLoop, cl_ackers = [],
     cl_events = [], cl_marked = [], cl_calls = [], cl_settled = 0\<rparr>"

datatype claim_op =
  ClRead | ClClosed | ClDeliver | ClSettle | ClDone | ClEnvClose | ClEnvCancel | ClCall nat bool

inductive ConsumeClaim :: "claim \<Rightarrow> claim_op \<Rightarrow> claim \<Rightarrow> bool" where
  cl_read: "cl_pc s = CLoop \<Longrightarrow> cl_msgs s = m # ms \<Longrightarrow>
    ConsumeClaim s ClRead (s\<lparr>cl_msgs := ms, cl_ackers := cl_ackers s @ [newMessageAcker],
                             cl_pc := CSend m (length (cl_ackers s))\<rparr>)"
| cl_closed: "cl_pc s = CLoop \<Longrightarrow> cl_msgs s = [] \<Longrightarrow> cl_closed s \<Longrightarrow>
    ConsumeClaim s ClClosed (s\<lparr>cl_pc := CReturned\<rparr>)"
| cl_deliver: "cl_pc s = CSend m a \<Longrightarrow>
    ConsumeClaim s ClDeliver (s\<lparr>cl_events := cl_events s @ [(buildEvent m)\<lparr>ev_Acker := Some a\<rparr>],
                                cl_pc := CWait m a\<rparr>)"
| cl_settle: "cl_pc s = CWait m a \<Longrightarrow> a < length (cl_ackers s) \<Longrightarrow>
    chan_buf (ma_done (cl_ackers s ! a)) = acked # rest \<Longrightarrow>
    ConsumeClaim s ClSettle (s\<lparr>cl_ackers := (cl_ackers s)[a := (cl_ackers s ! a)
                                 \<lparr>ma_done := (ma_done (cl_ackers s ! a))\<lparr>chan_buf := rest\<rparr>\<rparr>],
                               cl_marked := (if acked then cl_marked s @ [m] else cl_marked s),
                               cl_settled := Suc (cl_settled s), cl_pc := CLoop\<rparr>)"
| cl_done: "cl_ctx_done s \<Longrightarrow> cl_pc s \<noteq> CReturned \<Longrightarrow> ConsumeClaim s ClDone (s\<lparr>cl_pc := CReturned\<rparr>)"
| cl_env_close: "ConsumeClaim s ClEnvClose (s\<lparr>cl_closed := True\<rparr>)"
| cl_env_cancel: "ConsumeClaim s ClEnvCancel (s\<lparr>cl_ctx_done := True\<rparr>)"
| cl_call: "a < length (cl_events s) \<Longrightarrow>
    ConsumeClaim s (ClCall a b) (s\<lparr>cl_ackers := (cl_ackers s)[a := (if b then Ack else Nack) (cl_ackers s ! a)],
                                   cl_calls := cl_calls s @ [(a, b)]\<rparr>)"

text \<open>The answer of event \<open>a\<close>: the first call made for it.\<close>

definition first_call :: "(nat \<times> bool) list \<Rightarrow> nat \<Rightarrow> bool option" where
  "first_call calls a = map_option snd (find (\<lambda>c. fst c = a) calls)"

lemma first_call_append:
  "first_call (calls @ [(a, b)]) k = (if first_call calls k = None \<and> k = a then Some b else first_call calls k)"
  by (induction calls) (auto simp: first_call_def)

text \<open>
  The state of one acker, given its first call and whether the loop has read the answer.
\<close>

definition acker_ok :: "bool option \<Rightarrow> bool \<Rightarrow> messageAcker \<Rightarrow> bool" where
  "acker_ok fc settled m \<longleftrightarrow> ma_once m = (fc \<noteq> None) \<and> chan_cap (ma_done m) = 1 \<and> \<not> chan_closed (ma_done m)
     \<and> chan_buf (ma_done m) = (if settled then [] else case fc of None \<Rightarrow> [] | Some b \<Rightarrow> [b])"

lemma acker_ok_call:
  "acker_ok fc settled m \<Longrightarrow> (settled \<longrightarrow> fc \<noteq> None) \<Longrightarrow>
   acker_ok (case fc of None \<Rightarrow> Some b | Some c \<Rightarrow> Some c) settled ((if b then Ack else Nack) m)"
  by (cases b) (auto simp: acker_ok_def Ack_def Nack_def once_send_def try_send_def split: option.splits)

definition claim_inv :: "consumer_message list \<Rightarrow> claim \<Rightarrow> bool" where
  "claim_inv input s \<longleftrightarrow>
     (let n = length (cl_ackers s); d = length (cl_events s); k = cl_settled s in
        cl_msgs s = drop n input \<and> n \<le> length input
      \<and> cl_events s = map (\<lambda>i. (buildEvent (input ! i))\<lparr>ev_Acker := Some i\<rparr>) [0..<d]
      \<and> k \<le> d \<and> d \<le> n \<and> n \<le> Suc k
      \<and> (case cl_pc s of CLoop \<Rightarrow> n = k \<and> d = k
           | CSend m a \<Rightarrow> n = Suc k \<and> d = k \<and> a = k \<and> m = input ! k
           | CWait m a \<Rightarrow> n = Suc k \<and> d = Suc k \<and> a = k \<and> m = input ! k
           | CReturned \<Rightarrow> True)
      \<and> cl_marked s = map ((!) input) (filter (\<lambda>i. first_call (cl_calls s) i = Some True) [0..<k])
      \<and> (\<forall>i < n. acker_ok (first_call (cl_calls s) i) (i < k) (cl_ackers s ! i))
      \<and> (\<forall>i < k. first_call (cl_calls s) i \<noteq> None)
      \<and> (\<forall>c \<in> set (cl_calls s). fst c < d))"

lemma first_call_fresh: "\<forall>c \<in> set calls. fst c < d \<Longrightarrow> d \<le> a \<Longrightarrow> first_call calls a = None"
  by (auto simp: first_call_def find_None_iff)

lemma claim_inv_init: "claim_inv ms (claim_init ms)"
  by (simp add: claim_inv_def claim_init_def)

lemma drop_ConsD: "drop n xs = y # ys \<Longrightarrow> n < length xs \<and> y = xs ! n \<and> ys = drop (Suc n) xs"
  by (metis Cons_nth_drop_Suc drop_all list.inject list.simps(3) not_le)

text \<open>Preservation, one lemma per step that touches the books.\<close>

lemma claim_inv_read:
  assumes "claim_inv input s" and "cl_pc s = CLoop" and "cl_msgs s = m # ms"
  shows "claim_inv input (s\<lparr>cl_msgs := ms, cl_ackers := cl_ackers s @ [newMessageAcker],
    cl_pc := CSend m (length (cl_ackers s))\<rparr>)"
proof -
  define k where "k = cl_settled s"
  have i: "drop k input = m # ms" "length (cl_ackers s) = k" "length (cl_events s) = k"
    using assms by (auto simp: claim_inv_def Let_def k_def)
  note m = drop_ConsD [OF i(1)]
  have "acker_ok (first_call (cl_calls s) k) False newMessageAcker"
    using first_call_fresh [of "cl_calls s" k k] i(3) assms(1)
    by (simp add: acker_ok_def newMessageAcker_def make_chan_def claim_inv_def Let_def)
  with assms m i show ?thesis
    by (auto simp: claim_inv_def Let_def k_def nth_append less_Suc_eq)
qed

lemma claim_inv_deliver:
  assumes "claim_inv input s" and "cl_pc s = CSend m a"
  shows "claim_inv input (s\<lparr>cl_events := cl_events s @ [(buildEvent m)\<lparr>ev_Acker := Some a\<rparr>], cl_pc := CWait m a\<rparr>)"
  using assms by (auto simp: claim_inv_def Let_def)

lemma claim_inv_settle:
  assumes "claim_inv input s" and "cl_pc s = CWait m a" and "chan_buf (ma_done (cl_ackers s ! a)) = acked # rest"
  shows "claim_inv input (s\<lparr>cl_ackers := (cl_ackers s)[a := (cl_ackers s ! a)
      \<lparr>ma_done := (ma_done (cl_ackers s ! a))\<lparr>chan_buf := rest\<rparr>\<rparr>],
    cl_marked := (if acked then cl_marked s @ [m] else cl_marked s), cl_settled := Suc (cl_settled s), cl_pc := CLoop\<rparr>)"
proof -
  define k where "k = cl_settled s"
  have i: "a = k" "m = input ! k" "length (cl_ackers s) = Suc k" "length (cl_events s) = Suc k"
    "acker_ok (first_call (cl_calls s) k) False (cl_ackers s ! k)"
    using assms(1,2) by (auto simp: claim_inv_def Let_def k_def)
  then have fc: "first_call (cl_calls s) k = Some acked" "rest = []"
    using assms(3) by (auto simp: acker_ok_def split: option.splits)
  show ?thesis
    using assms(1) i fc
    by (auto simp: claim_inv_def Let_def k_def nth_list_update less_Suc_eq acker_ok_def)
qed

lemma claim_inv_call:
  assumes "claim_inv input s" and "a < length (cl_events s)"
  shows "claim_inv input (s\<lparr>cl_ackers := (cl_ackers s)[a := (if b then Ack else Nack) (cl_ackers s ! a)],
    cl_calls := cl_calls s @ [(a, b)]\<rparr>)"
proof -
  define k where "k = cl_settled s"
  have fc: "first_call (cl_calls s @ [(a, b)]) i = first_call (cl_calls s) i" if "i < k \<or> i \<noteq> a" for i
    using assms(1) that by (auto simp: claim_inv_def Let_def first_call_append k_def)
  have "acker_ok (first_call (cl_calls s) a) (a < k) (cl_ackers s ! a)" "a < k \<longrightarrow> first_call (cl_calls s) a \<noteq> None"
    "a < length (cl_ackers s)"
    using assms by (auto simp: claim_inv_def Let_def k_def)
  moreover have "first_call (cl_calls s @ [(a, b)]) a
      = (case first_call (cl_calls s) a of None \<Rightarrow> Some b | Some c \<Rightarrow> Some c)"
    by (simp add: first_call_append split: option.splits)
  ultimately have "acker_ok (first_call (cl_calls s @ [(a, b)]) a) (a < k) ((if b then Ack else Nack) (cl_ackers s ! a))"
    using acker_ok_call by metis
  moreover have "filter (\<lambda>i. first_call (cl_calls s @ [(a, b)]) i = Some True) [0..<k]
      = filter (\<lambda>i. first_call (cl_calls s) i = Some True) [0..<k]"
    by (rule filter_cong) (auto simp: fc)
  ultimately show ?thesis
    using assms fc by (auto simp: claim_inv_def Let_def k_def [symmetric] nth_list_update)
qed

interpretation claim_loop: invariant_machine "claim_init ms" ConsumeClaim "claim_inv ms" for ms
proof unfold_locales
  show "claim_inv ms (claim_init ms)" by (rule claim_inv_init)
  show "claim_inv ms t" if "claim_inv ms s" "ConsumeClaim s a t" for s a t
    using that(2)
  proof (cases rule: ConsumeClaim.cases)
    case cl_read
    with claim_inv_read that(1) show ?thesis by blast
  next
    case cl_deliver
    with claim_inv_deliver that(1) show ?thesis by blast
  next
    case cl_settle
    with claim_inv_settle that(1) show ?thesis by blast
  next
    case cl_call
    with claim_inv_call that(1) show ?thesis by blast
  qed (use that(1) in \<open>auto simp: claim_inv_def Let_def\<close>)
qed

section \<open>Partition goroutines and Close\<close>

text \<open>
  A goroutine of \<open>consumePartition\<close>: at its \<open>select\<close>, offering a message or an error to the event
  channel, returned, or crashed (a closed message channel yields a nil message, which \<open>buildEvent\<close>
  dereferences; a send on the closed event channel panics). The event channel is unbuffered: an
  offer completes when the consumer receives. \<open>Close\<close> cancels the context, waits for every
  goroutine and then closes the event channel.
\<close>

datatype part_pc = PLoop | PSend consumer_message | PSendErr go_error | PReturned | PCrashed

datatype close_pc = NotClosing | WaitingGroup | Closed | CloseCrashed

record part_machine =
  pt_pcs :: "part_pc list"
  pt_cancelled :: bool
  pt_close :: close_pc
  pt_ch_closed :: bool
  pt_received :: "kafka_event list"

definition part_init :: "nat \<Rightarrow> part_machine" where
  "part_init n = \<lparr>pt_pcs = replicate n PLoop, pt_cancelled = False, pt_close = NotClosing,
     pt_ch_closed = False, pt_received = []\<rparr>"

definition error_event :: "go_error \<Rightarrow> kafka_event" where
  "error_event err = \<lparr>ev_Type = EventTypeError, ev_Payload = [], ev_Error = Some err, ev_Acker = None\<rparr>"

datatype part_op =
  PtMessage nat "consumer_message option" | PtError nat go_error | PtReceive nat | PtStop nat
| PtClose | PtCloseEnd

text \<open>What completes an offer: the event and the next state of the goroutine.\<close>

fun offered :: "part_pc \<Rightarrow> kafka_event option" where
  "offered (PSend m) = Some (buildEvent m)"
| "offered (PSendErr err) = Some (error_event err)"
| "offered _ = None"

inductive consumePartition :: "part_machine \<Rightarrow> part_op \<Rightarrow> part_machine \<Rightarrow> bool" where
  pt_message: "i < length (pt_pcs s) \<Longrightarrow> pt_pcs s ! i = PLoop \<Longrightarrow>
    consumePartition s (PtMessage i (Some m)) (s\<lparr>pt_pcs := (pt_pcs s)[i := PSend m]\<rparr>)"
| pt_nil_message: "i < length (pt_pcs s) \<Longrightarrow> pt_pcs s ! i = PLoop \<Longrightarrow>
    consumePartition s (PtMessage i None) (s\<lparr>pt_pcs := (pt_pcs s)[i := PCrashed]\<rparr>)"
| pt_error: "i < length (pt_pcs s) \<Longrightarrow> pt_pcs s ! i = PLoop \<Longrightarrow>
    consumePartition s (PtError i err) (s\<lparr>pt_pcs := (pt_pcs s)[i := PSendErr err]\<rparr>)"
| pt_receive: "i < length (pt_pcs s) \<Longrightarrow> offered (pt_pcs s ! i) = Some e \<Longrightarrow> \<not> pt_ch_closed s \<Longrightarrow>
    consumePartition s (PtReceive i) (s\<lparr>pt_pcs := (pt_pcs s)[i := PLoop], pt_received := pt_received s @ [e]\<rparr>)"
| pt_send_closed: "i < length (pt_pcs s) \<Longrightarrow> offered (pt_pcs s ! i) = Some e \<Longrightarrow> pt_ch_closed s \<Longrightarrow>
    consumePartition s (PtReceive i) (s\<lparr>pt_pcs := (pt_pcs s)[i := PCrashed]\<rparr>)"
| pt_stop: "i < length (pt_pcs s) \<Longrightarrow> pt_pcs s ! i = PLoop \<or> (\<exists>m. pt_pcs s ! i = PSend m) \<Longrightarrow> pt_cancelled s \<Longrightarrow>
    consumePartition s (PtStop i) (s\<lparr>pt_pcs := (pt_pcs s)[i := PReturned]\<rparr>)"
| pt_close: "pt_close s = NotClosing \<Longrightarrow>
    consumePartition s PtClose (s\<lparr>pt_cancelled := True, pt_close := WaitingGroup\<rparr>)"
| pt_close_again: "pt_close s = Closed \<Longrightarrow> consumePartition s PtClose (s\<lparr>pt_close := CloseCrashed\<rparr>)"
| pt_close_end: "pt_close s = WaitingGroup \<Longrightarrow> (\<forall>p \<in> set (pt_pcs s). p = PReturned) \<Longrightarrow>
    consumePartition s PtCloseEnd (s\<lparr>pt_ch_closed := True, pt_close := Closed\<rparr>)"

text \<open>The event channel is closed only when every goroutine has returned.\<close>

definition part_inv :: "part_machine \<Rightarrow> bool" where
  "part_inv s \<longleftrightarrow> (pt_ch_closed s \<longrightarrow> (\<forall>p \<in> set (pt_pcs s). p = PReturned))
     \<and> (pt_close s \<noteq> NotClosing \<longrightarrow> pt_cancelled s)
     \<and> (pt_ch_closed s \<longleftrightarrow> pt_close s \<in> {Closed, CloseCrashed})"

lemma part_inv_step: "part_inv s \<Longrightarrow> consumePartition s a t \<Longrightarrow> part_inv t"
proof -
  have busy: "\<not> pt_ch_closed s" if "part_inv s" "i < length (pt_pcs s)" "pt_pcs s ! i \<noteq> PReturned" for i
    using that nth_mem by (auto simp: part_inv_def)
  assume inv: "part_inv s" and step: "consumePartition s a t"
  from step show ?thesis
  proof (cases rule: consumePartition.cases)
    case (pt_send_closed i e)
    then have "pt_pcs s ! i \<noteq> PReturned" by auto
    with busy [OF inv pt_send_closed(3)] pt_send_closed show ?thesis by simp
  next
    case (pt_receive i e)
    with inv show ?thesis by (simp add: part_inv_def)
  next
    case (pt_stop i)
    then have "pt_pcs s ! i \<noteq> PReturned" by auto
    with busy [OF inv pt_stop(3)] inv pt_stop(2) show ?thesis by (simp add: part_inv_def)
  next
    case (pt_close_end)
    with inv show ?thesis by (simp add: part_inv_def)
  qed (use inv busy [OF inv] in \<open>simp_all add: part_inv_def\<close>)
qed

interpretation partitions: invariant_machine "part_init n" consumePartition part_inv for n
  by unfold_locales (simp add: part_inv_def part_init_def, rule part_inv_step)

text \<open>Until the consumer receives, a goroutine that offers an error stays where it is.\<close>

lemma stuck_error_step:
  assumes "consumePartition s a t" and "a \<noteq> PtReceive i" and "i < length (pt_pcs s)" and "pt_pcs s ! i = PSendErr err"
    and "pt_close s \<noteq> Closed"
  shows "i < length (pt_pcs t) \<and> pt_pcs t ! i = PSendErr err \<and> pt_close t \<noteq> Closed"
  using assms(1)
proof (cases rule: consumePartition.cases)
  case pt_close_end
  then show ?thesis using assms(3,4) nth_mem by fastforce
next
  case (pt_stop j)
  then show ?thesis using assms(3,4,5) by (cases "i = j") auto
next
  case (pt_receive j e)
  then show ?thesis using assms(2-5) by (cases "i = j") auto
next
  case (pt_send_closed j e)
  then show ?thesis using assms(2-5) by (cases "i = j") auto
next
  case (pt_message j m)
  then show ?thesis using assms(3-5) by (cases "i = j") auto
next
  case (pt_nil_message j)
  then show ?thesis using assms(3-5) by (cases "i = j") auto
next
  case (pt_error j e)
  then show ?thesis using assms(3-5) by (cases "i = j") auto
qed (use assms in auto)

text \<open>Runs of the machine as lists of operations.\<close>

inductive part_run :: "part_machine \<Rightarrow> part_op list \<Rightarrow> part_machine \<Rightarrow> bool" where
  part_run_nil: "part_run s [] s"
| part_run_cons: "consumePartition s a t \<Longrightarrow> part_run t as u \<Longrightarrow> part_run s (a # as) u"

section \<open>Properties\<close>

text \<open>
  C3. Stop and wait: in every run of \<open>ConsumeClaim\<close> on a partition's messages, the events
  delivered are those messages in their order, at most one of them is unanswered, every message
  past it was answered, and the messages marked for commit are exactly the answered ones whose
  first call was \<open>Ack\<close>, in order.
\<close>

theorem claim_stop_and_wait:
  assumes "reachable (claim_init input) ConsumeClaim s"
  shows "cl_settled s \<le> length (cl_events s) \<and> length (cl_events s) \<le> Suc (cl_settled s)
    \<and> cl_events s = map (\<lambda>i. (buildEvent (input ! i))\<lparr>ev_Acker := Some i\<rparr>) [0..<length (cl_events s)]
    \<and> (\<forall>i < cl_settled s. first_call (cl_calls s) i \<noteq> None)
    \<and> cl_marked s = map ((!) input) (filter (\<lambda>i. first_call (cl_calls s) i = Some True) [0..<cl_settled s])"
  using claim_loop.inv_reachable [OF assms] unfolding claim_inv_def Let_def by auto

lemma claim_run_nack_ack:
  "\<exists>s. reachable (claim_init [m, m']) ConsumeClaim s \<and> cl_settled s = 2 \<and> cl_calls s = [(0, False), (1, True)]
     \<and> cl_marked s = [m']"
proof -
  define s0 where "s0 = claim_init [m, m']"
  define s1 where "s1 = s0\<lparr>cl_msgs := [m'], cl_ackers := [newMessageAcker], cl_pc := CSend m 0\<rparr>"
  define s2 where "s2 = s1\<lparr>cl_events := [(buildEvent m)\<lparr>ev_Acker := Some 0\<rparr>], cl_pc := CWait m 0\<rparr>"
  define s3 where "s3 = s2\<lparr>cl_ackers := [Nack newMessageAcker], cl_calls := [(0, False)]\<rparr>"
  define d where "d = (Nack newMessageAcker)\<lparr>ma_done := (ma_done (Nack newMessageAcker))\<lparr>chan_buf := []\<rparr>\<rparr>"
  define s4 where "s4 = s3\<lparr>cl_ackers := [d], cl_settled := 1, cl_pc := CLoop\<rparr>"
  define s5 where "s5 = s4\<lparr>cl_msgs := [], cl_ackers := [d, newMessageAcker], cl_pc := CSend m' 1\<rparr>"
  define s6 where "s6 = s5\<lparr>cl_events := cl_events s5 @ [(buildEvent m')\<lparr>ev_Acker := Some 1\<rparr>], cl_pc := CWait m' 1\<rparr>"
  define s7 where "s7 = s6\<lparr>cl_ackers := [d, Ack newMessageAcker], cl_calls := [(0, False), (1, True)]\<rparr>"
  define s8 where "s8 = s7\<lparr>cl_ackers := [d, (Ack newMessageAcker)\<lparr>ma_done := (ma_done (Ack newMessageAcker))\<lparr>chan_buf := []\<rparr>\<rparr>],
    cl_marked := [m'], cl_settled := 2, cl_pc := CLoop\<rparr>"
  note defs = s0_def claim_init_def s1_def s2_def s3_def s4_def s5_def s6_def s7_def s8_def
    Ack_def Nack_def once_send_def try_send_def newMessageAcker_def make_chan_def numeral_2_eq_2
  have "ConsumeClaim s0 ClRead s1" using cl_read [of s0 m "[m']"] by (simp add: defs)
  moreover have "ConsumeClaim s1 ClDeliver s2" using cl_deliver [of s1 m 0] by (simp add: defs)
  moreover have "ConsumeClaim s2 (ClCall 0 False) s3" using cl_call [of 0 s2 False] by (simp add: defs)
  moreover have "ConsumeClaim s3 ClSettle s4" using cl_settle [of s3 m 0 False "[]"] by (simp add: defs d_def)
  moreover have "ConsumeClaim s4 ClRead s5" using cl_read [of s4 m' "[]"] by (simp add: defs)
  moreover have "ConsumeClaim s5 ClDeliver s6" using cl_deliver [of s5 m' 1] by (simp add: defs)
  moreover have "ConsumeClaim s6 (ClCall 1 True) s7" using cl_call [of 1 s6 True] by (simp add: defs)
  moreover have "ConsumeClaim s7 ClSettle s8" using cl_settle [of s7 m' 1 True "[]"] by (simp add: defs)
  ultimately have "reachable s0 ConsumeClaim s8" by (meson reachable_intros)
  moreover have "cl_settled s8 = 2 \<and> cl_calls s8 = [(0, False), (1, True)] \<and> cl_marked s8 = [m']"
    by (simp add: defs)
  ultimately show ?thesis unfolding s0_def by blast
qed

theorem claim_stop_and_wait_witness:
  "\<exists>s. reachable (claim_init [\<lparr>cm_Topic = ''t'', cm_Partition = 0, cm_Offset = 0, cm_Headers = [], cm_Value = ''a''\<rparr>,
       \<lparr>cm_Topic = ''t'', cm_Partition = 0, cm_Offset = 1, cm_Headers = [], cm_Value = ''b''\<rparr>]) ConsumeClaim s
     \<and> length (cl_events s) \<le> 3 \<and> map cm_Offset (cl_marked s) = [1]"
  using claim_run_nack_ack [of "\<lparr>cm_Topic = ''t'', cm_Partition = 0, cm_Offset = 0, cm_Headers = [], cm_Value = ''a''\<rparr>"
      "\<lparr>cm_Topic = ''t'', cm_Partition = 0, cm_Offset = 1, cm_Headers = [], cm_Value = ''b''\<rparr>"]
    claim_stop_and_wait
  by fastforce

text \<open>
  A negative acknowledgement does not hold the partition back: after it the loop goes on, and
  an \<open>Ack\<close> of the next message marks that one, so the committed offset passes the rejected message.
\<close>

theorem nacked_message_is_passed_over:
  "\<exists>s. reachable (claim_init [m, m']) ConsumeClaim s \<and> cl_calls s = [(0, False), (1, True)] \<and> cl_marked s = [m']"
  using claim_run_nack_ack by blast

text \<open>
  When the first \<open>Consume\<close> fails before a session is set up, for any reason but a closed group,
  a constructor that already waits never returns, however many later calls succeed; when it sets up
  a session, the subscription is returned.
\<close>

theorem group_subscription_ready:
  "newConsumerGroupSubscription 0 ((False, Some err, False) # calls) g topics = None
   \<and> newConsumerGroupSubscription 0 ((True, err', done) # calls) g topics = Some (Inr (GroupSubscription g topics))"
  by (simp add: newConsumerGroupSubscription_def)

text \<open>
  The acknowledgement of a message never blocks its caller, and of any sequence of \<open>Ack\<close> and
  \<open>Nack\<close> calls on a fresh acker only the first has an effect: exactly its answer is in the
  channel.
\<close>

theorem message_acker_first_call:
  "fold (\<lambda>b. if b then Ack else Nack) (b # bs) newMessageAcker = (if b then Ack newMessageAcker else Nack newMessageAcker)
   \<and> chan_buf (ma_done (fold (\<lambda>b. if b then Ack else Nack) (b # bs) newMessageAcker)) = [b]
   \<and> ma_once (fold (\<lambda>b. if b then Ack else Nack) (b # bs) newMessageAcker)"
  unfolding message_acker.first_call_decides
  by (simp add: Ack_def Nack_def once_send_def newMessageAcker_def make_chan_def try_send_def)

text \<open>
  C19. A subscription over partition consumers never sends on its closed event channel: in every
  reachable state the channel is closed only when every goroutine has returned, so no offer is
  pending on it.
\<close>

theorem partitions_closed_after_return:
  assumes "reachable (part_init n) consumePartition s"
  shows "(pt_ch_closed s \<longrightarrow> (\<forall>p \<in> set (pt_pcs s). p = PReturned \<and> offered p = None))
    \<and> (pt_close s = Closed \<longrightarrow> pt_ch_closed s)"
  using partitions.inv_reachable [OF assms] by (auto simp: part_inv_def)

lemma part_closed_run:
  "\<exists>s. reachable (part_init 1) consumePartition s \<and> pt_close s = Closed"
proof -
  define s0 where "s0 = part_init 1"
  define s1 where "s1 = s0\<lparr>pt_cancelled := True, pt_close := WaitingGroup\<rparr>"
  define s2 where "s2 = s1\<lparr>pt_pcs := [PReturned]\<rparr>"
  define s3 where "s3 = s2\<lparr>pt_ch_closed := True, pt_close := Closed\<rparr>"
  note defs = s0_def s1_def s2_def s3_def part_init_def
  have "consumePartition s0 PtClose s1" using pt_close [of s0] by (simp add: defs)
  moreover have "consumePartition s1 (PtStop 0) s2" using pt_stop [of 0 s1] by (simp add: defs)
  moreover have "consumePartition s2 PtCloseEnd s3" using pt_close_end [of s2] by (simp add: defs)
  ultimately have "reachable s0 consumePartition s3" by (meson reachable_intros)
  moreover have "pt_close s3 = Closed" by (simp add: defs)
  ultimately show ?thesis unfolding s0_def by blast
qed

theorem partitions_closed_after_return_witness:
  "\<exists>s. reachable (part_init 1) consumePartition s \<and> pt_close s = Closed \<and> pt_ch_closed s"
  using part_closed_run partitions_closed_after_return by blast

text \<open>
  A goroutine that offers an error does not listen to the cancelled context: from any state
  where it does so, \<open>Close\<close> never completes as long as the consumer does not receive from it.
\<close>

theorem close_blocked_by_error:
  assumes "part_run s as t" and "PtReceive i \<notin> set as" and "i < length (pt_pcs s)"
    and "pt_pcs s ! i = PSendErr err" and "pt_close s \<noteq> Closed"
  shows "pt_close t \<noteq> Closed \<and> pt_pcs t ! i = PSendErr err"
  using assms
proof (induction rule: part_run.induct)
  case (part_run_cons s a t as u)
  then show ?case using stuck_error_step [OF part_run_cons(1), of i err] by auto
qed simp

theorem close_blocked_by_error_witness:
  "\<exists>t. part_run \<lparr>pt_pcs = [PSendErr (ErrNew ''x''), PLoop], pt_cancelled = False, pt_close = NotClosing,
       pt_ch_closed = False, pt_received = []\<rparr> [PtClose, PtStop 1] t \<and> pt_close t \<noteq> Closed"
proof -
  define s where "s = \<lparr>pt_pcs = [PSendErr (ErrNew ''x''), PLoop], pt_cancelled = False, pt_close = NotClosing,
       pt_ch_closed = False, pt_received = []\<rparr>"
  define s1 where "s1 = s\<lparr>pt_cancelled := True, pt_close := WaitingGroup\<rparr>"
  define s2 where "s2 = s1\<lparr>pt_pcs := [PSendErr (ErrNew ''x''), PReturned]\<rparr>"
  have "consumePartition s PtClose s1" using pt_close [of s] by (simp add: s_def s1_def)
  moreover have "consumePartition s1 (PtStop 1) s2" using pt_stop [of 1 s1] by (simp add: s_def s1_def s2_def)
  ultimately have run: "part_run s [PtClose, PtStop 1] s2" by (meson part_run.intros)
  moreover have "pt_close s2 \<noteq> Closed"
    using close_blocked_by_error [OF run, of 0 "ErrNew ''x''"] by (simp add: s_def)
  ultimately show ?thesis unfolding s_def by blast
qed

definition broker_hands_on :: "(producer_message \<Rightarrow> consumer_message) \<Rightarrow> bool" where
  "broker_hands_on broker \<longleftrightarrow> (\<forall>m. cm_Topic (broker m) = pm_Topic m \<and> cm_Value (broker m) = pm_Value m
     \<and> (\<exists>extra. cm_Headers (broker m) = pm_Headers m @ extra))"

text \<open>
  What is published is what is consumed: if the broker hands on topic, value and headers of a
  message, with tracing headers added behind them, the event built from it has the published
  payload and the published type, or the topic for its type when that was empty. Publishing to
  anything but one channel is refused.
\<close>

theorem publish_consume_roundtrip:
  assumes "broker_hands_on broker"
  shows "ev_Payload (buildEvent (broker (publish_message e topic))) = ev_Payload e
    \<and> ev_Type (buildEvent (broker (publish_message e topic))) = (if ev_Type e = [] then topic else ev_Type e)
    \<and> (Publisher_Publish send p e chs \<noteq> Some ErrExactlyOneChannelAllowed \<longrightarrow> length chs = 1)"
proof -
  obtain extra where "cm_Headers (broker (publish_message e topic)) = (''type'', ev_Type e) # extra"
    "cm_Topic (broker (publish_message e topic)) = topic"
    "cm_Value (broker (publish_message e topic)) = ev_Payload e"
    using assms [unfolded broker_hands_on_def, rule_format, of "publish_message e topic"]
    by (auto simp: publish_message_def)
  then show ?thesis
    by (auto simp: buildEvent_def Let_def Publisher_Publish_def split: list.splits)
qed

theorem publish_consume_roundtrip_witness:
  "ev_Payload (buildEvent ((\<lambda>m. \<lparr>cm_Topic = pm_Topic m, cm_Partition = 0, cm_Offset = 0,
       cm_Headers = pm_Headers m @ [(''traceparent'', ''00'')], cm_Value = pm_Value m\<rparr>)
     (publish_message \<lparr>ev_Type = ''created'', ev_Payload = ''x'', ev_Error = None, ev_Acker = None\<rparr> ''t''))) = ''x''"
proof -
  have "broker_hands_on (\<lambda>m. \<lparr>cm_Topic = pm_Topic m, cm_Partition = 0, cm_Offset = 0,
       cm_Headers = pm_Headers m @ [(''traceparent'', ''00'')], cm_Value = pm_Value m\<rparr>)"
    by (simp add: broker_hands_on_def)
  from conjunct1 [OF publish_consume_roundtrip [OF this,
        of "\<lparr>ev_Type = ''created'', ev_Payload = ''x'', ev_Error = None, ev_Acker = None\<rparr>" "''t''"]]
  show ?thesis by simp
qed

end
