(* ===== verification/Kafka_Watermill.thy ===== *)
theory Kafka_Watermill
  imports Pubsub Kafka_Config
begin

text \<open>
  The Kafka backend built on watermill (\<^verbatim>\<open>src/pubsub/kafka\<close>): publisher, subscriber and the
  goroutine of a subscription, which forwards messages to an unbuffered event channel until its
  close channel or its message channel is closed. The watermill publisher and subscriber are
  parameters.
\<close>

section \<open>Publisher and subscriber\<close>

record wm_message =
  wm_UUID :: string
  wm_Metadata :: "(string \<times> string) list"
  wm_Payload :: string

type_synonym wm_event = "(string, string, nat) Event"

text \<open>\<open>Metadata.Get\<close> is empty for an absent key; a new message has empty metadata.\<close>

definition metadata_get :: "(string \<times> string) list \<Rightarrow> string \<Rightarrow> string" where
  "metadata_get md k = (case map_of md k of None \<Rightarrow> [] | Some v \<Rightarrow> v)"

definition wm_NewPublisher ::
  "(string list \<Rightarrow> 'c sarama_Config option \<Rightarrow> 'pub result) \<Rightarrow> 'c sarama_Config option \<Rightarrow> string list \<Rightarrow> 'pub result" where
  "wm_NewPublisher newPublisher saramaConfig brokers =
     (case newPublisher brokers saramaConfig of
        Inl err \<Rightarrow> Inl (wrap_with ''new kafka publisher'' err)
      | Inr pub \<Rightarrow> Inr pub)"

text \<open>The message of a publication carries a new UUID and the event's type as metadata.\<close>

definition wm_publish_message :: "string \<Rightarrow> wm_event \<Rightarrow> wm_message" where
  "wm_publish_message newUUID event =
     \<lparr>wm_UUID = newUUID, wm_Metadata = [(''type'', ev_Type event)], wm_Payload = ev_Payload event\<rparr>"

definition wm_Publish ::
  "('pub \<Rightarrow> string \<Rightarrow> wm_message \<Rightarrow> go_error option) \<Rightarrow> string \<Rightarrow> 'pub \<Rightarrow> wm_event \<Rightarrow> string list \<Rightarrow> go_error option" where
  "wm_Publish publish newUUID p event channels =
     (case channels of
        [ch] \<Rightarrow> map_option (wrap_with ''publish'') (publish p ch (wm_publish_message newUUID event))
      | _ \<Rightarrow> Some ErrExactlyOneChannelAllowed)"

definition wm_Publisher_Close :: "('pub \<Rightarrow> go_error option) \<Rightarrow> 'pub \<Rightarrow> go_error option" where
  "wm_Publisher_Close close p = close p"

definition wm_NewSubscriber ::
  "(string list \<Rightarrow> 'c sarama_Config option \<Rightarrow> string \<Rightarrow> 'sub result) \<Rightarrow> 'c sarama_Config option
   \<Rightarrow> string list \<Rightarrow> string \<Rightarrow> 'sub result" where
  "wm_NewSubscriber newSubscriber saramaConfig brokers consumerGroup =
     (case newSubscriber brokers saramaConfig consumerGroup of
        Inl err \<Rightarrow> Inl (wrap_with ''new kafka subscriber'' err)
      | Inr sub \<Rightarrow> Inr sub)"

text \<open>Subscribing hands the message stream to a fresh subscription goroutine.\<close>

definition wm_Subscribe ::
  "('sub \<Rightarrow> string \<Rightarrow> 'stream result) \<Rightarrow> 'sub \<Rightarrow> string list \<Rightarrow> 'stream result" where
  "wm_Subscribe subscribe s channels =
     (case channels of
        [ch] \<Rightarrow> (case subscribe s ch of Inl err \<Rightarrow> Inl (wrap_with ''subscribe'' err) | Inr mes \<Rightarrow> Inr mes)
      | _ \<Rightarrow> Inl ErrExactlyOneChannelAllowed)"

definition wm_Subscriber_Close :: "('sub \<Rightarrow> go_error option) \<Rightarrow> 'sub \<Rightarrow> go_error option" where
  "wm_Subscriber_Close close s = close s"

text \<open>
  Importing the package replaces the logger of the Kafka client library, a variable of that library, by one
  that writes to standard output.
\<close>

record sarama_logger =
  sl_stdout :: bool
  sl_prefix :: string
  sl_LstdFlags :: bool

definition kafka_package_init :: "sarama_logger option \<Rightarrow> sarama_logger option" where
  "kafka_package_init logger = Some \<lparr>sl_stdout = True, sl_prefix = ''[Sarama] '', sl_LstdFlags = True\<rparr>"

section \<open>The subscription goroutine\<close>

text \<open>
  The state of the goroutine and of the channels it works on; \<open>wm_received\<close> is what its consumer got and \<open>wm_acks\<close> counts the calls of
  \<open>Ack\<close> and \<open>Nack\<close> on the messages it was given.
\<close>

datatype wm_pc = WLoop | WSend wm_event | WReturned | WCrashed

datatype wm_close = WOpen | WEventClosed | WClosed | WCloseCrashed

record wm_machine =
  wm_mes :: "wm_message list"
  wm_mes_closed :: bool
  wm_at :: wm_pc
  wm_closing :: wm_close
  wm_received :: "wm_event list"
  wm_acks :: nat

definition wm_init :: "wm_message list \<Rightarrow> wm_machine" where
  "wm_init ms = \<lparr>wm_mes = ms, wm_mes_closed = False, wm_at = WLoop, wm_closing = WOpen, wm_received = [], wm_acks = 0\<rparr>"

definition wm_build :: "wm_message \<Rightarrow> wm_event" where
  "wm_build m = \<lparr>ev_Type = metadata_get (wm_Metadata m) ''type'', ev_Payload = wm_Payload m,
     ev_Error = None, ev_Acker = None\<rparr>"

text \<open>\<open>Close\<close> closes the event channel first and the close channel second.\<close>

datatype wm_op = WmTake | WmStop | WmEnd | WmReceive | WmClose1 | WmClose2 | WmEnvClose

inductive newSubscription :: "wm_machine \<Rightarrow> wm_op \<Rightarrow> wm_machine \<Rightarrow> bool" where
  wm_take: "wm_at s = WLoop \<Longrightarrow> wm_mes s = m # ms \<Longrightarrow>
    newSubscription s WmTake (s\<lparr>wm_mes := ms, wm_at := WSend (wm_build m)\<rparr>)"
| wm_stop: "wm_at s = WLoop \<Longrightarrow> wm_closing s \<in> {WClosed, WCloseCrashed} \<Longrightarrow>
    newSubscription s WmStop (s\<lparr>wm_at := WReturned\<rparr>)"
| wm_end: "wm_at s = WLoop \<Longrightarrow> wm_mes s = [] \<Longrightarrow> wm_mes_closed s \<Longrightarrow>
    newSubscription s WmEnd (s\<lparr>wm_at := WReturned\<rparr>)"
| wm_receive: "wm_at s = WSend e \<Longrightarrow> wm_closing s = WOpen \<Longrightarrow>
    newSubscription s WmReceive (s\<lparr>wm_at := WLoop, wm_received := wm_received s @ [e]\<rparr>)"
| wm_send_closed: "wm_at s = WSend e \<Longrightarrow> wm_closing s \<noteq> WOpen \<Longrightarrow>
    newSubscription s WmReceive (s\<lparr>wm_at := WCrashed\<rparr>)"
| wm_close1: "wm_closing s = WOpen \<Longrightarrow> newSubscription s WmClose1 (s\<lparr>wm_closing := WEventClosed\<rparr>)"
| wm_close_again: "wm_closing s = WClosed \<Longrightarrow> newSubscription s WmClose1 (s\<lparr>wm_closing := WCloseCrashed\<rparr>)"
| wm_close2: "wm_closing s = WEventClosed \<Longrightarrow> newSubscription s WmClose2 (s\<lparr>wm_closing := WClosed\<rparr>)"
| wm_env_close: "newSubscription s WmEnvClose (s\<lparr>wm_mes_closed := True\<rparr>)"

text \<open>
  Events come out in the order of the messages; the goroutine panics only on a send after a
  \<open>Close\<close> has begun.
\<close>

definition wm_inv :: "wm_message list \<Rightarrow> wm_machine \<Rightarrow> bool" where
  "wm_inv ms s \<longleftrightarrow> (\<exists>lost.
       map wm_build ms = wm_received s @ (case wm_at s of WSend e \<Rightarrow> [e] | _ \<Rightarrow> lost) @ map wm_build (wm_mes s)
       \<and> length lost \<le> 1 \<and> (wm_at s \<noteq> WCrashed \<longrightarrow> lost = []))
     \<and> (wm_at s = WCrashed \<longrightarrow> wm_closing s \<noteq> WOpen)"

interpretation wm_loop: invariant_machine "wm_init ms" newSubscription "wm_inv ms" for ms
proof unfold_locales
  show "wm_inv ms (wm_init ms)" by (simp add: wm_inv_def wm_init_def)
  show "wm_inv ms t" if inv: "wm_inv ms s" and step: "newSubscription s a t" for s a t
    using step
  proof (cases rule: newSubscription.cases)
    case (wm_send_closed e)
    then have "map wm_build ms = wm_received s @ [e] @ map wm_build (wm_mes s)"
      using inv by (auto simp: wm_inv_def)
    with wm_send_closed show ?thesis by (auto simp: wm_inv_def intro!: exI [of _ "[e]"])
  qed (use inv in \<open>auto simp: wm_inv_def split: wm_pc.splits\<close>)
qed

section \<open>Properties\<close>

text \<open>
  C20. A subscription delivers its messages as events in order, without loss or repetition, as long
  as it is not closed, and cannot crash before a \<open>Close\<close>. A \<open>Close\<close> while the goroutine offers an
  event crashes the program, since the event channel is closed under the pending send; so does a
  second \<open>Close\<close>.
\<close>

theorem watermill_stream:
  "(reachable (wm_init ms) newSubscription s \<and> wm_closing s = WOpen \<longrightarrow>
      wm_at s \<noteq> WCrashed \<and> prefix (wm_received s) (map wm_build ms)
      \<and> length ms \<le> length (wm_received s) + Suc (length (wm_mes s)))
   \<and> (\<exists>t. reachable (wm_init [m]) newSubscription t \<and> wm_at t = WCrashed)
   \<and> (\<exists>t. reachable (wm_init [m]) newSubscription t \<and> wm_closing t = WCloseCrashed)"
proof -
  have "wm_at s \<noteq> WCrashed \<and> prefix (wm_received s) (map wm_build ms)
      \<and> length ms \<le> length (wm_received s) + Suc (length (wm_mes s))"
    if r: "reachable (wm_init ms) newSubscription s" and o: "wm_closing s = WOpen"
  proof -
    obtain lost where l: "map wm_build ms = wm_received s @ (case wm_at s of WSend e \<Rightarrow> [e] | _ \<Rightarrow> lost) @ map wm_build (wm_mes s)"
      "length lost \<le> 1"
      using wm_loop.inv_reachable [OF r] by (auto simp: wm_inv_def)
    have "length ms = length (wm_received s @ (case wm_at s of WSend e \<Rightarrow> [e] | _ \<Rightarrow> lost) @ map wm_build (wm_mes s))"
      using l(1) by (metis length_map)
    then show ?thesis
      using l wm_loop.inv_reachable [OF r] o by (auto simp: wm_inv_def split: wm_pc.splits)
  qed
  moreover have "\<exists>t. reachable (wm_init [m]) newSubscription t \<and> wm_at t = WCrashed"
  proof -
    define s0 where "s0 = wm_init [m]"
    define s1 where "s1 = s0\<lparr>wm_mes := [], wm_at := WSend (wm_build m)\<rparr>"
    define s2 where "s2 = s1\<lparr>wm_closing := WEventClosed\<rparr>"
    define s3 where "s3 = s2\<lparr>wm_at := WCrashed\<rparr>"
    note defs = s0_def s1_def s2_def s3_def wm_init_def
    have "newSubscription s0 WmTake s1" using wm_take [of s0 m "[]"] by (simp add: defs)
    moreover have "newSubscription s1 WmClose1 s2" using wm_close1 [of s1] by (simp add: defs)
    moreover have "newSubscription s2 WmReceive s3" using wm_send_closed [of s2] by (simp add: defs)
    ultimately have "reachable s0 newSubscription s3" by (meson reachable_intros)
    moreover have "wm_at s3 = WCrashed" by (simp add: defs)
    ultimately show ?thesis unfolding s0_def by blast
  qed
  moreover have "\<exists>t. reachable (wm_init [m]) newSubscription t \<and> wm_closing t = WCloseCrashed"
  proof -
    define s0 where "s0 = wm_init [m]"
    define s1 where "s1 = s0\<lparr>wm_closing := WEventClosed\<rparr>"
    define s2 where "s2 = s1\<lparr>wm_closing := WClosed\<rparr>"
    define s3 where "s3 = s2\<lparr>wm_closing := WCloseCrashed\<rparr>"
    note defs = s0_def s1_def s2_def s3_def wm_init_def
    have "newSubscription s0 WmClose1 s1" using wm_close1 [of s0] by (simp add: defs)
    moreover have "newSubscription s1 WmClose2 s2" using wm_close2 [of s1] by (simp add: defs)
    moreover have "newSubscription s2 WmClose1 s3" using wm_close_again [of s2] by (simp add: defs)
    ultimately have "reachable s0 newSubscription s3" by (meson reachable_intros)
    moreover have "wm_closing s3 = WCloseCrashed" by (simp add: defs)
    ultimately show ?thesis unfolding s0_def by blast
  qed
  ultimately show ?thesis by blast
qed

text \<open>A run in which the first of two messages is taken and received.\<close>

theorem watermill_stream_witness:
  "\<exists>s. reachable (wm_init [\<lparr>wm_UUID = ''u'', wm_Metadata = [], wm_Payload = ''x''\<rparr>, \<lparr>wm_UUID = ''v'', wm_Metadata = [], wm_Payload = ''y''\<rparr>])
       newSubscription s
     \<and> wm_closing s = WOpen \<and> map ev_Payload (wm_received s) = [''x''] \<and> length (wm_mes s) = 1 \<and> wm_at s \<noteq> WCrashed
     \<and> prefix (map ev_Payload (wm_received s)) [''x'', ''y'']"
proof -
  define m1 where "m1 = \<lparr>wm_UUID = ''u'', wm_Metadata = [], wm_Payload = ''x''\<rparr>"
  define m2 where "m2 = \<lparr>wm_UUID = ''v'', wm_Metadata = [], wm_Payload = ''y''\<rparr>"
  define s0 where "s0 = wm_init [m1, m2]"
  define s1 where "s1 = s0\<lparr>wm_mes := [m2], wm_at := WSend (wm_build m1)\<rparr>"
  define s2 where "s2 = s1\<lparr>wm_at := WLoop, wm_received := [wm_build m1]\<rparr>"
  note defs = s0_def s1_def s2_def wm_init_def
  have "newSubscription s0 WmTake s1" using wm_take [of s0 m1 "[m2]"] by (simp add: defs)
  moreover have "newSubscription s1 WmReceive s2" using wm_receive [of s1 "wm_build m1"] by (simp add: defs)
  ultimately have r: "reachable (wm_init [m1, m2]) newSubscription s2" unfolding s0_def by (meson reachable_intros)
  have o: "wm_closing s2 = WOpen" by (simp add: defs)
  then have safe: "wm_at s2 \<noteq> WCrashed" "prefix (wm_received s2) (map wm_build [m1, m2])"
    using mp [OF conjunct1 [OF watermill_stream [of "[m1, m2]" s2 m1]]] r by simp_all
  have "map ev_Payload (map wm_build [m1, m2]) = [''x'', ''y'']" by (simp add: wm_build_def m1_def m2_def)
  moreover from safe(2) have "prefix (map ev_Payload (wm_received s2)) (map ev_Payload (map wm_build [m1, m2]))" by (rule map_mono_prefix)
  ultimately have "prefix (map ev_Payload (wm_received s2)) [''x'', ''y'']" by metis
  moreover have "map ev_Payload (wm_received s2) = [''x'']" "length (wm_mes s2) = 1"
    by (simp_all add: defs wm_build_def m1_def)
  ultimately show ?thesis
    unfolding m1_def [symmetric] m2_def [symmetric] using r safe(1) o by (intro exI [of _ s2]) simp
qed

section \<open>The subscription behind a watermill subscriber\<close>

text \<open>
  The system of a watermill subscriber, a subscription and its consumer: the goroutine, the messages of the topic not handed over yet, and
  the number of messages handed over. When watermill hands over the next message is a parameter, a test on the number of messages that
  were handed over and not acknowledged; its documentation promises that a partition waits for the acknowledgement of its last message, so
  that at most one message per partition is out. A message is acknowledged by the goroutine, which would count it in \<open>wm_acks\<close>, or by the
  consumer, who calls \<open>Ack\<close> or \<open>Nack\<close> of an event it received.
\<close>

record wm_system =
  ws_sub :: wm_machine
  ws_input :: "wm_message list"
  ws_handed :: nat

definition ws_init :: "wm_message list \<Rightarrow> wm_system" where
  "ws_init ms = \<lparr>ws_sub = wm_init [], ws_input = ms, ws_handed = 0\<rparr>"

definition ws_unacked :: "wm_system \<Rightarrow> nat" where
  "ws_unacked s = ws_handed s - wm_acks (ws_sub s)"

text \<open>What the acknowledger of an event does, whichever it is.\<close>

definition answer_message :: "nat \<Rightarrow> wm_machine \<Rightarrow> wm_machine" where
  "answer_message address w = w\<lparr>wm_acks := Suc (wm_acks w)\<rparr>"

datatype ws_op = WsHandOver | WsGoroutine wm_op | WsAck wm_event | WsNack wm_event

inductive watermill_step :: "(nat \<Rightarrow> bool) \<Rightarrow> wm_system \<Rightarrow> ws_op \<Rightarrow> wm_system \<Rightarrow> bool" for may_hand_over where
  ws_hand_over: "may_hand_over (ws_unacked s) \<Longrightarrow> ws_input s = m # ms \<Longrightarrow>
    watermill_step may_hand_over s WsHandOver
      (s\<lparr>ws_sub := (ws_sub s)\<lparr>wm_mes := wm_mes (ws_sub s) @ [m]\<rparr>, ws_input := ms, ws_handed := Suc (ws_handed s)\<rparr>)"
| ws_goroutine: "newSubscription (ws_sub s) a t \<Longrightarrow>
    watermill_step may_hand_over s (WsGoroutine a) (s\<lparr>ws_sub := t\<rparr>)"
| ws_ack: "e \<in> set (wm_received (ws_sub s)) \<Longrightarrow>
    watermill_step may_hand_over s (WsAck e) (s\<lparr>ws_sub := Event_Ack answer_message e (ws_sub s)\<rparr>)"
| ws_nack: "e \<in> set (wm_received (ws_sub s)) \<Longrightarrow>
    watermill_step may_hand_over s (WsNack e) (s\<lparr>ws_sub := Event_Nack answer_message e (ws_sub s)\<rparr>)"

definition waits_for_ack :: "nat \<Rightarrow> (nat \<Rightarrow> bool) \<Rightarrow> bool" where
  "waits_for_ack partitions may_hand_over \<longleftrightarrow> (\<forall>k. may_hand_over k \<longrightarrow> k < partitions)"

text \<open>
  The messages in the subscription and the events that came out of it are messages that were handed over; none was answered, and no
  event has an acknowledger.
\<close>

definition in_subscription :: "wm_machine \<Rightarrow> nat" where
  "in_subscription w = length (wm_mes w) + (case wm_at w of WSend e \<Rightarrow> 1 | _ \<Rightarrow> 0) + length (wm_received w)"

definition unanswered :: "wm_machine \<Rightarrow> bool" where
  "unanswered w \<longleftrightarrow> wm_acks w = 0 \<and> (\<forall>e \<in> set (wm_received w). ev_Acker e = None)
     \<and> (\<forall>e. wm_at w = WSend e \<longrightarrow> ev_Acker e = None)"

definition ws_inv :: "wm_message list \<Rightarrow> (nat \<Rightarrow> bool) \<Rightarrow> wm_system \<Rightarrow> bool" where
  "ws_inv ms may s \<longleftrightarrow> in_subscription (ws_sub s) \<le> ws_handed s
     \<and> (\<forall>n. waits_for_ack n may \<longrightarrow> ws_handed s \<le> n)
     \<and> length (ws_input s) + ws_handed s = length ms \<and> unanswered (ws_sub s)"

lemma in_subscription_step: "newSubscription w a t \<Longrightarrow> in_subscription t \<le> in_subscription w"
  by (erule newSubscription.cases) (auto simp: in_subscription_def split: wm_pc.splits)

lemma unanswered_step: "newSubscription w a t \<Longrightarrow> unanswered w \<Longrightarrow> unanswered t"
  by (erule newSubscription.cases) (auto simp: unanswered_def wm_build_def)

interpretation watermill: invariant_machine "ws_init ms" "watermill_step may" "ws_inv ms may" for ms may
proof unfold_locales
  show "ws_inv ms may (ws_init ms)" by (simp add: ws_inv_def ws_init_def wm_init_def in_subscription_def unanswered_def)
  show "ws_inv ms may t" if inv: "ws_inv ms may s" and step: "watermill_step may s a t" for s a t
    using step
  proof cases
    case (ws_hand_over m ms)
    have "ws_unacked s = ws_handed s" using inv by (simp add: ws_inv_def ws_unacked_def unanswered_def)
    with ws_hand_over inv show ?thesis
      by (simp add: ws_inv_def in_subscription_def waits_for_ack_def unanswered_def Suc_le_eq)
  next
    case (ws_goroutine b w)
    have "in_subscription w \<le> ws_handed s"
      using in_subscription_step [OF ws_goroutine(3)] inv by (simp add: ws_inv_def)
    moreover have "unanswered w" using unanswered_step [OF ws_goroutine(3)] inv by (simp add: ws_inv_def)
    ultimately show ?thesis using inv unfolding ws_goroutine(2) ws_inv_def by simp
  next
    case (ws_ack e)
    then have "Event_Ack answer_message e (ws_sub s) = ws_sub s" using inv by (simp add: ws_inv_def unanswered_def Event_Ack_def)
    with ws_ack inv show ?thesis by (simp add: ws_inv_def)
  next
    case (ws_nack e)
    then have "Event_Nack answer_message e (ws_sub s) = ws_sub s" using inv by (simp add: ws_inv_def unanswered_def Event_Nack_def)
    with ws_nack inv show ?thesis by (simp add: ws_inv_def)
  qed
qed

text \<open>
  C17. A subscription of this package delivers at most one event per partition: no step of the goroutine acknowledges a message, and the
  consumer cannot, since the events have no acknowledger and calling their \<open>Ack\<close> or \<open>Nack\<close> changes nothing. However many messages the
  topic has and whatever the consumer acknowledges, the others are never handed over. The hypothesis is the documented behaviour of
  watermill, that a partition waits for the acknowledgement of its last message.
\<close>

theorem watermill_stalls:
  assumes "waits_for_ack partitions may_hand_over"
    and "reachable (ws_init ms) (watermill_step may_hand_over) s"
  shows "wm_acks (ws_sub s) = 0 \<and> length (wm_received (ws_sub s)) \<le> partitions
    \<and> length ms \<le> length (ws_input s) + partitions"
proof -
  have inv: "ws_inv ms may_hand_over s" by (rule watermill.inv_reachable [OF assms(2)])
  moreover have "ws_handed s \<le> partitions" using inv assms(1) by (simp add: ws_inv_def)
  ultimately show ?thesis by (auto simp: ws_inv_def in_subscription_def unanswered_def)
qed

text \<open>A run in which the consumer receives the first of two messages and acknowledges it.\<close>

theorem watermill_stalls_witness:
  "\<exists>s. reachable (ws_init [\<lparr>wm_UUID = ''u'', wm_Metadata = [], wm_Payload = ''x''\<rparr>, \<lparr>wm_UUID = ''u'', wm_Metadata = [], wm_Payload = ''y''\<rparr>])
       (watermill_step (\<lambda>k. k = 0)) s
     \<and> map ev_Payload (wm_received (ws_sub s)) = [''x''] \<and> wm_acks (ws_sub s) = 0 \<and> 2 \<le> length (ws_input s) + 1"
proof -
  let ?m = "\<lambda>p. \<lparr>wm_UUID = ''u'', wm_Metadata = [], wm_Payload = p\<rparr>"
  let ?step = "watermill_step (\<lambda>k. k = 0)"
  define s0 where "s0 = ws_init [?m ''x'', ?m ''y'']"
  define w where "w = \<lparr>wm_mes = [?m ''x''], wm_mes_closed = False, wm_at = WLoop, wm_closing = WOpen, wm_received = [], wm_acks = 0\<rparr>"
  define s1 where "s1 = \<lparr>ws_sub = w, ws_input = [?m ''y''], ws_handed = 1\<rparr>"
  define s2 where "s2 = s1\<lparr>ws_sub := w\<lparr>wm_mes := [], wm_at := WSend (wm_build (?m ''x''))\<rparr>\<rparr>"
  define s3 where "s3 = s2\<lparr>ws_sub := w\<lparr>wm_mes := [], wm_received := [wm_build (?m ''x'')]\<rparr>\<rparr>"
  note defs = s0_def s1_def s2_def s3_def w_def ws_init_def wm_init_def ws_unacked_def
  have "?step s0 WsHandOver s1" using ws_hand_over [of "\<lambda>k. k = 0" s0 "?m ''x''" "[?m ''y'']"] by (simp add: defs)
  moreover have "?step s1 (WsGoroutine WmTake) s2"
    using ws_goroutine [OF wm_take [of "ws_sub s1" "?m ''x''" "[]"]] by (simp add: defs)
  moreover have "?step s2 (WsGoroutine WmReceive) s3"
    using ws_goroutine [OF wm_receive [of "ws_sub s2" "wm_build (?m ''x'')"]] by (simp add: defs)
  moreover have "?step s3 (WsAck (wm_build (?m ''x''))) s3"
    using ws_ack [of "wm_build (?m ''x'')" s3 "\<lambda>k. k = 0"] by (simp add: defs Event_Ack_def wm_build_def)
  ultimately have r: "reachable s0 ?step s3" by (meson reachable_intros)
  have "waits_for_ack 1 (\<lambda>k. k = 0)" by (simp add: waits_for_ack_def)
  from watermill_stalls [OF this r [unfolded s0_def]]
  have "wm_acks (ws_sub s3) = 0" "2 \<le> length (ws_input s3) + 1" by simp_all
  with r show ?thesis unfolding s0_def by (auto simp: defs wm_build_def)
qed

end
