(* ===== verification/Kafka_Interop.thy ===== *)
theory Kafka_Interop
  imports Kafka_Sarama Kafka_Watermill "HOL-Library.Multiset"
begin

text \<open>
  The two Kafka packages, \<^verbatim>\<open>src/pubsub/kafka\<close> over watermill and \<^verbatim>\<open>src/pubsub/kafkasarama\<close> over sarama, on one topic: what a publisher
  of one sends and a subscriber of the other makes of it.
\<close>

section \<open>The marshaler and the broker\<close>

text \<open>
  watermill's default marshaler is a parameter: it writes the UUID
  of a message into a header of a reserved name and its metadata, a map in any order, into one header per key, and reads every header
  back into the metadata, where a later header overwrites an earlier one.
\<close>

definition uuid_header :: string where
  "uuid_header = ''_watermill_message_uuid''"

definition last_header :: "(string \<times> string) list \<Rightarrow> string \<Rightarrow> string" where
  "last_header hs k = metadata_get (rev hs) k"

definition marshaler_documented ::
  "(string \<Rightarrow> wm_message \<Rightarrow> producer_message result) \<Rightarrow> (consumer_message \<Rightarrow> wm_message result) \<Rightarrow> bool" where
  "marshaler_documented marshal unmarshal \<longleftrightarrow>
     (\<forall>topic m. uuid_header \<notin> fst ` set (wm_Metadata m) \<longrightarrow>
        (\<exists>pm. marshal topic m = Inr pm \<and> pm_Topic pm = topic \<and> pm_Value pm = wm_Payload m
           \<and> mset (pm_Headers pm) = mset ((uuid_header, wm_UUID m) # wm_Metadata m)))
   \<and> (\<forall>cm. \<exists>m. unmarshal cm = Inr m \<and> wm_Payload m = cm_Value cm \<and> wm_UUID m = last_header (cm_Headers cm) uuid_header
        \<and> (\<forall>k. k \<noteq> uuid_header \<longrightarrow> metadata_get (wm_Metadata m) k = last_header (cm_Headers cm) k))"

text \<open>What the tracing on the way adds is behind the headers of the message and does not touch the type.\<close>

definition traced_broker :: "(producer_message \<Rightarrow> consumer_message) \<Rightarrow> bool" where
  "traced_broker broker \<longleftrightarrow> (\<forall>m. cm_Topic (broker m) = pm_Topic m \<and> cm_Value (broker m) = pm_Value m
     \<and> (\<exists>extra. cm_Headers (broker m) = pm_Headers m @ extra \<and> ''type'' \<notin> fst ` set extra))"

lemma type_header_absent: "''type'' \<notin> fst ` set hs \<Longrightarrow> type_header hs = []"
  by (induction hs rule: type_header.induct) auto

lemma last_header_type:
  "''type'' \<notin> fst ` set extra \<Longrightarrow> k \<noteq> ''type'' \<Longrightarrow> hs \<in> {[(''type'', v)], [(''type'', v), (k, u)], [(k, u), (''type'', v)]} \<Longrightarrow>
   last_header (hs @ extra) ''type'' = v \<and> type_header (hs @ extra) = v"
proof -
  assume absent: "''type'' \<notin> fst ` set extra" and k: "k \<noteq> ''type''"
    and hs: "hs \<in> {[(''type'', v)], [(''type'', v), (k, u)], [(k, u), (''type'', v)]}"
  have "map_of (rev extra) ''type'' = None" using absent by (simp add: map_of_eq_None_iff)
  then show ?thesis using hs k by (auto simp: last_header_def metadata_get_def map_add_def)
qed

lemma marshaled_headers:
  assumes "mset hs = mset [a, b]"
  shows "hs = [a, b] \<or> hs = [b, a]"
proof -
  have "length hs = 2" using arg_cong [OF assms, of size] by simp
  then obtain x y where hs: "hs = [x, y]" by (auto simp: numeral_2_eq_2 length_Suc_conv)
  with assms show ?thesis by (auto simp: add_eq_conv_ex)
qed

lemma wm_marshaled:
  assumes "marshaler_documented marshal unmarshal" and "marshal topic (wm_publish_message u e) = Inr pm"
  shows "pm_Topic pm = topic \<and> pm_Value pm = ev_Payload e
    \<and> pm_Headers pm \<in> {[(''type'', ev_Type e)], [(''type'', ev_Type e), (uuid_header, u)], [(uuid_header, u), (''type'', ev_Type e)]}"
proof -
  have "uuid_header \<notin> fst ` set (wm_Metadata (wm_publish_message u e))"
    by (simp add: wm_publish_message_def uuid_header_def)
  then obtain pm' where "marshal topic (wm_publish_message u e) = Inr pm'" "pm_Topic pm' = topic"
      "pm_Value pm' = wm_Payload (wm_publish_message u e)"
      "mset (pm_Headers pm') = mset ((uuid_header, wm_UUID (wm_publish_message u e)) # wm_Metadata (wm_publish_message u e))"
    using assms(1) unfolding marshaler_documented_def by blast
  with assms(2) have "pm_Topic pm = topic" "pm_Value pm = ev_Payload e"
      and h: "mset (pm_Headers pm) = mset [(uuid_header, u), (''type'', ev_Type e)]"
    by (simp_all add: wm_publish_message_def)
  with marshaled_headers [OF h] show ?thesis by auto
qed

lemma wm_marshal_succeeds:
  assumes "marshaler_documented marshal unmarshal"
  shows "\<exists>pm. marshal topic (wm_publish_message u e) = Inr pm"
proof -
  have "uuid_header \<notin> fst ` set (wm_Metadata (wm_publish_message u e))"
    by (simp add: wm_publish_message_def uuid_header_def)
  with assms show ?thesis unfolding marshaler_documented_def by blast
qed

text \<open>Any message on the topic whose headers are those of either publisher, as either subscriber reads it.\<close>

lemma either_reads:
  assumes "marshaler_documented marshal unmarshal" and "traced_broker broker"
    and "pm_Headers pm \<in> {[(''type'', v)], [(''type'', v), (uuid_header, u)], [(uuid_header, u), (''type'', v)]}"
  shows "ev_Payload (buildEvent (broker pm)) = pm_Value pm
    \<and> ev_Type (buildEvent (broker pm)) = (if v = [] then pm_Topic pm else v)
    \<and> (\<exists>m. unmarshal (broker pm) = Inr m \<and> ev_Payload (wm_build m) = pm_Value pm \<and> ev_Type (wm_build m) = v)"
proof -
  obtain extra where b: "cm_Topic (broker pm) = pm_Topic pm" "cm_Value (broker pm) = pm_Value pm"
      "cm_Headers (broker pm) = pm_Headers pm @ extra" "''type'' \<notin> fst ` set extra"
    using assms(2) by (auto simp: traced_broker_def)
  have k: "uuid_header \<noteq> ''type''" by (simp add: uuid_header_def)
  note h = last_header_type [OF b(4) k assms(3)]
  obtain m where m: "unmarshal (broker pm) = Inr m" "wm_Payload m = cm_Value (broker pm)"
      "metadata_get (wm_Metadata m) ''type'' = last_header (cm_Headers (broker pm)) ''type''"
    using assms(1) k unfolding marshaler_documented_def by metis
  show ?thesis using b m h by (simp add: buildEvent_def wm_build_def)
qed

section \<open>Properties\<close>

text \<open>
  C16. An event published by one of the two Kafka packages is understood by the subscribers of both: payload and type come back, whether
  watermill's marshaler is in between or not, and marshalling never fails. The packages differ on an event without a type: the
  subscription of \<^verbatim>\<open>kafkasarama\<close> takes the topic as its type, the one of \<^verbatim>\<open>kafka\<close> leaves it empty.
\<close>

theorem kafka_packages_interoperate:
  assumes "marshaler_documented marshal unmarshal" and "traced_broker broker"
  shows "\<exists>pm. marshal topic (wm_publish_message u e) = Inr pm
    \<and> (\<forall>sent \<in> {broker pm, broker (publish_message e topic)}.
        ev_Payload (buildEvent sent) = ev_Payload e
      \<and> ev_Type (buildEvent sent) = (if ev_Type e = [] then topic else ev_Type e)
      \<and> (\<exists>m. unmarshal sent = Inr m \<and> ev_Payload (wm_build m) = ev_Payload e \<and> ev_Type (wm_build m) = ev_Type e))"
proof -
  obtain pm where pm: "marshal topic (wm_publish_message u e) = Inr pm"
    using wm_marshal_succeeds [OF assms(1)] by blast
  note w = wm_marshaled [OF assms(1) pm]
  have p: "pm_Headers (publish_message e topic) \<in> {[(''type'', ev_Type e)], [(''type'', ev_Type e), (uuid_header, u)],
      [(uuid_header, u), (''type'', ev_Type e)]}"
    by (simp add: publish_message_def)
  have "pm_Topic (publish_message e topic) = topic" "pm_Value (publish_message e topic) = ev_Payload e"
    by (simp_all add: publish_message_def)
  with either_reads [OF assms p] either_reads [OF assms conjunct2 [OF conjunct2 [OF w]]] w pm show ?thesis by auto
qed

text \<open>A marshaler and a broker as documented.\<close>

definition example_marshal :: "string \<Rightarrow> wm_message \<Rightarrow> producer_message result" where
  "example_marshal topic m = (if uuid_header \<in> fst ` set (wm_Metadata m) then Inl (ErrNew ''metadata is reserved by watermill'')
     else Inr \<lparr>pm_Topic = topic, pm_Headers = (uuid_header, wm_UUID m) # wm_Metadata m, pm_Value = wm_Payload m\<rparr>)"

definition example_unmarshal :: "consumer_message \<Rightarrow> wm_message result" where
  "example_unmarshal cm = Inr \<lparr>wm_UUID = last_header (cm_Headers cm) uuid_header,
     wm_Metadata = filter (\<lambda>(k, v). k \<noteq> uuid_header) (rev (cm_Headers cm)), wm_Payload = cm_Value cm\<rparr>"

definition example_broker :: "producer_message \<Rightarrow> consumer_message" where
  "example_broker m = \<lparr>cm_Topic = pm_Topic m, cm_Partition = 0, cm_Offset = 0,
     cm_Headers = pm_Headers m @ [(''traceparent'', ''00'')], cm_Value = pm_Value m\<rparr>"

lemma map_of_other_key: "k \<noteq> u \<Longrightarrow> map_of (filter (\<lambda>(k, v). k \<noteq> u) hs) k = map_of hs k"
  by (induction hs) auto

lemma example_marshaler: "marshaler_documented example_marshal example_unmarshal"
  by (auto simp: marshaler_documented_def example_marshal_def example_unmarshal_def last_header_def metadata_get_def map_of_other_key)

lemma example_broker_traced: "traced_broker example_broker"
  by (simp add: traced_broker_def example_broker_def)

theorem kafka_packages_interoperate_witness:
  "\<exists>pm. example_marshal ''orders'' (wm_publish_message ''u1''
        \<lparr>ev_Type = [], ev_Payload = ''x'', ev_Error = None, ev_Acker = None\<rparr>) = Inr pm
     \<and> ev_Type (buildEvent (example_broker pm)) = ''orders''
     \<and> (\<exists>m. example_unmarshal (example_broker pm) = Inr m \<and> ev_Payload (wm_build m) = ''x'' \<and> ev_Type (wm_build m) = [])"
  using kafka_packages_interoperate [OF example_marshaler example_broker_traced, of "''orders''" "''u1''"
      "\<lparr>ev_Type = [], ev_Payload = ''x'', ev_Error = None, ev_Acker = None\<rparr>"]
  by fastforce

end
