(* ===== verification/Go_Time.thy ===== *)
theory Go_Time
  imports Go_Encoding "HOL-Library.Monad_Syntax"
begin

text \<open>
  What the sources use of package time: a time as its civil date and clock in a zone with a fixed
  offset from UTC in seconds, its instant, and the format \<open>time.RFC3339Nano\<close> with its parser. The
  parser is that of \<open>time.Parse\<close> on this layout: it takes one- or two-digit hours, a comma or a
  period before the fraction, any number of fraction digits (those after the ninth are dropped) and
  offsets of up to 24 hours and 60 minutes.
\<close>

record go_time =
  t_year :: int
  t_month :: nat
  t_day :: nat
  t_hour :: nat
  t_min :: nat
  t_sec :: nat
  t_nsec :: nat
  t_offset :: int

section \<open>The instant of a time\<close>

definition leap_year :: "int \<Rightarrow> bool" where
  "leap_year y \<longleftrightarrow> 4 dvd y \<and> (\<not> 100 dvd y \<or> 400 dvd y)"

definition daysIn :: "nat \<Rightarrow> int \<Rightarrow> nat" where
  "daysIn m y = (if m = 2 then (if leap_year y then 29 else 28)
     else if m \<in> {4, 6, 9, 11} then 30 else 31)"

text \<open>Days from 1 January of year 1 to 1 January of a year, and to the first of a month.\<close>

definition days_before_year :: "int \<Rightarrow> int" where
  "days_before_year y = (let p = y - 1 in 365 * p + p div 4 - p div 100 + p div 400)"

definition days_before_month :: "nat \<Rightarrow> int \<Rightarrow> int" where
  "days_before_month m y = int (sum_list (map (\<lambda>k. daysIn k y) [1..<m]))"

text \<open>Nanoseconds since the zero time, 1 January of year 1, 00:00:00 UTC.\<close>

definition instant :: "go_time \<Rightarrow> int" where
  "instant t =
     (let days = days_before_year (t_year t) + days_before_month (t_month t) (t_year t) + int (t_day t) - 1;
          secs = days * 86400 + int (t_hour t) * 3600 + int (t_min t) * 60 + int (t_sec t) - t_offset t
      in secs * 1000000000 + int (t_nsec t))"

definition IsZero :: "go_time \<Rightarrow> bool" where
  "IsZero t \<longleftrightarrow> instant t = 0"

section \<open>Fixed-width decimals\<close>

definition is_digit :: "char \<Rightarrow> bool" where
  "is_digit c \<longleftrightarrow> 48 \<le> byte c \<and> byte c \<le> 57"

definition digit_char :: "nat \<Rightarrow> char" where
  "digit_char d = char_of (48 + d)"

fun fixed :: "nat \<Rightarrow> nat \<Rightarrow> string" where
  "fixed 0 n = []"
| "fixed (Suc k) n = fixed k (n div 10) @ [digit_char (n mod 10)]"

fun atoi :: "nat \<Rightarrow> string \<Rightarrow> nat option" where
  "atoi acc [] = Some acc"
| "atoi acc (c # cs) = (if is_digit c then atoi (10 * acc + (byte c - 48)) cs else None)"

definition getnum :: "nat \<Rightarrow> string \<Rightarrow> (nat \<times> string) option" where
  "getnum k s = (if length s < k then None else map_option (\<lambda>n. (n, drop k s)) (atoi 0 (take k s)))"

text \<open>The hour field also takes a single digit.\<close>

definition getnum_hour :: "string \<Rightarrow> (nat \<times> string) option" where
  "getnum_hour s =
     (case s of
        [] \<Rightarrow> None
      | a # r \<Rightarrow> if \<not> is_digit a then None
                 else if r = [] \<or> \<not> is_digit (hd r) then Some (byte a - 48, r)
                 else Some (10 * (byte a - 48) + (byte (hd r) - 48), tl r))"

lemma digit_char_simps [simp]:
  "d < 10 \<Longrightarrow> is_digit (digit_char d)" "d < 10 \<Longrightarrow> byte (digit_char d) - 48 = d"
  by (simp_all add: is_digit_def digit_char_def)

lemma length_fixed [simp]: "length (fixed k n) = k"
  by (induction k arbitrary: n) auto

lemma fixed_digits: "c \<in> set (fixed k n) \<Longrightarrow> is_digit c"
  by (induction k arbitrary: n) (auto split: if_splits)

lemma atoi_append:
  "atoi acc (xs @ ys) = Option.bind (atoi acc xs) (\<lambda>a. atoi a ys)"
  by (induction xs arbitrary: acc) auto

lemma atoi_fixed: "atoi acc (fixed k n) = Some (acc * 10 ^ k + n mod 10 ^ k)"
proof (induction k arbitrary: n)
  case (Suc k)
  have "10 * (acc * 10 ^ k + n div 10 mod 10 ^ k) + n mod 10 = acc * 10 ^ Suc k + n mod 10 ^ Suc k"
    by (simp add: algebra_simps mod_mult2_eq)
  then show ?case using Suc by (simp add: atoi_append)
qed simp

lemma getnum_fixed [simp]: "n < 10 ^ k \<Longrightarrow> getnum k (fixed k n @ r) = Some (n, r)"
  by (simp add: getnum_def atoi_fixed)

lemma getnum_hour_fixed [simp]:
  assumes "n < 100" shows "getnum_hour (fixed 2 n @ r) = Some (n, r)"
proof -
  have "n div 10 mod 10 < 10" "n mod 10 < 10" by simp_all
  with assms show ?thesis by (simp add: getnum_hour_def numeral_2_eq_2)
qed

section \<open>RFC 3339 with nanoseconds\<close>

text \<open>
  Formatting. Trailing zeros of the fraction are dropped, and the period with them when nothing is
  left; a zero offset is written Z, another one in hours and minutes.
\<close>

definition trim_zeros :: "string \<Rightarrow> string" where
  "trim_zeros s = rev (dropWhile (\<lambda>c. c = digit_char 0) (rev s))"

definition format_year :: "int \<Rightarrow> string" where
  "format_year y = (if y < 0 then CHR ''-'' # (if - y < 10000 then fixed 4 (nat (- y)) else dec_nat (nat (- y)))
     else if y < 10000 then fixed 4 (nat y) else dec_nat (nat y))"

definition format_fraction :: "nat \<Rightarrow> string" where
  "format_fraction ns = (let f = trim_zeros (fixed 9 ns) in if f = [] then [] else CHR ''.'' # f)"

definition format_offset :: "int \<Rightarrow> string" where
  "format_offset off =
     (if off = 0 then ''Z''
      else let z = nat \<bar>off\<bar> div 60
           in (if off < 0 then CHR ''-'' else CHR ''+'') # fixed 2 (z div 60) @ CHR '':'' # fixed 2 (z mod 60))"

definition Format_RFC3339Nano :: "go_time \<Rightarrow> string" where
  "Format_RFC3339Nano t =
     format_year (t_year t) @ CHR ''-'' # fixed 2 (t_month t) @ CHR ''-'' # fixed 2 (t_day t) @ CHR ''T''
     # fixed 2 (t_hour t) @ CHR '':'' # fixed 2 (t_min t) @ CHR '':'' # fixed 2 (t_sec t)
     @ format_fraction (t_nsec t) @ format_offset (t_offset t)"

text \<open>Parsing.\<close>

definition lit :: "char \<Rightarrow> string \<Rightarrow> string option" where
  "lit c s = (case s of x # r \<Rightarrow> if x = c then Some r else None | [] \<Rightarrow> None)"

definition comma_or_period :: "char \<Rightarrow> bool" where
  "comma_or_period c \<longleftrightarrow> c = CHR ''.'' \<or> c = CHR '',''"

definition parse_fraction :: "string \<Rightarrow> (nat \<times> string) option" where
  "parse_fraction s =
     (case s of
        c # d # r \<Rightarrow>
          if comma_or_period c \<and> is_digit d then
            let ds = takeWhile is_digit (d # r); ds' = take 9 ds
            in map_option (\<lambda>n. (n * 10 ^ (9 - length ds'), dropWhile is_digit (d # r))) (atoi 0 ds')
          else Some (0, s)
      | _ \<Rightarrow> Some (0, s))"

definition parse_offset :: "string \<Rightarrow> (int \<times> string) option" where
  "parse_offset s =
     (case s of
        [] \<Rightarrow> None
      | x # r \<Rightarrow>
          if x = CHR ''Z'' then Some (0, r)
          else do {
            (hh, r) \<leftarrow> getnum 2 r;
            r \<leftarrow> lit CHR '':'' r;
            (mm, r) \<leftarrow> getnum 2 r;
            if hh > 24 \<or> mm > 60 then None
            else if x = CHR ''+'' then Some (int ((hh * 60 + mm) * 60), r)
            else if x = CHR ''-'' then Some (- int ((hh * 60 + mm) * 60), r)
            else None
          })"

definition Parse_RFC3339Nano :: "string \<Rightarrow> go_time option" where
  "Parse_RFC3339Nano s = do {
     (year, s) \<leftarrow> getnum 4 s;
     s \<leftarrow> lit CHR ''-'' s;
     (month, s) \<leftarrow> getnum 2 s;
     if month = 0 \<or> 12 < month then None else do {
     s \<leftarrow> lit CHR ''-'' s;
     (day, s) \<leftarrow> getnum 2 s;
     s \<leftarrow> lit CHR ''T'' s;
     (hour, s) \<leftarrow> getnum_hour s;
     if 24 \<le> hour then None else do {
     s \<leftarrow> lit CHR '':'' s;
     (minute, s) \<leftarrow> getnum 2 s;
     if 60 \<le> minute then None else do {
     s \<leftarrow> lit CHR '':'' s;
     (sec, s) \<leftarrow> getnum 2 s;
     if 60 \<le> sec then None else do {
     (nsec, s) \<leftarrow> parse_fraction s;
     (off, s) \<leftarrow> parse_offset s;
     if s \<noteq> [] then None
     else if day < 1 \<or> daysIn month (int year) < day then None
     else Some \<lparr>t_year = int year, t_month = month, t_day = day, t_hour = hour, t_min = minute,
                t_sec = sec, t_nsec = nsec, t_offset = off\<rparr> } } } } }"

text \<open>
  The times that the format represents exactly: years of four digits, real dates, and an offset of
  whole minutes within a day.
\<close>

definition rfc3339_ok :: "go_time \<Rightarrow> bool" where
  "rfc3339_ok t \<longleftrightarrow> 0 \<le> t_year t \<and> t_year t < 10000 \<and> 1 \<le> t_month t \<and> t_month t \<le> 12
     \<and> 1 \<le> t_day t \<and> t_day t \<le> daysIn (t_month t) (t_year t) \<and> t_hour t < 24 \<and> t_min t < 60
     \<and> t_sec t < 60 \<and> t_nsec t < 10 ^ 9 \<and> \<bar>t_offset t\<bar> < 86400 \<and> 60 dvd t_offset t"

lemma lit_Cons [simp]: "lit c (c # r) = Some r"
  by (simp add: lit_def)

lemma parse_offset_format:
  assumes "\<bar>off\<bar> < 86400" and "60 dvd off"
  shows "parse_offset (format_offset off) = Some (off, [])"
proof (cases "off = 0")
  case False
  define z where "z = nat \<bar>off\<bar> div 60"
  have z: "z < 1440" "int (z * 60) = \<bar>off\<bar>"
  proof -
    from assms(2) obtain k where k: "off = 60 * k" by blast
    then have "nat \<bar>off\<bar> = 60 * nat \<bar>k\<bar>" by (simp add: abs_mult nat_mult_distrib)
    then show "z < 1440" "int (z * 60) = \<bar>off\<bar>" using assms(1) k by (simp_all add: z_def)
  qed
  have "getnum 2 (fixed 2 (z div 60) @ CHR '':'' # fixed 2 (z mod 60)) = Some (z div 60, CHR '':'' # fixed 2 (z mod 60))"
    using z(1) by (intro getnum_fixed) simp
  moreover have "getnum 2 (fixed 2 (z mod 60)) = Some (z mod 60, [])"
    using getnum_fixed [of "z mod 60" 2 "[]"] by simp
  moreover have "(z div 60 * 60 + z mod 60) * 60 = z * 60" by simp
  moreover have "z div 60 \<le> 24" "z mod 60 \<le> 60" using z(1) by simp_all
  ultimately show ?thesis
    using False z(2) by (auto simp: parse_offset_def format_offset_def z_def [symmetric] Let_def split: if_splits)
qed (simp add: parse_offset_def format_offset_def)

lemma format_offset_cases:
  "\<exists>x r. format_offset off = x # r \<and> \<not> is_digit x \<and> \<not> comma_or_period x"
  by (auto simp: format_offset_def is_digit_def comma_or_period_def Let_def)

lemma trim_zeros_split: "s = trim_zeros s @ replicate (length s - length (trim_zeros s)) (digit_char 0)"
proof -
  have "rev s = takeWhile (\<lambda>c. c = digit_char 0) (rev s) @ dropWhile (\<lambda>c. c = digit_char 0) (rev s)" by simp
  then have s: "s = trim_zeros s @ rev (takeWhile (\<lambda>c. c = digit_char 0) (rev s))"
    unfolding trim_zeros_def by (metis rev_append rev_rev_ident)
  have "takeWhile (\<lambda>c. c = digit_char 0) (rev s)
      = replicate (length (takeWhile (\<lambda>c. c = digit_char 0) (rev s))) (digit_char 0)"
    by (rule replicate_eqI) (auto dest: set_takeWhileD)
  moreover have "length s - length (trim_zeros s) = length (takeWhile (\<lambda>c. c = digit_char 0) (rev s))"
    using s by (metis add_diff_cancel_left' length_append length_rev)
  ultimately show ?thesis using s by (metis rev_replicate)
qed

lemma atoi_zeros: "atoi acc (replicate k (digit_char 0)) = Some (acc * 10 ^ k)"
  by (induction k arbitrary: acc) (simp_all add: ac_simps)

lemma atoi_trim_zeros: "atoi 0 (trim_zeros s) = Some n \<Longrightarrow> atoi 0 s = Some (n * 10 ^ (length s - length (trim_zeros s)))"
  by (subst trim_zeros_split) (simp add: atoi_append atoi_zeros)

lemma atoi_digits: "\<forall>c \<in> set s. is_digit c \<Longrightarrow> \<exists>n. atoi acc s = Some n"
  by (induction s arbitrary: acc) auto

lemma parse_fraction_format:
  assumes "ns < 10 ^ 9" and "r = x # r'" and "\<not> is_digit x" and "\<not> comma_or_period x"
  shows "parse_fraction (format_fraction ns @ r) = Some (ns, r)"
proof -
  define f where "f = trim_zeros (fixed 9 ns)"
  have split: "fixed 9 ns = f @ replicate (9 - length f) (digit_char 0)"
    using trim_zeros_split [of "fixed 9 ns"] by (simp add: f_def)
  then have len: "length f \<le> 9" by (metis length_append length_fixed le_add1)
  have dig: "\<forall>c \<in> set f. is_digit c"
    using split fixed_digits by (metis Un_iff set_append)
  then obtain n where n: "atoi 0 f = Some n" using atoi_digits by blast
  then have "atoi 0 (fixed 9 ns) = Some (n * 10 ^ (9 - length f))"
    using atoi_trim_zeros [of "fixed 9 ns" n] by (simp add: f_def)
  then have ns: "n * 10 ^ (9 - length f) = ns" using assms(1) by (simp add: atoi_fixed)
  show ?thesis
  proof (cases f)
    case Nil
    then have "ns = 0" using n ns by simp
    have "format_fraction ns = []" using Nil by (simp add: format_fraction_def f_def)
    then show ?thesis using assms \<open>ns = 0\<close> by (auto simp: parse_fraction_def split: list.splits)
  next
    case (Cons d f')
    have "takeWhile is_digit (f @ r) = f" "dropWhile is_digit (f @ r) = r"
      using dig assms(2,3) by (simp_all add: takeWhile_append2 dropWhile_append2)
    moreover have "is_digit d" using dig Cons by simp
    ultimately show ?thesis
      using Cons n ns len
      by (simp add: format_fraction_def f_def [symmetric] parse_fraction_def comma_or_period_def)
  qed
qed

lemma Parse_Format: "rfc3339_ok t \<Longrightarrow> Parse_RFC3339Nano (Format_RFC3339Nano t) = Some t"
proof -
  assume ok: "rfc3339_ok t"
  obtain x r where o: "format_offset (t_offset t) = x # r" "\<not> is_digit x" "\<not> comma_or_period x"
    using format_offset_cases by blast
  have "parse_fraction (format_fraction (t_nsec t) @ format_offset (t_offset t)) = Some (t_nsec t, format_offset (t_offset t))"
    using parse_fraction_format [OF _ o(1,2,3)] ok o(1) by (simp add: rfc3339_ok_def)
  moreover have "parse_offset (format_offset (t_offset t)) = Some (t_offset t, [])"
    using ok by (intro parse_offset_format) (simp_all add: rfc3339_ok_def)
  moreover have "getnum 4 (fixed 4 (nat (t_year t)) @ s) = Some (nat (t_year t), s)" for s
    using ok by (intro getnum_fixed) (auto simp: rfc3339_ok_def nat_less_iff)
  moreover have "getnum 2 (fixed 2 (t_month t) @ s) = Some (t_month t, s)"
    "getnum_hour (fixed 2 (t_hour t) @ s) = Some (t_hour t, s)"
    "getnum 2 (fixed 2 (t_min t) @ s) = Some (t_min t, s)" "getnum 2 (fixed 2 (t_sec t) @ s) = Some (t_sec t, s)" for s
    using ok by (simp_all add: rfc3339_ok_def)
  moreover have "getnum 2 (fixed 2 (t_day t) @ s) = Some (t_day t, s)" for s
    using ok by (intro getnum_fixed) (auto simp: rfc3339_ok_def daysIn_def split: if_splits)
  moreover have "format_year (t_year t) = fixed 4 (nat (t_year t))"
    using ok by (simp add: format_year_def rfc3339_ok_def)
  ultimately show ?thesis
    using ok unfolding Parse_RFC3339Nano_def Format_RFC3339Nano_def rfc3339_ok_def by simp
qed

interpretation rfc3339: codec Format_RFC3339Nano Parse_RFC3339Nano rfc3339_ok
  by unfold_locales (rule Parse_Format)

end
