(* ===== verification/Pagination.thy ===== *)
theory Pagination
  imports Go_Time Go_Errors
begin

text \<open>
  Package pagination, the parts shared by the paginators (\<^verbatim>\<open>src/pagination/types.go\<close>,
  \<^verbatim>\<open>cursor.go\<close>, \<^verbatim>\<open>proto/utils.go\<close>): arguments, pages, cursors with their text form, the cursor of an
  item found by reflection, and the conversion to and from the protocol messages. The interface
  that both paginators implement is the locale \<open>keyset_source\<close>; its client \<open>follow_pages\<close> asks for page
  after page by the end cursors it is given.
\<close>

section \<open>Types\<close>

record Cursor =
  cur_ID :: string
  cur_CreatedAt :: go_time

record Arguments =
  First :: "int option"
  After :: "string option"
  Last :: "int option"
  Before :: "string option"
  afterCursor :: "Cursor option"
  beforeCursor :: "Cursor option"

record PageInfo =
  HasPreviousPage :: bool
  HasNextPage :: bool
  StartCursor :: "string option"
  EndCursor :: "string option"
  TotalCount :: int

record 'r Item =
  item :: 'r
  item_Cursor :: string

record 'r Page =
  Items :: "'r Item list"
  Info :: PageInfo

abbreviation ErrCursorFieldNotFound :: go_error where
  "ErrCursorFieldNotFound \<equiv> ErrNew ''field not found''"
abbreviation ErrCursorInvalidValueType :: go_error where
  "ErrCursorInvalidValueType \<equiv> ErrNew ''invalid value type''"
abbreviation ErrInvalidCursor :: go_error where
  "ErrInvalidCursor \<equiv> ErrNew ''invalid Cursor''"

definition empty_info :: PageInfo where
  "empty_info = \<lparr>HasPreviousPage = False, HasNextPage = False, StartCursor = None, EndCursor = None, TotalCount = 0\<rparr>"

section \<open>Cursors\<close>

definition Cursor_String :: "Cursor \<Rightarrow> string" where
  "Cursor_String c =
     (if cur_ID c = [] \<or> IsZero (cur_CreatedAt c) then []
      else b64_encode (cur_ID c @ CHR '':'' # Format_RFC3339Nano (cur_CreatedAt c)))"

text \<open>The texts of the standard library's decoding errors are abbreviated.\<close>

definition Cursor_SetString :: "string \<Rightarrow> Cursor result" where
  "Cursor_SetString s =
     (case b64_decode s of
        None \<Rightarrow> Inl (wrap_with ''base64 decode'' (ErrOther ''base64.CorruptInputError'' ''illegal base64 data''))
      | Some raw \<Rightarrow>
          (case strings_Cut '':'' raw of
             None \<Rightarrow> Inl (ErrWrap ''invalid Cursor: no separator provided'' ErrInvalidCursor)
           | Some (cid, createdAtRaw) \<Rightarrow>
               (case Parse_RFC3339Nano createdAtRaw of
                  None \<Rightarrow> Inl (wrap_with ''parse created at'' (ErrOther ''*time.ParseError'' ''parsing time''))
                | Some createdAt \<Rightarrow> Inr \<lparr>cur_ID = cid, cur_CreatedAt = createdAt\<rparr>)))"

definition UUID_Length :: nat where
  "UUID_Length = 16"

definition bytesToUUIDString :: "string \<Rightarrow> string" where
  "bytesToUUIDString b =
     hex_encode (take 4 b) @ ''-'' @ hex_encode (take 2 (drop 4 b)) @ ''-'' @ hex_encode (take 2 (drop 6 b))
     @ ''-'' @ hex_encode (take 2 (drop 8 b)) @ ''-'' @ hex_encode (take 6 (drop 10 b))"

text \<open>
  What reflection sees of an item: its named fields and the field name given by the method \<open>IDField\<close>, for types that have it,
  with a value or a pointer receiver. A field is a string, a slice or an array (type name, and its bytes when the elements are
  bytes), a time, another struct (type name), a pointer to a time, another pointer (type name), or of another kind. The item is a
  struct, a pointer to one, a nil pointer, or neither a struct nor a pointer to one.
\<close>

datatype field_value =
  FString string
| FSlice string "string option"
| FArray string "string option"
| FTime go_time
| FStruct string
| FTimePtr "go_time option"
| FPtr string
| FOther string

datatype receiver = ByValue | ByPointer

record reflected =
  rf_fields :: "(string \<times> field_value) list"
  rf_IDField :: "(receiver \<times> string) option"

datatype item_object = ObjStruct reflected | ObjPtr reflected | ObjNil | ObjOther

fun field_kind :: "field_value option \<Rightarrow> string" where
  "field_kind None = ''invalid''"
| "field_kind (Some (FString _)) = ''string''"
| "field_kind (Some (FSlice _ _)) = ''slice''"
| "field_kind (Some (FArray _ _)) = ''array''"
| "field_kind (Some (FTime _)) = ''struct''"
| "field_kind (Some (FStruct _)) = ''struct''"
| "field_kind (Some (FTimePtr _)) = ''ptr''"
| "field_kind (Some (FPtr _)) = ''ptr''"
| "field_kind (Some (FOther k)) = k"

text \<open>
  \<open>Value.Bytes\<close> of the standard library: an array gives its bytes only where it is addressable, which the field of a struct is when
  the struct was reached through a pointer.
\<close>

fun Value_Bytes :: "bool \<Rightarrow> field_value \<Rightarrow> string go" where
  "Value_Bytes addr (FSlice _ (Some b)) = Ret b"
| "Value_Bytes addr (FArray _ (Some b)) =
     (if addr then Ret b else Panic ''reflect.Value.Bytes of unaddressable byte array'')"
| "Value_Bytes addr _ = Panic ''reflect.Value.Bytes of non-byte value''"

fun byte_elements :: "field_value \<Rightarrow> bool" where
  "byte_elements (FSlice _ bytes) = (bytes \<noteq> None)"
| "byte_elements (FArray _ bytes) = (bytes \<noteq> None)"
| "byte_elements _ = False"

definition isUUID :: "bool \<Rightarrow> field_value \<Rightarrow> bool go" where
  "isUUID addr v =
     (if field_kind (Some v) \<noteq> ''slice'' \<and> field_kind (Some v) \<noteq> ''array'' then Ret False
      else if \<not> byte_elements v then Ret False
      else go_bind (Value_Bytes addr v) (\<lambda>b. if length b \<noteq> UUID_Length then Ret False else Ret True))"

fun type_name :: "field_value \<Rightarrow> string" where
  "type_name (FSlice ty _) = ty"
| "type_name (FArray ty _) = ty"
| "type_name _ = []"

definition uuid_id :: "bool \<Rightarrow> field_value \<Rightarrow> string result go" where
  "uuid_id addr v =
     go_bind (isUUID addr v) (\<lambda>yes.
       if yes then go_bind (Value_Bytes addr v) (\<lambda>b. Ret (Inr (bytesToUUIDString b)))
       else Ret (Inl (ErrWrap (''invalid value type: ID: expected slice type to be []byte of length 16, actual: '' @ type_name v)
              ErrCursorInvalidValueType)))"

definition cursor_id :: "bool \<Rightarrow> field_value option \<Rightarrow> string result go" where
  "cursor_id addr f =
     (case f of
        Some (FString s) \<Rightarrow> Ret (Inr s)
      | Some (FSlice ty bytes) \<Rightarrow> uuid_id addr (FSlice ty bytes)
      | Some (FArray ty bytes) \<Rightarrow> uuid_id addr (FArray ty bytes)
      | None \<Rightarrow> Ret (Inl (ErrWrap ''field not found: ID'' ErrCursorFieldNotFound))
      | _ \<Rightarrow> Ret (Inl (ErrWrap (''invalid value type: ID: expected: string/slice/array, actual: '' @ field_kind f)
                    ErrCursorInvalidValueType)))"

text \<open>
  The creation time. Dereferencing a nil pointer panics. For a field of another kind, the error
  names the kind of the ID field, as the source does.
\<close>

definition cursor_created_at :: "field_value option \<Rightarrow> field_value option \<Rightarrow> go_time result go" where
  "cursor_created_at idField f =
     (case f of
        Some (FTime t) \<Rightarrow> Ret (Inr t)
      | Some (FStruct ty) \<Rightarrow>
          Ret (Inl (ErrWrap (''invalid value type: CreatedAt: expected: time.Time, actual: '' @ ty) ErrCursorInvalidValueType))
      | Some (FTimePtr (Some t)) \<Rightarrow> Ret (Inr t)
      | Some (FTimePtr None) \<Rightarrow> Panic ''invalid memory address or nil pointer dereference''
      | Some (FPtr ty) \<Rightarrow>
          Ret (Inl (ErrWrap (''invalid value type: CreatedAt: expected: *time.Time, actual: '' @ ty) ErrCursorInvalidValueType))
      | None \<Rightarrow> Ret (Inl (ErrWrap ''field not found: CreatedAt'' ErrCursorFieldNotFound))
      | _ \<Rightarrow> Ret (Inl (ErrWrap (''invalid value type: CreatedAt: expected: ptr, actual: '' @ field_kind idField)
                    ErrCursorInvalidValueType)))"

text \<open>
  The name of the ID field: the item has the method \<open>IDField\<close> with a pointer receiver only when it is a pointer. The fields of
  something that is not a struct cannot be looked up.
\<close>

definition id_field_name :: "bool \<Rightarrow> reflected \<Rightarrow> string" where
  "id_field_name is_ptr r =
     (case rf_IDField r of
        Some (ByValue, n) \<Rightarrow> n
      | Some (ByPointer, n) \<Rightarrow> (if is_ptr then n else ''ID'')
      | None \<Rightarrow> ''ID'')"

definition struct_cursor :: "bool \<Rightarrow> reflected \<Rightarrow> Cursor result go" where
  "struct_cursor is_ptr r =
     (let idField = map_of (rf_fields r) (id_field_name is_ptr r)
      in go_bind (cursor_id is_ptr idField) (\<lambda>x. case x of
           Inl err \<Rightarrow> Ret (Inl err)
         | Inr cursorID \<Rightarrow>
             go_bind (cursor_created_at idField (map_of (rf_fields r) ''CreatedAt''))
               (\<lambda>y. case y of
                      Inl err \<Rightarrow> Ret (Inl err)
                    | Inr t \<Rightarrow> Ret (Inr \<lparr>cur_ID = cursorID, cur_CreatedAt = t\<rparr>))))"

definition computeItemCursor :: "item_object \<Rightarrow> Cursor result go" where
  "computeItemCursor obj =
     (case obj of
        ObjStruct r \<Rightarrow> struct_cursor False r
      | ObjPtr r \<Rightarrow> struct_cursor True r
      | ObjNil \<Rightarrow> Panic ''reflect: call of reflect.Value.FieldByName on zero Value''
      | ObjOther \<Rightarrow> Panic ''reflect: call of reflect.Value.FieldByName on non-struct Value'')"

lemmas cursor_computation = computeItemCursor_def struct_cursor_def id_field_name_def cursor_id_def uuid_id_def isUUID_def
  cursor_created_at_def

section \<open>Protocol messages\<close>

record proto_Arguments =
  p_First :: "64 word option"
  p_After :: "string option"
  p_Last :: "64 word option"
  p_Before :: "string option"

record proto_PageInfo =
  p_StartCursor :: "string option"
  p_EndCursor :: "string option"
  p_HasNextPage :: bool
  p_HasPreviousPage :: bool

definition MarshalPageInfo :: "PageInfo \<Rightarrow> proto_PageInfo" where
  "MarshalPageInfo i = \<lparr>p_StartCursor = StartCursor i, p_EndCursor = EndCursor i,
     p_HasNextPage = HasNextPage i, p_HasPreviousPage = HasPreviousPage i\<rparr>"

definition UnmarshalPageInfo :: "proto_PageInfo option \<Rightarrow> PageInfo" where
  "UnmarshalPageInfo p =
     (case p of None \<Rightarrow> empty_info
      | Some i \<Rightarrow> \<lparr>HasPreviousPage = p_HasPreviousPage i, HasNextPage = p_HasNextPage i,
                  StartCursor = p_StartCursor i, EndCursor = p_EndCursor i, TotalCount = 0\<rparr>)"

definition no_arguments :: Arguments where
  "no_arguments = \<lparr>First = None, After = None, Last = None, Before = None, afterCursor = None, beforeCursor = None\<rparr>"

text \<open>\<open>int\<close> has 64 bits here: the conversion to \<open>int64\<close> is exact on that range.\<close>

definition MarshalArguments :: "Arguments \<Rightarrow> proto_Arguments" where
  "MarshalArguments a = \<lparr>p_First = map_option word_of_int (First a), p_After = After a,
     p_Last = map_option word_of_int (Last a), p_Before = Before a\<rparr>"

definition UnmarshalArguments :: "proto_Arguments option \<Rightarrow> Arguments" where
  "UnmarshalArguments p =
     (case p of None \<Rightarrow> no_arguments
      | Some a \<Rightarrow> \<lparr>First = map_option sint (p_First a), After = p_After a, Last = map_option sint (p_Last a),
                  Before = p_Before a, afterCursor = None, beforeCursor = None\<rparr>)"

section \<open>Round trips\<close>

text \<open>The cursors whose text can be decoded: an ID without a colon and a time the format represents.\<close>

definition cursor_ok :: "Cursor \<Rightarrow> bool" where
  "cursor_ok c \<longleftrightarrow> cur_ID c \<noteq> [] \<and> CHR '':'' \<notin> set (cur_ID c) \<and> rfc3339_ok (cur_CreatedAt c)
     \<and> \<not> IsZero (cur_CreatedAt c)"

fun result_option :: "'a result \<Rightarrow> 'a option" where
  "result_option (Inl _) = None"
| "result_option (Inr x) = Some x"

lemma SetString_String: "cursor_ok c \<Longrightarrow> Cursor_SetString (Cursor_String c) = Inr c"
proof -
  assume ok: "cursor_ok c"
  have "strings_Cut '':'' (cur_ID c @ '':'' @ Format_RFC3339Nano (cur_CreatedAt c))
      = Some (cur_ID c, Format_RFC3339Nano (cur_CreatedAt c))"
    using ok by (intro strings_Cut_first [OF refl]) (simp add: cursor_ok_def)
  with ok show ?thesis
    by (simp add: Cursor_String_def Cursor_SetString_def cursor_ok_def b64.dec_enc rfc3339.dec_enc)
qed

interpretation cursor_text: codec Cursor_String "result_option \<circ> Cursor_SetString" cursor_ok
  by unfold_locales (simp add: SetString_String)

lemma hex_no_colon: "CHR '':'' \<notin> set (hex_encode b)"
proof
  assume "CHR '':'' \<in> set (hex_encode b)"
  then obtain n where "n < 16" "CHR '':'' = hex_char n" using hex_encode_set by blast
  then have "byte (hex_char n) = byte (CHR '':'')" by simp
  then have "byte (hex_char n) = 58" by simp
  with \<open>n < 16\<close> show False by (auto simp: hex_char_def split: if_splits)
qed

section \<open>The contract of a paginator\<close>

text \<open>
  A client of a paginator: it asks for the first page and, as long as \<open>HasNextPage\<close> tells it to, for the page behind \<open>EndCursor\<close>, both
  read from the page information it was sent; \<open>None\<close> is a request that failed or more pages than the first argument allows.
\<close>

fun follow_pages :: "nat \<Rightarrow> (string option \<Rightarrow> 'r Page option) \<Rightarrow> string option \<Rightarrow> 'r Item list option" where
  "follow_pages 0 request after = None"
| "follow_pages (Suc fuel) request after =
     (case request after of
        None \<Rightarrow> None
      | Some p \<Rightarrow>
          if HasNextPage (Info p)
          then map_option (\<lambda>rest. Items p @ rest) (follow_pages fuel request (EndCursor (Info p)))
          else Some (Items p))"

text \<open>
  A source lists its items, each with its cursor, in a fixed order. A forward page of size \<open>n\<close> is the next \<open>n\<close> items from the start, or
  behind the item whose cursor is given; its information says whether more items follow and has the cursors of its first and last
  item. The client above then sees every item exactly once in order; the number of pages it reads bounds the recursion, and as many pages
  as items, plus one, are always enough.
\<close>

definition page_is :: "'r Page \<Rightarrow> 'r Item list \<Rightarrow> bool \<Rightarrow> bool" where
  "page_is p its follow \<longleftrightarrow> Items p = its \<and> HasNextPage (Info p) = follow
     \<and> (its \<noteq> [] \<longrightarrow> StartCursor (Info p) = Some (item_Cursor (hd its)) \<and> EndCursor (Info p) = Some (item_Cursor (last its)))"

locale keyset_source =
  fixes invar :: "'t \<Rightarrow> bool"
    and rows :: "'t \<Rightarrow> 'r Item list"
    and page :: "'t \<Rightarrow> nat \<Rightarrow> string option \<Rightarrow> 'r Page option"
  assumes page_first: "invar t \<Longrightarrow> 0 < n \<Longrightarrow> \<exists>p. page t n None = Some p \<and> page_is p (take n (rows t)) (n < length (rows t))"
    and page_after: "invar t \<Longrightarrow> 0 < n \<Longrightarrow> rows t = xs @ r # ys \<Longrightarrow>
      \<exists>p. page t n (Some (item_Cursor r)) = Some p \<and> page_is p (take n ys) (n < length ys)"
begin

lemma follow_step:
  assumes "invar t" and "0 < n" and "page t n after = Some p" and "page_is p (take n ys) (n < length ys)" and "rows t = xs @ ys"
    and "length ys \<le> fuel" and "0 < fuel"
  shows "follow_pages fuel (page t n) after = Some ys"
  using assms(3-7)
proof (induction fuel arbitrary: after p xs ys)
  case (Suc fuel)
  show ?case
  proof (cases "n < length ys")
    case True
    define r where "r = last (take n ys)"
    have ne: "take n ys \<noteq> []" using True assms(2) by auto
    have "butlast (take n ys) @ [r] = take n ys"
      unfolding r_def by (rule append_butlast_last_id [OF ne])
    then have "ys = butlast (take n ys) @ r # drop n ys"
      by (metis append_take_drop_id append.assoc append_Cons append_Nil)
    then have "rows t = (xs @ butlast (take n ys)) @ r # drop n ys"
      using Suc.prems(3) by (metis append.assoc)
    from page_after [OF assms(1,2) this]
    obtain q where q: "page t n (Some (item_Cursor r)) = Some q" "page_is q (take n (drop n ys)) (n < length (drop n ys))"
      by blast
    have rows: "rows t = (xs @ take n ys) @ drop n ys" using Suc.prems(3) by simp
    have "length (drop n ys) \<le> fuel" "0 < fuel" using Suc.prems(4) True assms(2) by auto
    from Suc.IH [OF q rows this] Suc.prems(1,2) ne True show ?thesis by (simp add: page_is_def r_def)
  qed (use Suc.prems(1,2) in \<open>simp add: page_is_def\<close>)
qed simp

lemma follow_all:
  assumes "invar t" and "0 < n" and "length (rows t) < fuel"
  shows "follow_pages fuel (page t n) None = Some (rows t)"
proof -
  obtain p where "page t n None = Some p" "page_is p (take n (rows t)) (n < length (rows t))"
    using page_first [OF assms(1,2)] by blast
  from follow_step [OF assms(1,2) this, of "[]" fuel] assms(3) show ?thesis by simp
qed

end

section \<open>Properties\<close>

text \<open>
  C22. Decoding the text of a cursor gives the cursor back, for a non-empty ID without a colon and a
  time within the range of RFC 3339; an ID written as a UUID is always such. A cursor without an ID
  or time has the empty text, which does not decode. With a colon in the ID the text is written but
  not understood again.
\<close>

theorem cursor_roundtrip:
  "(cursor_ok c \<longrightarrow> Cursor_SetString (Cursor_String c) = Inr c)
   \<and> CHR '':'' \<notin> set (bytesToUUIDString b)
   \<and> (cur_ID c = [] \<or> IsZero (cur_CreatedAt c) \<longrightarrow> Cursor_String c = [] \<and> isl (Cursor_SetString (Cursor_String c)))
   \<and> isl (Cursor_SetString (Cursor_String \<lparr>cur_ID = ''a:b'', cur_CreatedAt = \<lparr>t_year = 2024, t_month = 2,
        t_day = 29, t_hour = 0, t_min = 0, t_sec = 0, t_nsec = 0, t_offset = 0\<rparr>\<rparr>))"
proof -
  have "CHR '':'' \<notin> set (bytesToUUIDString b)"
    by (simp add: bytesToUUIDString_def hex_no_colon)
  moreover have "isl (Cursor_SetString [])"
    by (simp add: Cursor_SetString_def b64_decode_def)
  moreover have "isl (Cursor_SetString (Cursor_String \<lparr>cur_ID = ''a:b'', cur_CreatedAt = \<lparr>t_year = 2024, t_month = 2,
        t_day = 29, t_hour = 0, t_min = 0, t_sec = 0, t_nsec = 0, t_offset = 0\<rparr>\<rparr>))"
  proof -
    have "getnum 4 (''b:'' @ s) = None" for s
      by (auto simp: getnum_def is_digit_def numeral_eq_Suc)
    then have "Parse_RFC3339Nano (''b:'' @ s) = None" for s
      by (simp add: Parse_RFC3339Nano_def)
    then have "isl (Cursor_SetString (b64_encode (''a'' @ '':'' @ ''b:'' @ s)))" for s
      using strings_Cut_first [of "'':''" "CHR '':''" "[]" "''a''" "''b:'' @ s"]
      unfolding Cursor_SetString_def b64.dec_enc [OF TrueI] option.case by simp
    moreover have "Cursor_String \<lparr>cur_ID = ''a:b'', cur_CreatedAt = t\<rparr> = []
        \<or> Cursor_String \<lparr>cur_ID = ''a:b'', cur_CreatedAt = t\<rparr> = b64_encode (''a'' @ '':'' @ ''b:'' @ Format_RFC3339Nano t)" for t
      by (simp only: Cursor_String_def) simp
    ultimately show ?thesis using \<open>isl (Cursor_SetString [])\<close> by metis
  qed
  ultimately show ?thesis using SetString_String by (auto simp: Cursor_String_def)
qed

theorem cursor_roundtrip_witness:
  "let c = \<lparr>cur_ID = ''42'', cur_CreatedAt = \<lparr>t_year = 2024, t_month = 2, t_day = 29, t_hour = 23, t_min = 59,
        t_sec = 1, t_nsec = 120000000, t_offset = -19800\<rparr>\<rparr>
   in Cursor_SetString (Cursor_String c) = Inr c"
proof -
  have "cursor_ok \<lparr>cur_ID = ''42'', cur_CreatedAt = \<lparr>t_year = 2024, t_month = 2, t_day = 29, t_hour = 23, t_min = 59,
        t_sec = 1, t_nsec = 120000000, t_offset = -19800\<rparr>\<rparr>"
    by (simp add: cursor_ok_def rfc3339_ok_def IsZero_def instant_def Let_def days_before_year_def
        days_before_month_def daysIn_def leap_year_def numeral_2_eq_2)
  then show ?thesis using cursor_roundtrip unfolding Let_def by blast
qed

text \<open>
  Arguments survive the protocol message, for page sizes that are 64-bit integers; the page
  information does too, except that the total count is lost.
\<close>

theorem proto_roundtrip:
  assumes "First a = map_option sint (f :: 64 word option)" and "Last a = map_option sint (l :: 64 word option)"
    and "afterCursor a = None" and "beforeCursor a = None"
  shows "UnmarshalArguments (Some (MarshalArguments a)) = a
    \<and> UnmarshalPageInfo (Some (MarshalPageInfo i)) = i\<lparr>TotalCount := 0\<rparr>
    \<and> UnmarshalArguments None = no_arguments"
proof -
  have "map_option sint (map_option (word_of_int :: int \<Rightarrow> 64 word) (map_option sint (w :: 64 word option))) = map_option sint w" for w
    by (cases w) auto
  with assms show ?thesis
    by (cases a) (simp add: UnmarshalArguments_def MarshalArguments_def UnmarshalPageInfo_def MarshalPageInfo_def)
qed

theorem proto_roundtrip_witness:
  "UnmarshalArguments (Some (MarshalArguments (no_arguments\<lparr>First := Some 20, After := Some ''c''\<rparr>)))
   = no_arguments\<lparr>First := Some 20, After := Some ''c''\<rparr>"
  using proto_roundtrip [of "no_arguments\<lparr>First := Some 20, After := Some ''c''\<rparr>" "Some 20" None]
  by (simp add: no_arguments_def)

section \<open>Item types\<close>

text \<open>
  The type of a field, as far as cursors depend on it: for slices whether the elements are bytes, for arrays of bytes their
  length. A type is accepted when each of its values makes a cursor, rejected when none does; for byte slices and pointers to times it
  depends on the value.
\<close>

datatype field_type = TyString | TySlice bool | TyArray "nat option" | TyTime | TyTimePtr | TyOther

fun typeof :: "field_value \<Rightarrow> field_type" where
  "typeof (FString _) = TyString"
| "typeof (FSlice _ bytes) = TySlice (bytes \<noteq> None)"
| "typeof (FArray _ bytes) = TyArray (map_option length bytes)"
| "typeof (FTime _) = TyTime"
| "typeof (FStruct _) = TyOther"
| "typeof (FTimePtr _) = TyTimePtr"
| "typeof (FPtr _) = TyOther"
| "typeof (FOther _) = TyOther"

datatype verdict = Accepted | Depends | Rejected

fun id_verdict :: "field_type option \<Rightarrow> verdict" where
  "id_verdict (Some TyString) = Accepted"
| "id_verdict (Some (TyArray (Some n))) = (if n = UUID_Length then Accepted else Rejected)"
| "id_verdict (Some (TySlice True)) = Depends"
| "id_verdict _ = Rejected"

fun time_verdict :: "field_type option \<Rightarrow> verdict" where
  "time_verdict (Some TyTime) = Accepted"
| "time_verdict (Some TyTimePtr) = Depends"
| "time_verdict _ = Rejected"

definition id_type :: "reflected \<Rightarrow> field_type option" where
  "id_type r = map_option typeof (map_of (rf_fields r) (id_field_name True r))"

definition time_type :: "reflected \<Rightarrow> field_type option" where
  "time_type r = map_option typeof (map_of (rf_fields r) ''CreatedAt'')"

lemma uuid_id_addressable:
  "uuid_id True (FSlice ty (Some b)) = Ret (if length b = UUID_Length then Inr (bytesToUUIDString b)
     else Inl (ErrWrap (''invalid value type: ID: expected slice type to be []byte of length 16, actual: '' @ ty) ErrCursorInvalidValueType))"
  "uuid_id True (FArray ty (Some b)) = Ret (if length b = UUID_Length then Inr (bytesToUUIDString b)
     else Inl (ErrWrap (''invalid value type: ID: expected slice type to be []byte of length 16, actual: '' @ ty) ErrCursorInvalidValueType))"
  "uuid_id addr (FSlice ty None) =
     Ret (Inl (ErrWrap (''invalid value type: ID: expected slice type to be []byte of length 16, actual: '' @ ty) ErrCursorInvalidValueType))"
  "uuid_id addr (FArray ty None) =
     Ret (Inl (ErrWrap (''invalid value type: ID: expected slice type to be []byte of length 16, actual: '' @ ty) ErrCursorInvalidValueType))"
  by (auto simp: uuid_id_def isUUID_def)

text \<open>The errors of an item without a usable field.\<close>

definition cursor_error :: "go_error \<Rightarrow> bool" where
  "cursor_error e \<longleftrightarrow> errors_Is e ErrCursorFieldNotFound \<or> errors_Is e ErrCursorInvalidValueType"

lemma field_exhaust:
  obtains "f = None" | s where "f = Some (FString s)" | ty where "f = Some (FSlice ty None)"
  | ty b where "f = Some (FSlice ty (Some b))" | ty where "f = Some (FArray ty None)" | ty b where "f = Some (FArray ty (Some b))"
  | t where "f = Some (FTime t)" | ty where "f = Some (FStruct ty)" | "f = Some (FTimePtr None)" | t where "f = Some (FTimePtr (Some t))"
  | ty where "f = Some (FPtr ty)" | k where "f = Some (FOther k)"
  by (metis field_value.exhaust option.exhaust)

lemma cursor_id_typed:
  "id_verdict (map_option typeof f) = Accepted \<Longrightarrow> \<exists>i. cursor_id True f = Ret (Inr i)"
  "id_verdict (map_option typeof f) = Rejected \<Longrightarrow> \<exists>e. cursor_id True f = Ret (Inl e) \<and> cursor_error e"
  "(\<exists>i. cursor_id True f = Ret (Inr i)) \<or> (\<exists>e. cursor_id True f = Ret (Inl e) \<and> cursor_error e)"
  by (cases f rule: field_exhaust; simp add: cursor_id_def uuid_id_addressable cursor_error_def split: if_splits)+

lemma cursor_created_at_typed:
  "time_verdict (map_option typeof f) = Accepted \<Longrightarrow> \<exists>t. cursor_created_at g f = Ret (Inr t)"
  "time_verdict (map_option typeof f) = Rejected \<Longrightarrow> \<exists>e. cursor_created_at g f = Ret (Inl e) \<and> cursor_error e"
  "f \<noteq> Some (FTimePtr None) \<Longrightarrow> (\<exists>t. cursor_created_at g f = Ret (Inr t)) \<or> (\<exists>e. cursor_created_at g f = Ret (Inl e) \<and> cursor_error e)"
  by (cases f rule: field_exhaust; simp add: cursor_created_at_def cursor_error_def)+

text \<open>
  What the types say of an item reached through a pointer: with accepted types there is a cursor, with a rejected one an error, and a
  panic needs a nil pointer as the time.
\<close>

lemma struct_cursor_accepted:
  assumes "id_verdict (id_type r) = Accepted" and "time_verdict (time_type r) = Accepted"
  shows "\<exists>c. struct_cursor True r = Ret (Inr c)"
  using cursor_id_typed(1) [OF assms(1) [unfolded id_type_def]]
    cursor_created_at_typed(1) [OF assms(2) [unfolded time_type_def], of "map_of (rf_fields r) (id_field_name True r)"]
  by (auto simp: struct_cursor_def Let_def)

lemma struct_cursor_rejected:
  assumes "id_verdict (id_type r) = Rejected \<or> time_verdict (time_type r) = Rejected"
  shows "\<exists>e. struct_cursor True r = Ret (Inl e) \<and> cursor_error e"
proof -
  let ?id = "map_of (rf_fields r) (id_field_name True r)"
  consider e where "cursor_id True ?id = Ret (Inl e)" "cursor_error e"
    | i where "cursor_id True ?id = Ret (Inr i)" "time_verdict (time_type r) = Rejected"
    using assms cursor_id_typed(2,3) [of ?id] by (auto simp: id_type_def)
  then show ?thesis
  proof cases
    case 2
    with cursor_created_at_typed(2) [OF 2(2) [unfolded time_type_def], of ?id] show ?thesis
      by (auto simp: struct_cursor_def Let_def)
  qed (simp add: struct_cursor_def Let_def)
qed

lemma struct_cursor_panics:
  assumes "struct_cursor True r = Panic m"
  shows "map_of (rf_fields r) ''CreatedAt'' = Some (FTimePtr None)"
proof (rule ccontr)
  assume time: "\<not> ?thesis"
  let ?id = "map_of (rf_fields r) (id_field_name True r)"
  from cursor_id_typed(3) [of ?id] cursor_created_at_typed(3) [OF time, of ?id] assms show False
    by (auto simp: struct_cursor_def Let_def)
qed

end
