(* ===== verification/Pagination_Sql.thy ===== *)
theory Pagination_Sql
  imports Pagination "HOL-Library.Product_Lexorder"
begin

text \<open>
  The PostgreSQL paginator (\<^verbatim>\<open>src/pagination/psql_pagination.go\<close>). A query session collects clauses
  (conditions, orderings, a limit) and is run by the database, which is a parameter: finding rows,
  counting them and asking whether one exists. What the paginator relies on is the meaning of those
  clauses, stated as \<open>sql_database\<close>: conditions are conjoined, the first ordering decides, a
  negative limit is no limit, and a row is compared by its creation time and then by its ID, in
  whatever linear order the column's collation gives.
\<close>

section \<open>Queries\<close>

datatype comparison = Lt | Gt
datatype direction = Asc | Desc

text \<open>The two forms of condition: on the pair of creation time and ID, and on the time alone.\<close>

datatype condition = KeyCmp comparison go_time string | TimeCmp comparison go_time

record gorm_session =
  q_where :: "condition list"
  q_order :: "direction list"
  q_limit :: "int option"

definition new_session :: gorm_session where
  "new_session = \<lparr>q_where = [], q_order = [], q_limit = None\<rparr>"

definition Where :: "condition \<Rightarrow> gorm_session \<Rightarrow> gorm_session" where
  "Where c ses = ses\<lparr>q_where := q_where ses @ [c]\<rparr>"

definition Order :: "direction \<Rightarrow> gorm_session \<Rightarrow> gorm_session" where
  "Order d ses = ses\<lparr>q_order := q_order ses @ [d]\<rparr>"

definition Limit :: "int \<Rightarrow> gorm_session \<Rightarrow> gorm_session" where
  "Limit n ses = ses\<lparr>q_limit := Some n\<rparr>"

record 'r sql_api =
  db_find :: "gorm_session \<Rightarrow> 'r list result"
  db_count :: "int result"
  db_exists :: "gorm_session \<Rightarrow> bool result"

section \<open>The paginator\<close>

definition where_cursor :: "comparison \<Rightarrow> Cursor option \<Rightarrow> gorm_session \<Rightarrow> gorm_session" where
  "where_cursor cmp c ses = (case c of None \<Rightarrow> ses | Some c \<Rightarrow> Where (KeyCmp cmp (cur_CreatedAt c) (cur_ID c)) ses)"

definition find_items :: "'r sql_api \<Rightarrow> gorm_session \<Rightarrow> 'r list result" where
  "find_items api ses = (case db_find api ses of Inl err \<Rightarrow> Inl (wrap_with ''find items'' err) | Inr xs \<Rightarrow> Inr xs)"

text \<open>
  \<open>queryItems\<close>: the three blocks in the source's order. The session is shared, so that the clauses
  of the forward block are still there in the backward block when both sizes are given.
\<close>

definition query_all :: "'r sql_api \<Rightarrow> Arguments \<Rightarrow> 'r list result" where
  "query_all api a =
     (if First a = None \<and> Last a = None
      then find_items api (where_cursor Lt (afterCursor a) (Order Desc new_session))
      else Inr [])"

definition forward_session :: "Arguments \<Rightarrow> gorm_session \<Rightarrow> gorm_session" where
  "forward_session a ses =
     (case First a of None \<Rightarrow> ses
      | Some n \<Rightarrow> where_cursor Lt (afterCursor a) (Limit n (Order Desc ses)))"

definition backward_session :: "Arguments \<Rightarrow> gorm_session \<Rightarrow> gorm_session" where
  "backward_session a ses =
     (case Last a of None \<Rightarrow> ses
      | Some n \<Rightarrow> where_cursor Gt (beforeCursor a) (Limit n (Order Asc ses)))"

definition queryItems :: "'r sql_api \<Rightarrow> Arguments \<Rightarrow> 'r list result" where
  "queryItems api a =
     (case query_all api a of
        Inl err \<Rightarrow> Inl err
      | Inr items \<Rightarrow>
          (let ses = forward_session a new_session in
           case (if First a = None then Inr items else find_items api ses) of
             Inl err \<Rightarrow> Inl err
           | Inr items \<Rightarrow>
               if Last a = None then Inr items
               else (case find_items api (backward_session a ses) of
                       Inl err \<Rightarrow> Inl err
                     | Inr items \<Rightarrow> Inr (rev items))))"

definition hasMoreItemsByTime :: "'r sql_api \<Rightarrow> comparison \<Rightarrow> go_time \<Rightarrow> bool result" where
  "hasMoreItemsByTime api cmp createdAt = db_exists api (Limit 1 (Where (TimeCmp cmp createdAt) new_session))"

definition hasMoreItems :: "'r sql_api \<Rightarrow> comparison \<Rightarrow> go_time \<Rightarrow> string \<Rightarrow> bool result" where
  "hasMoreItems api cmp createdAt cid = db_exists api (Limit 1 (Where (KeyCmp cmp createdAt cid) new_session))"

definition hasNextPage :: "'r sql_api \<Rightarrow> go_time \<Rightarrow> string \<Rightarrow> bool result" where
  "hasNextPage api createdAt cid =
     (if cid = [] then hasMoreItemsByTime api Lt createdAt else hasMoreItems api Lt createdAt cid)"

definition hasPreviousPage :: "'r sql_api \<Rightarrow> go_time \<Rightarrow> string \<Rightarrow> bool result" where
  "hasPreviousPage api createdAt cid =
     (if cid = [] then hasMoreItemsByTime api Gt createdAt else hasMoreItems api Gt createdAt cid)"

definition getForwardPaginationPageInfo ::
  "'r sql_api \<Rightarrow> go_time \<Rightarrow> Arguments \<Rightarrow> Cursor option \<Rightarrow> PageInfo result" where
  "getForwardPaginationPageInfo api now a endCursor =
     (let (createdAt, cid) = (case endCursor of
            Some c \<Rightarrow> (cur_CreatedAt c, cur_ID c)
          | None \<Rightarrow> (case afterCursor a of Some c \<Rightarrow> (cur_CreatedAt c, cur_ID c) | None \<Rightarrow> (now, [])))
      in case hasNextPage api createdAt cid of
           Inl err \<Rightarrow> Inl (wrap_with ''existence check for forward pagination'' err)
         | Inr next \<Rightarrow>
             if afterCursor a = None then Inr (empty_info\<lparr>HasNextPage := next, HasPreviousPage := False\<rparr>)
             else (case hasPreviousPage api createdAt cid of
                     Inl err \<Rightarrow> Inl (wrap_with ''existence check for forward pagination'' err)
                   | Inr prev \<Rightarrow> Inr (empty_info\<lparr>HasNextPage := next, HasPreviousPage := prev\<rparr>)))"

text \<open>The zero value of \<open>time.Time\<close>.\<close>

definition zero_time :: go_time where
  "zero_time = \<lparr>t_year = 1, t_month = 1, t_day = 1, t_hour = 0, t_min = 0, t_sec = 0, t_nsec = 0, t_offset = 0\<rparr>"

definition getBackwardPaginationPageInfo ::
  "'r sql_api \<Rightarrow> Arguments \<Rightarrow> Cursor option \<Rightarrow> PageInfo result" where
  "getBackwardPaginationPageInfo api a startCursor =
     (let (createdAt, cid) = (case startCursor of
            Some c \<Rightarrow> (cur_CreatedAt c, cur_ID c)
          | None \<Rightarrow> (case beforeCursor a of Some c \<Rightarrow> (cur_CreatedAt c, cur_ID c) | None \<Rightarrow> (zero_time, [])))
      in case hasPreviousPage api createdAt cid of
           Inl err \<Rightarrow> Inl (wrap_with ''existence check for backward pagination'' err)
         | Inr prev \<Rightarrow>
             if beforeCursor a = None then Inr (empty_info\<lparr>HasPreviousPage := prev, HasNextPage := False\<rparr>)
             else (case hasNextPage api createdAt cid of
                     Inl err \<Rightarrow> Inl (wrap_with ''existence check for backward pagination'' err)
                   | Inr next \<Rightarrow> Inr (empty_info\<lparr>HasPreviousPage := prev, HasNextPage := next\<rparr>)))"

definition getPageInfo ::
  "'r sql_api \<Rightarrow> go_time \<Rightarrow> Arguments \<Rightarrow> Cursor option \<Rightarrow> Cursor option \<Rightarrow> PageInfo result" where
  "getPageInfo api now a startCursor endCursor =
     (if First a \<noteq> None then getForwardPaginationPageInfo api now a endCursor
      else getBackwardPaginationPageInfo api a startCursor)"

text \<open>
  The loop that computes the cursor of every item. An item that is not a pointer is copied behind one first, since the bytes of an array
  can be read only there.
\<close>

fun item_pointer :: "item_object \<Rightarrow> item_object" where
  "item_pointer (ObjStruct r) = ObjPtr r"
| "item_pointer (ObjPtr r) = ObjPtr r"
| "item_pointer ObjNil = ObjNil"
| "item_pointer ObjOther = ObjOther"

fun item_cursors :: "('r \<Rightarrow> item_object) \<Rightarrow> 'r list \<Rightarrow> Cursor list result go" where
  "item_cursors obj [] = Ret (Inr [])"
| "item_cursors obj (r # rs) =
     go_bind (computeItemCursor (item_pointer (obj r))) (\<lambda>x. case x of
       Inl err \<Rightarrow> Ret (Inl (wrap_with ''compute cursor'' err))
     | Inr c \<Rightarrow> go_bind (item_cursors obj rs) (\<lambda>y. case y of
         Inl err \<Rightarrow> Ret (Inl err)
       | Inr cs \<Rightarrow> Ret (Inr (c # cs))))"

definition first_of :: "'a list \<Rightarrow> 'a option" where
  "first_of xs = (case xs of [] \<Rightarrow> None | x # _ \<Rightarrow> Some x)"

definition last_of :: "'a list \<Rightarrow> 'a option" where
  "last_of xs = (if xs = [] then None else Some (last xs))"

definition set_cursor :: "string \<Rightarrow> string option \<Rightarrow> Cursor option result" where
  "set_cursor msg c =
     (case c of None \<Rightarrow> Inr None
      | Some s \<Rightarrow> (case Cursor_SetString s of Inl err \<Rightarrow> Inl (wrap_with msg err) | Inr c \<Rightarrow> Inr (Some c)))"

definition make_page :: "'r list \<Rightarrow> Cursor list \<Rightarrow> PageInfo \<Rightarrow> int \<Rightarrow> 'r Page" where
  "make_page rows cs info totalCount =
     (let items = map2 (\<lambda>r c. \<lparr>item = r, item_Cursor = Cursor_String c\<rparr>) rows cs in
      \<lparr>Items = items,
       Info = info\<lparr>TotalCount := totalCount,
                   StartCursor := (case first_of items of None \<Rightarrow> StartCursor info | Some i \<Rightarrow> Some (item_Cursor i)),
                   EndCursor := (case last_of items of None \<Rightarrow> EndCursor info | Some i \<Rightarrow> Some (item_Cursor i))\<rparr>\<rparr>)"

definition ListItems ::
  "'r sql_api \<Rightarrow> ('r \<Rightarrow> item_object) \<Rightarrow> go_time \<Rightarrow> Arguments \<Rightarrow> 'r Page result go" where
  "ListItems api obj now a =
     (case set_cursor ''decode after cursor'' (After a) of
        Inl err \<Rightarrow> Ret (Inl err)
      | Inr ac \<Rightarrow>
     (case set_cursor ''decode before cursor'' (Before a) of
        Inl err \<Rightarrow> Ret (Inl err)
      | Inr bc \<Rightarrow>
     (let a = a\<lparr>afterCursor := (if After a = None then afterCursor a else ac),
               beforeCursor := (if Before a = None then beforeCursor a else bc)\<rparr> in
      case queryItems api a of
        Inl err \<Rightarrow> Ret (Inl (wrap_with ''query items'' err))
      | Inr rows \<Rightarrow>
     (case db_count api of
        Inl err \<Rightarrow> Ret (Inl (wrap_with ''count items'' err))
      | Inr totalCount \<Rightarrow>
          go_bind (item_cursors obj rows) (\<lambda>x. case x of
            Inl err \<Rightarrow> Ret (Inl err)
          | Inr cs \<Rightarrow>
              (case getPageInfo api now a (first_of cs) (last_of cs) of
                 Inl err \<Rightarrow> Ret (Inl (wrap_with ''get page info'' err))
               | Inr info \<Rightarrow> Ret (Inr (make_page rows cs info totalCount))))))))"

section \<open>What the paginator relies on\<close>

record ('r, 'k) sql_table =
  tb_rows :: "'r list"
  tb_cursor :: "'r \<Rightarrow> Cursor"
  tb_collate :: "string \<Rightarrow> 'k"
  tb_obj :: "'r \<Rightarrow> item_object"
  tb_api :: "'r sql_api"
  tb_now :: go_time

definition cursor_key :: "('r, 'k :: linorder) sql_table \<Rightarrow> Cursor \<Rightarrow> int \<times> 'k" where
  "cursor_key t c = (instant (cur_CreatedAt c), tb_collate t (cur_ID c))"

definition row_key :: "('r, 'k :: linorder) sql_table \<Rightarrow> 'r \<Rightarrow> int \<times> 'k" where
  "row_key t r = cursor_key t (tb_cursor t r)"

fun sql_condition :: "('r, 'k :: linorder) sql_table \<Rightarrow> condition \<Rightarrow> 'r \<Rightarrow> bool" where
  "sql_condition t (KeyCmp Lt at i) r = (row_key t r < (instant at, tb_collate t i))"
| "sql_condition t (KeyCmp Gt at i) r = (row_key t r > (instant at, tb_collate t i))"
| "sql_condition t (TimeCmp Lt at) r = (fst (row_key t r) < instant at)"
| "sql_condition t (TimeCmp Gt at) r = (fst (row_key t r) > instant at)"

definition sql_order :: "('r, 'k :: linorder) sql_table \<Rightarrow> direction list \<Rightarrow> 'r list \<Rightarrow> 'r list" where
  "sql_order t ds xs =
     (case ds of [] \<Rightarrow> xs
      | Asc # _ \<Rightarrow> sort_key (row_key t) xs
      | Desc # _ \<Rightarrow> rev (sort_key (row_key t) xs))"

definition sql_limit :: "int option \<Rightarrow> 'r list \<Rightarrow> 'r list" where
  "sql_limit l xs = (case l of None \<Rightarrow> xs | Some n \<Rightarrow> if n < 0 then xs else take (nat n) xs)"

definition sql_rows :: "('r, 'k :: linorder) sql_table \<Rightarrow> gorm_session \<Rightarrow> 'r list" where
  "sql_rows t q = sql_limit (q_limit q)
     (sql_order t (q_order q) (filter (\<lambda>r. list_all (\<lambda>c. sql_condition t c r) (q_where q)) (tb_rows t)))"

definition sql_database :: "('r, 'k :: linorder) sql_table \<Rightarrow> bool" where
  "sql_database t \<longleftrightarrow>
     (\<forall>q. db_find (tb_api t) q = Inr (sql_rows t q)) \<and> db_count (tb_api t) = Inr (int (length (tb_rows t)))
     \<and> (\<forall>q. db_exists (tb_api t) q = Inr (sql_rows t q \<noteq> []))"

text \<open>Rows have cursors that can be encoded, found by reflection, and no two rows have the same key.\<close>

definition table_ok :: "('r, 'k :: linorder) sql_table \<Rightarrow> bool" where
  "table_ok t \<longleftrightarrow> sql_database t \<and> distinct (map (row_key t) (tb_rows t))
     \<and> (\<forall>r \<in> set (tb_rows t). computeItemCursor (item_pointer (tb_obj t r)) = Ret (Inr (tb_cursor t r)) \<and> cursor_ok (tb_cursor t r))"

text \<open>The order in which a table is listed: newest first.\<close>

definition listing :: "('r, 'k :: linorder) sql_table \<Rightarrow> 'r list" where
  "listing t = rev (sort_key (row_key t) (tb_rows t))"

section \<open>Lemmas on the listing\<close>

lemma set_listing [simp]: "set (listing t) = set (tb_rows t)"
  by (simp add: listing_def)

lemma length_listing [simp]: "length (listing t) = length (tb_rows t)"
  by (simp add: listing_def)

lemma listing_desc:
  assumes "distinct (map (row_key t) (tb_rows t))"
  shows "sorted_wrt (\<lambda>a b. row_key t b < row_key t a) (listing t)"
proof -
  have "distinct (map (row_key t) (sort_key (row_key t) (tb_rows t)))"
    using assms by (simp add: distinct_map)
  moreover have "sorted (map (row_key t) (sort_key (row_key t) (tb_rows t)))" by simp
  ultimately have "sorted_wrt (<) (map (row_key t) (sort_key (row_key t) (tb_rows t)))"
    using strict_sorted_iff by blast
  then show ?thesis by (simp add: listing_def sorted_wrt_rev sorted_wrt_map)
qed

lemma listing_filter: "rev (sort_key (row_key t) (filter P (tb_rows t))) = filter P (listing t)"
  by (simp add: listing_def filter_sort rev_filter [symmetric])

lemma sort_filter: "sort_key (row_key t) (filter P (tb_rows t)) = rev (filter P (listing t))"
  by (simp add: listing_def filter_sort rev_filter)

lemma listing_around:
  assumes "distinct (map (row_key t) (tb_rows t))" and "listing t = xs @ r # ys"
  shows "filter (\<lambda>x. row_key t x < row_key t r) (listing t) = ys"
    and "filter (\<lambda>x. row_key t r < row_key t x) (listing t) = xs"
proof -
  have *: "\<forall>x \<in> set xs. row_key t r < row_key t x" "\<forall>y \<in> set ys. row_key t y < row_key t r"
    using listing_desc [OF assms(1)] by (auto simp: assms(2) sorted_wrt_append)
  then have "filter (\<lambda>x. row_key t x < row_key t r) xs = []" "filter (\<lambda>x. row_key t x < row_key t r) ys = ys"
    "filter (\<lambda>x. row_key t r < row_key t x) xs = xs" "filter (\<lambda>x. row_key t r < row_key t x) ys = []"
    by (auto simp: filter_empty_conv filter_id_conv dest: less_asym)
  then show "filter (\<lambda>x. row_key t x < row_key t r) (listing t) = ys"
    "filter (\<lambda>x. row_key t r < row_key t x) (listing t) = xs"
    by (simp_all add: assms(2))
qed

lemma sql_exists_iff: "sql_rows t (Limit 1 (Where c new_session)) \<noteq> [] \<longleftrightarrow> (\<exists>r \<in> set (listing t). sql_condition t c r)"
  by (auto simp: sql_rows_def Limit_def Where_def new_session_def sql_limit_def sql_order_def filter_empty_conv)

lemma item_cursors_ok:
  "\<forall>r \<in> set rs. computeItemCursor (item_pointer (obj r)) = Ret (Inr (cof r)) \<Longrightarrow> item_cursors obj rs = Ret (Inr (map cof rs))"
  by (induction rs) auto

lemma make_page_Items: "map item (Items (make_page rs (map cof rs) info n)) = rs"
  by (simp add: make_page_def Let_def map2_map_map [of _ id, simplified] comp_def)

lemma set_cursor_row:
  "cursor_ok c \<Longrightarrow> set_cursor msg (Some (Cursor_String c)) = Inr (Some c)"
  by (simp add: set_cursor_def SetString_String)

lemma row_cursor:
  assumes "table_ok t" and "r \<in> set (listing t)"
  shows "cursor_ok (tb_cursor t r)" "cur_ID (tb_cursor t r) \<noteq> []"
    "row_key t r = (instant (cur_CreatedAt (tb_cursor t r)), tb_collate t (cur_ID (tb_cursor t r)))"
  using assms by (auto simp: table_ok_def cursor_ok_def row_key_def cursor_key_def)

text \<open>The existence checks at a row see exactly the rows behind it and before it.\<close>

lemma has_more_at_row:
  assumes "table_ok t" and "listing t = xs @ r # ys"
  shows "hasNextPage (tb_api t) (cur_CreatedAt (tb_cursor t r)) (cur_ID (tb_cursor t r)) = Inr (ys \<noteq> [])"
    and "hasPreviousPage (tb_api t) (cur_CreatedAt (tb_cursor t r)) (cur_ID (tb_cursor t r)) = Inr (xs \<noteq> [])"
proof -
  have d: "distinct (map (row_key t) (tb_rows t))"
    and db: "\<And>q. db_exists (tb_api t) q = Inr (sql_rows t q \<noteq> [])"
    using assms(1) by (auto simp: table_ok_def sql_database_def)
  have r: "r \<in> set (listing t)" by (simp add: assms(2) del: set_listing)
  have key: "(instant (cur_CreatedAt (tb_cursor t r)), tb_collate t (cur_ID (tb_cursor t r))) = row_key t r"
    using row_cursor(3) [OF assms(1) r] by simp
  have "(\<exists>x \<in> set (listing t). row_key t x < row_key t r) = (ys \<noteq> [])"
    "(\<exists>x \<in> set (listing t). row_key t r < row_key t x) = (xs \<noteq> [])"
    using listing_around [OF d assms(2)] by (metis filter_empty_conv)+
  then show "hasNextPage (tb_api t) (cur_CreatedAt (tb_cursor t r)) (cur_ID (tb_cursor t r)) = Inr (ys \<noteq> [])"
    "hasPreviousPage (tb_api t) (cur_CreatedAt (tb_cursor t r)) (cur_ID (tb_cursor t r)) = Inr (xs \<noteq> [])"
    using row_cursor(2) [OF assms(1) r]
    by (simp_all only: hasNextPage_def hasPreviousPage_def hasMoreItems_def if_False db sql_exists_iff
        sql_condition.simps key)
qed

lemma has_next_empty:
  "table_ok t \<Longrightarrow> listing t = [] \<Longrightarrow> hasNextPage (tb_api t) now [] = Inr False"
  using sql_exists_iff [of t "TimeCmp Lt now"]
  by (auto simp: table_ok_def sql_database_def hasNextPage_def hasMoreItemsByTime_def simp del: set_listing)

text \<open>The rows from which a page is cut: the listing, or its part beyond a cursor.\<close>

definition beyond :: "('r, 'k :: linorder) sql_table \<Rightarrow> comparison \<Rightarrow> Cursor option \<Rightarrow> 'r list" where
  "beyond t cmp c = (case c of None \<Rightarrow> listing t
     | Some c \<Rightarrow> filter (sql_condition t (KeyCmp cmp (cur_CreatedAt c) (cur_ID c))) (listing t))"

lemma sql_condition_abs:
  "sql_condition t (KeyCmp Lt at i) = (\<lambda>r. row_key t r < (instant at, tb_collate t i))"
  "sql_condition t (KeyCmp Gt at i) = (\<lambda>r. row_key t r > (instant at, tb_collate t i))"
  by (simp_all add: fun_eq_iff)

lemma query_forward:
  assumes "table_ok t" and "First a = Some (int n)" and "Last a = None"
  shows "queryItems (tb_api t) a = Inr (take n (beyond t Lt (afterCursor a)))"
  using assms
  by (cases "afterCursor a")
    (auto simp: queryItems_def query_all_def forward_session_def find_items_def table_ok_def sql_database_def
      sql_rows_def where_cursor_def Where_def Order_def Limit_def new_session_def sql_limit_def sql_order_def
      listing_filter [unfolded listing_def] beyond_def listing_def sql_condition_abs)

lemma query_backward:
  assumes "table_ok t" and "First a = None" and "Last a = Some (int n)"
  shows "queryItems (tb_api t) a = Inr (rev (take n (rev (beyond t Gt (beforeCursor a)))))"
  using assms
  by (cases "beforeCursor a")
    (auto simp: queryItems_def query_all_def forward_session_def backward_session_def find_items_def table_ok_def
      sql_database_def sql_rows_def where_cursor_def Where_def Order_def Limit_def new_session_def sql_limit_def
      sql_order_def sort_filter [unfolded listing_def] beyond_def listing_def sql_condition_abs)

definition forward_args :: "nat \<Rightarrow> string option \<Rightarrow> Arguments" where
  "forward_args n after = no_arguments\<lparr>First := Some (int n), After := after\<rparr>"

definition backward_args :: "nat \<Rightarrow> string option \<Rightarrow> Arguments" where
  "backward_args n before = no_arguments\<lparr>Last := Some (int n), Before := before\<rparr>"

text \<open>\<open>ListItems\<close> once its queries are answered: only the page information is left to compute.\<close>

lemma list_items_query:
  assumes "table_ok t" and "set_cursor ''decode after cursor'' (After a) = Inr ac"
    and "set_cursor ''decode before cursor'' (Before a) = Inr bc"
    and "afterCursor a = None" and "beforeCursor a = None"
    and "queryItems (tb_api t) (a\<lparr>afterCursor := ac, beforeCursor := bc\<rparr>) = Inr rs"
    and "set rs \<subseteq> set (tb_rows t)"
    and "getPageInfo (tb_api t) (tb_now t) (a\<lparr>afterCursor := ac, beforeCursor := bc\<rparr>)
      (first_of (map (tb_cursor t) rs)) (last_of (map (tb_cursor t) rs)) = Inr info"
  shows "ListItems (tb_api t) (tb_obj t) (tb_now t) a
    = Ret (Inr (make_page rs (map (tb_cursor t) rs) info (int (length (tb_rows t)))))"
proof -
  have "item_cursors (tb_obj t) rs = Ret (Inr (map (tb_cursor t) rs))"
    using assms(1,7) by (intro item_cursors_ok) (auto simp: table_ok_def)
  moreover have "(if After a = None then afterCursor a else ac) = ac" "(if Before a = None then beforeCursor a else bc) = bc"
    using assms(2-5) by (auto simp: set_cursor_def)
  moreover have "db_count (tb_api t) = Inr (int (length (tb_rows t)))"
    using assms(1) by (simp add: table_ok_def sql_database_def)
  ultimately show ?thesis
    using assms(2,3,6,8) unfolding ListItems_def Let_def by simp
qed

lemma first_last_of [simp]:
  "first_of (map f xs) = map_option f (first_of xs)" "last_of (map f xs) = map_option f (last_of xs)"
  "xs \<noteq> [] \<Longrightarrow> last_of xs = Some (last xs)" "last_of [] = None" "first_of [] = None"
  by (auto simp: first_of_def last_of_def last_map split: list.splits)

lemma first_of_Cons: "xs \<noteq> [] \<Longrightarrow> first_of xs = Some (hd xs)"
  by (cases xs) (auto simp: first_of_def)

text \<open>A non-empty page cut from the rows behind a prefix splits the listing at its last row.\<close>

lemma cut_last:
  assumes "listing t = pre @ ys" and "take n ys \<noteq> []"
  shows "listing t = (pre @ butlast (take n ys)) @ last (take n ys) # drop n ys"
  using assms by (metis append_butlast_last_id append_take_drop_id append.assoc append_Cons append_Nil)

lemma beyond_cursor:
  assumes "table_ok t" and "listing t = xs @ r # ys"
  shows "beyond t Lt (Some (tb_cursor t r)) = ys" "beyond t Gt (Some (tb_cursor t r)) = xs"
proof -
  have d: "distinct (map (row_key t) (tb_rows t))" using assms(1) by (simp add: table_ok_def)
  have "r \<in> set (listing t)" by (simp add: assms(2) del: set_listing)
  then have "(instant (cur_CreatedAt (tb_cursor t r)), tb_collate t (cur_ID (tb_cursor t r))) = row_key t r"
    using row_cursor(3) [OF assms(1)] by simp
  then show "beyond t Lt (Some (tb_cursor t r)) = ys" "beyond t Gt (Some (tb_cursor t r)) = xs"
    using listing_around [OF d assms(2)] by (simp_all add: beyond_def sql_condition_abs)
qed

text \<open>The page information of a forward page that starts the listing, and of one behind a row.\<close>

lemma forward_info_first:
  assumes "table_ok t" and "0 < n" and "First a = Some (int n)" and "afterCursor a = None"
  shows "getPageInfo (tb_api t) (tb_now t) a c (last_of (map (tb_cursor t) (take n (listing t))))
    = Inr (empty_info\<lparr>HasNextPage := n < length (listing t), HasPreviousPage := False\<rparr>)"
proof (cases "listing t = []")
  case True
  then show ?thesis
    using assms has_next_empty [OF assms(1) True] by (simp add: getPageInfo_def getForwardPaginationPageInfo_def del: length_listing)
next
  case False
  then have ne: "take n (listing t) \<noteq> []" using assms(2) by simp
  have "(drop n (listing t) \<noteq> []) = (n < length (listing t))" by auto
  with has_more_at_row(1) [OF assms(1) cut_last [of t "[]", OF _ ne, simplified]] ne assms show ?thesis
    by (simp add: getPageInfo_def getForwardPaginationPageInfo_def del: length_listing)
qed

lemma forward_info_after:
  assumes "table_ok t" and "0 < n" and "First a = Some (int n)" and "afterCursor a = Some (tb_cursor t r)"
    and "listing t = xs @ r # ys"
  shows "getPageInfo (tb_api t) (tb_now t) a c (last_of (map (tb_cursor t) (take n ys)))
    = Inr (empty_info\<lparr>HasNextPage := n < length ys, HasPreviousPage := xs \<noteq> [] \<or> ys \<noteq> []\<rparr>)"
proof (cases "ys = []")
  case True
  then show ?thesis
    using assms has_more_at_row [OF assms(1,5)] by (simp add: getPageInfo_def getForwardPaginationPageInfo_def)
next
  case False
  then have ne: "take n ys \<noteq> []" using assms(2) by simp
  have "listing t = ((xs @ [r]) @ butlast (take n ys)) @ last (take n ys) # drop n ys"
    using cut_last [of t "xs @ [r]" ys n] ne assms(5) by simp
  note more = has_more_at_row [OF assms(1) this]
  have "(drop n ys \<noteq> []) = (n < length ys)" by auto
  with more ne assms False show ?thesis
    by (simp add: getPageInfo_def getForwardPaginationPageInfo_def)
qed

lemma make_page_info [simp]:
  "HasNextPage (Info (make_page rs cs info n)) = HasNextPage info"
  "HasPreviousPage (Info (make_page rs cs info n)) = HasPreviousPage info"
  "TotalCount (Info (make_page rs cs info n)) = n"
  by (simp_all add: make_page_def Let_def)

lemma forward_first:
  assumes "table_ok t" and "0 < n"
  shows "ListItems (tb_api t) (tb_obj t) (tb_now t) (forward_args n None)
    = Ret (Inr (make_page (take n (listing t)) (map (tb_cursor t) (take n (listing t)))
        (empty_info\<lparr>HasNextPage := n < length (listing t), HasPreviousPage := False\<rparr>) (int (length (tb_rows t)))))"
proof (rule list_items_query [where ac = None and bc = None])
  show "queryItems (tb_api t) ((forward_args n None)\<lparr>afterCursor := None, beforeCursor := None\<rparr>) = Inr (take n (listing t))"
    using query_forward [OF assms(1), of "(forward_args n None)\<lparr>afterCursor := None, beforeCursor := None\<rparr>" n]
    by (simp add: forward_args_def no_arguments_def beyond_def)
  show "getPageInfo (tb_api t) (tb_now t) ((forward_args n None)\<lparr>afterCursor := None, beforeCursor := None\<rparr>)
      (first_of (map (tb_cursor t) (take n (listing t)))) (last_of (map (tb_cursor t) (take n (listing t))))
    = Inr (empty_info\<lparr>HasNextPage := n < length (listing t), HasPreviousPage := False\<rparr>)"
    using assms by (intro forward_info_first) (simp_all add: forward_args_def no_arguments_def)
  show "set (take n (listing t)) \<subseteq> set (tb_rows t)" using set_take_subset [of n "listing t"] by simp
qed (use assms(1) in \<open>simp_all add: forward_args_def no_arguments_def set_cursor_def\<close>)

lemma forward_after:
  assumes "table_ok t" and "0 < n" and "listing t = xs @ r # ys"
  shows "ListItems (tb_api t) (tb_obj t) (tb_now t) (forward_args n (Some (Cursor_String (tb_cursor t r))))
    = Ret (Inr (make_page (take n ys) (map (tb_cursor t) (take n ys))
        (empty_info\<lparr>HasNextPage := n < length ys, HasPreviousPage := xs \<noteq> [] \<or> ys \<noteq> []\<rparr>) (int (length (tb_rows t)))))"
proof (rule list_items_query [where ac = "Some (tb_cursor t r)" and bc = None])
  let ?a = "(forward_args n (Some (Cursor_String (tb_cursor t r))))\<lparr>afterCursor := Some (tb_cursor t r), beforeCursor := None\<rparr>"
  have r: "r \<in> set (listing t)" by (simp add: assms(3) del: set_listing)
  show "set_cursor ''decode after cursor'' (After (forward_args n (Some (Cursor_String (tb_cursor t r)))))
      = Inr (Some (tb_cursor t r))"
    using set_cursor_row [OF row_cursor(1) [OF assms(1) r]] by (simp add: forward_args_def no_arguments_def)
  show "queryItems (tb_api t) ?a = Inr (take n ys)"
    using query_forward [OF assms(1), of ?a n] beyond_cursor(1) [OF assms(1,3)]
    by (simp add: forward_args_def no_arguments_def)
  show "getPageInfo (tb_api t) (tb_now t) ?a (first_of (map (tb_cursor t) (take n ys)))
      (last_of (map (tb_cursor t) (take n ys)))
    = Inr (empty_info\<lparr>HasNextPage := n < length ys, HasPreviousPage := xs \<noteq> [] \<or> ys \<noteq> []\<rparr>)"
    using assms by (intro forward_info_after) (simp_all add: forward_args_def no_arguments_def)
  have "set ys \<subseteq> set (listing t)" by (auto simp: assms(3) simp del: set_listing)
  then show "set (take n ys) \<subseteq> set (tb_rows t)" using set_take_subset [of n ys] by auto
qed (use assms(1) in \<open>simp_all add: forward_args_def no_arguments_def set_cursor_def\<close>)

text \<open>The paginator as a source of pages, and the items it lists.\<close>

definition sql_page :: "('r, 'k :: linorder) sql_table \<Rightarrow> nat \<Rightarrow> string option \<Rightarrow> 'r Page option" where
  "sql_page t n after =
     (case ListItems (tb_api t) (tb_obj t) (tb_now t) (forward_args n after) of Ret (Inr p) \<Rightarrow> Some p | _ \<Rightarrow> None)"

definition sql_item :: "('r, 'k :: linorder) sql_table \<Rightarrow> 'r \<Rightarrow> 'r Item" where
  "sql_item t r = \<lparr>item = r, item_Cursor = Cursor_String (tb_cursor t r)\<rparr>"

lemma make_page_is:
  assumes "HasNextPage info = follow"
  shows "page_is (make_page rs (map (tb_cursor t) rs) info k) (map (sql_item t) rs) follow"
proof -
  have items: "map2 (\<lambda>r c. \<lparr>item = r, item_Cursor = Cursor_String c\<rparr>) rs (map (tb_cursor t) rs) = map (sql_item t) rs"
    by (induction rs) (simp_all add: sql_item_def)
  show ?thesis
    unfolding page_is_def make_page_def items Let_def using assms
    by (cases rs) (simp_all add: first_of_def last_of_def)
qed

interpretation psql: keyset_source table_ok "\<lambda>t. map (sql_item t) (listing t)" sql_page
proof unfold_locales
  fix t :: "('a, 'b :: linorder) sql_table" and n :: nat
  assume t: "table_ok t" and n: "0 < n"
  show "\<exists>p. sql_page t n None = Some p \<and> page_is p (take n (map (sql_item t) (listing t))) (n < length (map (sql_item t) (listing t)))"
    using forward_first [OF t n] by (simp add: sql_page_def take_map make_page_is del: length_listing)
  fix xs ys and i :: "'a Item"
  assume "map (sql_item t) (listing t) = xs @ i # ys"
  then obtain xs' r ys' where r: "listing t = xs' @ r # ys'" "i = sql_item t r" "ys = map (sql_item t) ys'"
    by (auto simp: map_eq_append_conv map_eq_Cons_conv)
  have "item_Cursor i = Cursor_String (tb_cursor t r)" by (simp add: r(2) sql_item_def)
  with forward_after [OF t n r(1)]
  show "\<exists>p. sql_page t n (Some (item_Cursor i)) = Some p \<and> page_is p (take n ys) (n < length ys)"
    by (simp add: sql_page_def take_map make_page_is r(3))
qed

text \<open>Backward pages, in the same order of rows: the last rows before the cursor.\<close>

lemma rev_take_rev: "rev (take n (rev xs)) = drop (length xs - n) xs"
  by (metis rev_rev_ident rev_take length_rev)

lemma cut_first:
  assumes "listing t = xs @ post" and "drop k xs \<noteq> []"
  shows "listing t = take k xs @ hd (drop k xs) # (tl (drop k xs) @ post)"
  using assms by (metis append_take_drop_id append.assoc append_Cons hd_Cons_tl)

lemma backward_info_before:
  assumes "table_ok t" and "0 < n" and "First a = None" and "beforeCursor a = Some (tb_cursor t r)"
    and "listing t = xs @ r # ys"
  shows "getPageInfo (tb_api t) (tb_now t) a (first_of (map (tb_cursor t) (drop (length xs - n) xs))) c
    = Inr (empty_info\<lparr>HasPreviousPage := n < length xs, HasNextPage := xs \<noteq> [] \<or> ys \<noteq> []\<rparr>)"
proof (cases "xs = []")
  case True
  then show ?thesis
    using assms has_more_at_row [OF assms(1,5)] by (simp add: getPageInfo_def getBackwardPaginationPageInfo_def)
next
  case False
  then have "length xs - n < length xs" using assms(2) by (intro diff_less) auto
  then have ne: "drop (length xs - n) xs \<noteq> []" by simp
  note more = has_more_at_row [OF assms(1) cut_first [OF assms(5) ne]]
  have "(take (length xs - n) xs \<noteq> []) = (n < length xs)" using False by auto
  with more ne assms False show ?thesis
    by (simp add: getPageInfo_def getBackwardPaginationPageInfo_def first_of_Cons)
qed

lemma backward_before:
  assumes "table_ok t" and "0 < n" and "listing t = xs @ r # ys"
  shows "ListItems (tb_api t) (tb_obj t) (tb_now t) (backward_args n (Some (Cursor_String (tb_cursor t r))))
    = Ret (Inr (make_page (drop (length xs - n) xs) (map (tb_cursor t) (drop (length xs - n) xs))
        (empty_info\<lparr>HasPreviousPage := n < length xs, HasNextPage := xs \<noteq> [] \<or> ys \<noteq> []\<rparr>) (int (length (tb_rows t)))))"
proof (rule list_items_query [where ac = None and bc = "Some (tb_cursor t r)"])
  let ?a = "(backward_args n (Some (Cursor_String (tb_cursor t r))))\<lparr>afterCursor := None, beforeCursor := Some (tb_cursor t r)\<rparr>"
  have r: "r \<in> set (listing t)" by (simp add: assms(3) del: set_listing)
  show "set_cursor ''decode before cursor'' (Before (backward_args n (Some (Cursor_String (tb_cursor t r)))))
      = Inr (Some (tb_cursor t r))"
    using set_cursor_row [OF row_cursor(1) [OF assms(1) r]] by (simp add: backward_args_def no_arguments_def)
  show "queryItems (tb_api t) ?a = Inr (drop (length xs - n) xs)"
    using query_backward [OF assms(1), of ?a n] beyond_cursor(2) [OF assms(1,3)]
    by (simp add: backward_args_def no_arguments_def rev_take_rev)
  show "getPageInfo (tb_api t) (tb_now t) ?a (first_of (map (tb_cursor t) (drop (length xs - n) xs)))
      (last_of (map (tb_cursor t) (drop (length xs - n) xs)))
    = Inr (empty_info\<lparr>HasPreviousPage := n < length xs, HasNextPage := xs \<noteq> [] \<or> ys \<noteq> []\<rparr>)"
    using assms by (intro backward_info_before) (simp_all add: backward_args_def no_arguments_def)
  have "set xs \<subseteq> set (listing t)" by (auto simp: assms(3) simp del: set_listing)
  then show "set (drop (length xs - n) xs) \<subseteq> set (tb_rows t)" using set_drop_subset [of "length xs - n" xs] by auto
qed (use assms(1) in \<open>simp_all add: backward_args_def no_arguments_def set_cursor_def\<close>)

text \<open>
  A table with the database that answers by the meaning of the clauses, for examples.
\<close>

definition sql_reference :: "('r, 'k :: linorder) sql_table \<Rightarrow> ('r, 'k) sql_table" where
  "sql_reference t = t\<lparr>tb_api := \<lparr>db_find = (\<lambda>q. Inr (sql_rows t q)), db_count = Inr (int (length (tb_rows t))),
     db_exists = (\<lambda>q. Inr (sql_rows t q \<noteq> []))\<rparr>\<rparr>"

lemma sql_reference_simps [simp]:
  "row_key (sql_reference t) = row_key t" "tb_rows (sql_reference t) = tb_rows t"
  "tb_cursor (sql_reference t) = tb_cursor t" "tb_obj (sql_reference t) = tb_obj t"
  "tb_collate (sql_reference t) = tb_collate t"
  by (simp_all add: sql_reference_def row_key_def cursor_key_def fun_eq_iff)

lemma sql_reference_rows [simp]: "sql_rows (sql_reference t) = sql_rows t"
proof -
  have "sql_condition (sql_reference t) c r = sql_condition t c r" for c r
    by (induction t c r rule: sql_condition.induct) simp_all
  then show ?thesis by (simp add: sql_rows_def sql_order_def fun_eq_iff split: list.splits direction.splits)
qed

lemma sql_reference_database: "sql_database (sql_reference t)"
  by (simp add: sql_database_def) (simp add: sql_reference_def)

definition example_time :: "nat \<Rightarrow> go_time" where
  "example_time d = \<lparr>t_year = 2024, t_month = 1, t_day = Suc d, t_hour = 0, t_min = 0, t_sec = 0, t_nsec = 0, t_offset = 0\<rparr>"

definition example_base :: "(nat, nat) sql_table" where
  "example_base = \<lparr>tb_rows = [0, 1, 2], tb_cursor = (\<lambda>i. \<lparr>cur_ID = ''x'', cur_CreatedAt = example_time i\<rparr>),
     tb_collate = length, tb_obj = (\<lambda>i. ObjStruct \<lparr>rf_fields = [(''ID'', FString ''x''), (''CreatedAt'', FTime (example_time i))], rf_IDField = None\<rparr>),
     tb_api = \<lparr>db_find = (\<lambda>_. Inr []), db_count = Inr 0, db_exists = (\<lambda>_. Inr False)\<rparr>, tb_now = example_time 9\<rparr>"

definition example_table :: "(nat, nat) sql_table" where
  "example_table = sql_reference example_base"

lemma example_instant: "instant (example_time i) = instant (example_time 0) + int i * (86400 * 1000000000)"
  by (simp add: instant_def example_time_def Let_def algebra_simps)

lemma example_table_ok: "table_ok example_table"
proof -
  have "cursor_ok \<lparr>cur_ID = ''x'', cur_CreatedAt = example_time i\<rparr>" if "i < 3" for i
  proof -
    have "instant (example_time 0) = 63839664000000000000"
      by (simp add: instant_def example_time_def Let_def days_before_year_def days_before_month_def)
    with that show ?thesis using example_instant [of i]
      by (simp add: cursor_ok_def IsZero_def rfc3339_ok_def) (simp add: example_time_def daysIn_def)
  qed
  then have "\<forall>r \<in> set (tb_rows example_base). computeItemCursor (item_pointer (tb_obj example_base r)) = Ret (Inr (tb_cursor example_base r))
      \<and> cursor_ok (tb_cursor example_base r)"
    by (simp add: example_base_def cursor_computation)
  moreover have "row_key example_base i = (instant (example_time 0) + int i * 86400000000000, 1)" for i
    using example_instant [of i] by (simp add: row_key_def cursor_key_def example_base_def)
  then have "distinct (map (row_key example_base) (tb_rows example_base))"
    by (simp add: example_base_def)
  ultimately show ?thesis
    by (simp add: table_ok_def example_table_def sql_reference_database)
qed

lemma example_listing: "listing example_table = [2, 1, 0]"
proof -
  have "row_key example_table i = (instant (example_time 0) + int i * 86400000000000, 1)" for i
    using example_instant [of i] by (simp add: example_table_def row_key_def cursor_key_def example_base_def)
  moreover have "tb_rows example_table = [0, 1, 2]" by (simp add: example_table_def example_base_def)
  ultimately have "sort_key (row_key example_table) [0, 1, 2] = [0, 1, 2]"
    by (intro sort_key_id_if_sorted) simp
  then show ?thesis using \<open>tb_rows example_table = [0, 1, 2]\<close> by (simp add: listing_def)
qed

section \<open>Properties\<close>

text \<open>
  C9. Forward pages. Behind the row of the given cursor, \<open>ListItems\<close> returns the next \<open>n\<close> rows of the
  listing, newest first; \<open>HasNextPage\<close> says exactly whether more rows follow them, the total is the
  size of the table, and \<open>HasPreviousPage\<close> is true unless the cursor's row is alone. Without a
  cursor it returns the first \<open>n\<close> rows and \<open>HasPreviousPage\<close> is false.
\<close>

theorem psql_forward_page:
  assumes "table_ok t" and "0 < n"
  shows "(\<exists>p. ListItems (tb_api t) (tb_obj t) (tb_now t) (forward_args n None) = Ret (Inr p)
      \<and> map item (Items p) = take n (listing t) \<and> HasNextPage (Info p) = (n < length (listing t))
      \<and> \<not> HasPreviousPage (Info p) \<and> TotalCount (Info p) = int (length (listing t)))
   \<and> (listing t = xs @ r # ys \<longrightarrow>
      (\<exists>p. ListItems (tb_api t) (tb_obj t) (tb_now t) (forward_args n (Some (Cursor_String (tb_cursor t r)))) = Ret (Inr p)
      \<and> map item (Items p) = take n ys \<and> HasNextPage (Info p) = (n < length ys)
      \<and> HasPreviousPage (Info p) = (xs \<noteq> [] \<or> ys \<noteq> []) \<and> TotalCount (Info p) = int (length (listing t))))"
proof (intro conjI impI)
  show "\<exists>p. ListItems (tb_api t) (tb_obj t) (tb_now t) (forward_args n None) = Ret (Inr p)
      \<and> map item (Items p) = take n (listing t) \<and> HasNextPage (Info p) = (n < length (listing t))
      \<and> \<not> HasPreviousPage (Info p) \<and> TotalCount (Info p) = int (length (listing t))"
    using forward_first [OF assms] by (simp add: make_page_Items)
  assume "listing t = xs @ r # ys"
  from forward_after [OF assms this]
  show "\<exists>p. ListItems (tb_api t) (tb_obj t) (tb_now t) (forward_args n (Some (Cursor_String (tb_cursor t r)))) = Ret (Inr p)
      \<and> map item (Items p) = take n ys \<and> HasNextPage (Info p) = (n < length ys)
      \<and> HasPreviousPage (Info p) = (xs \<noteq> [] \<or> ys \<noteq> []) \<and> TotalCount (Info p) = int (length (listing t))"
    by (simp add: make_page_Items)
qed

theorem psql_forward_page_witness:
  "\<exists>p. ListItems (tb_api example_table) (tb_obj example_table) (tb_now example_table)
     (forward_args 1 (Some (Cursor_String (tb_cursor example_table 2)))) = Ret (Inr p)
     \<and> map item (Items p) = [1] \<and> HasNextPage (Info p) \<and> TotalCount (Info p) = 3"
  using psql_forward_page [OF example_table_ok, of 1 "[]" 2 "[1, 0]"]
  by (fastforce simp: example_listing simp del: length_listing)

text \<open>
  C21. Backward pages keep the order of the listing: before the row of the given cursor, \<open>ListItems\<close>
  returns the last \<open>n\<close> rows, and \<open>HasPreviousPage\<close> says exactly whether rows precede them.
\<close>

theorem psql_backward_page:
  assumes "table_ok t" and "0 < n" and "listing t = xs @ r # ys"
  shows "\<exists>p. ListItems (tb_api t) (tb_obj t) (tb_now t) (backward_args n (Some (Cursor_String (tb_cursor t r)))) = Ret (Inr p)
    \<and> map item (Items p) = drop (length xs - n) xs \<and> HasPreviousPage (Info p) = (n < length xs)
    \<and> HasNextPage (Info p) = (xs \<noteq> [] \<or> ys \<noteq> [])"
  using backward_before [OF assms] by (auto simp: make_page_Items)

theorem psql_backward_page_witness:
  "\<exists>p. ListItems (tb_api example_table) (tb_obj example_table) (tb_now example_table)
     (backward_args 1 (Some (Cursor_String (tb_cursor example_table 0)))) = Ret (Inr p)
     \<and> map item (Items p) = [1] \<and> HasPreviousPage (Info p)"
  using psql_backward_page [OF example_table_ok, of 1 "[2, 1]" 0 "[]"]
  by (fastforce simp: example_listing)

text \<open>
  C2. A client that asks for the first page and, as long as the page information tells it there is a next
  page, for the page behind the end cursor of that information, sees every row of the table exactly once, newest
  first and with its cursor, at any page size; as many requests as there are rows, plus one, are always enough.
\<close>

theorem psql_walk_complete:
  assumes "table_ok t" and "0 < n"
  shows "follow_pages (Suc (length (listing t))) (sql_page t n) None
    = Some (map (\<lambda>r. \<lparr>item = r, item_Cursor = Cursor_String (tb_cursor t r)\<rparr>) (listing t))"
  using psql.follow_all [OF assms, of "Suc (length (listing t))"] by (simp add: sql_item_def [abs_def])

theorem psql_walk_complete_witness:
  "map_option (map item) (follow_pages 4 (sql_page example_table 2) None) = Some [2, 1, 0]"
proof -
  have four: "Suc (length (listing example_table)) = 4" by (simp only: example_listing) simp
  have "follow_pages 4 (sql_page example_table 2) None
      = Some (map (\<lambda>r. \<lparr>item = r, item_Cursor = Cursor_String (tb_cursor example_table r)\<rparr>) (listing example_table))"
    using psql_walk_complete [OF example_table_ok, of 2] unfolding four by simp
  then show ?thesis by (simp only: example_listing) simp
qed

text \<open>
  With both sizes given, the clauses of the forward query stay in the session of the backward
  one: its ordering decides, the limit is that of \<open>Last\<close>, and the reversal turns the page around,
  so that the newest rows come out oldest first.
\<close>

theorem psql_both_sizes:
  assumes "table_ok t" and "First a = Some (int m)" and "Last a = Some (int n)"
    and "afterCursor a = None" and "beforeCursor a = None"
  shows "queryItems (tb_api t) a = Inr (rev (take n (listing t)))"
  using assms
  by (auto simp: queryItems_def query_all_def forward_session_def backward_session_def find_items_def table_ok_def
      sql_database_def sql_rows_def where_cursor_def Where_def Order_def Limit_def new_session_def sql_limit_def
      sql_order_def listing_def)

theorem psql_both_sizes_witness:
  "queryItems (tb_api example_table) (no_arguments\<lparr>First := Some 3, Last := Some 2\<rparr>) = Inr [1, 2]"
  using psql_both_sizes [OF example_table_ok, of "no_arguments\<lparr>First := Some 3, Last := Some 2\<rparr>" 3 2]
  by (simp add: no_arguments_def example_listing numeral_2_eq_2)

text \<open>
  C15. The item types a page can be made of. An item, a struct or a pointer to one, whose ID field is a string or an array of sixteen
  bytes and whose \<open>CreatedAt\<close> is a \<open>time.Time\<close> gets a cursor, whatever its values are. When the type of one of the two fields
  is another, or the field is missing, the answer is an error that is \<open>ErrCursorFieldNotFound\<close> or \<open>ErrCursorInvalidValueType\<close>; for byte
  slices and pointers to times it depends on the value, and only a nil pointer as the time panics. The copy behind a pointer is
  needed: without it the array of sixteen bytes panics.
\<close>

theorem item_cursor_typing:
  assumes "obj = ObjStruct r \<or> obj = ObjPtr r"
  shows "(id_verdict (id_type r) = Accepted \<and> time_verdict (time_type r) = Accepted \<longrightarrow>
      (\<exists>c. computeItemCursor (item_pointer obj) = Ret (Inr c)))
    \<and> (id_verdict (id_type r) = Rejected \<or> time_verdict (time_type r) = Rejected \<longrightarrow>
      (\<exists>e. computeItemCursor (item_pointer obj) = Ret (Inl e)
         \<and> (errors_Is e ErrCursorFieldNotFound \<or> errors_Is e ErrCursorInvalidValueType)))
    \<and> (computeItemCursor (item_pointer obj) = Panic m \<longrightarrow> map_of (rf_fields r) ''CreatedAt'' = Some (FTimePtr None))
    \<and> (map_of (rf_fields r) (id_field_name False r) = Some (FArray ty (Some b)) \<longrightarrow>
      \<not> is_ret (computeItemCursor (ObjStruct r)))"
proof -
  have "computeItemCursor (item_pointer obj) = struct_cursor True r"
    using assms by (auto simp: computeItemCursor_def)
  moreover have "\<not> is_ret (computeItemCursor (ObjStruct r))"
    if "map_of (rf_fields r) (id_field_name False r) = Some (FArray ty (Some b))"
    using that by (simp add: computeItemCursor_def struct_cursor_def cursor_id_def uuid_id_def isUUID_def Let_def)
  ultimately show ?thesis
    using struct_cursor_accepted [of r] struct_cursor_rejected [of r] struct_cursor_panics [of r m]
    unfolding cursor_error_def by simp
qed

theorem item_cursor_typing_witness:
  "(\<exists>c. computeItemCursor (item_pointer (ObjStruct
      \<lparr>rf_fields = [(''ID'', FArray ''uuid.UUID'' (Some (replicate 16 CHR ''a''))), (''CreatedAt'', FTime (example_time 0))],
       rf_IDField = None\<rparr>)) = Ret (Inr c))"
  using item_cursor_typing [where obj = "ObjStruct
      \<lparr>rf_fields = [(''ID'', FArray ''uuid.UUID'' (Some (replicate 16 CHR ''a''))), (''CreatedAt'', FTime (example_time 0))],
       rf_IDField = None\<rparr>", OF disjI1 [OF refl], of m ty b]
  by (simp add: id_type_def time_type_def id_field_name_def UUID_Length_def)

end
