(* ===== verification/Pagination_Redis.thy ===== *)
theory Pagination_Redis
  imports Pagination
begin

text \<open>
  The paginator over a Redis sorted set (\<^verbatim>\<open>src/pagination/redis_pagination.go\<close>). Scores are the
  elements of a linearly ordered type with a text form; the text form (\<open>strconv.FormatFloat\<close> with the
  fewest digits, and \<open>strconv.ParseFloat\<close>) and the server's commands are parameters, gathered in one
  record. \<open>redis_server\<close> states what they are documented to do: the text form is exact, and the commands
  select by score with an open parenthesis for an exclusive bound.
\<close>

section \<open>The server\<close>

record 's redis_api =
  ZCard :: "int result"
  ZRevRange :: "int \<Rightarrow> int \<Rightarrow> (string \<times> 's) list result"
  ZRevRangeByScore :: "string \<Rightarrow> string \<Rightarrow> int \<Rightarrow> (string \<times> 's) list result"
  ZRangeByScore :: "string \<Rightarrow> string \<Rightarrow> int \<Rightarrow> (string \<times> 's) list result"
  ZCount :: "string \<Rightarrow> string \<Rightarrow> int result"
  FormatFloat :: "'s \<Rightarrow> string"
  ParseFloat :: "string \<Rightarrow> 's result"

section \<open>The paginator\<close>

definition formatScore :: "'s redis_api \<Rightarrow> 's \<Rightarrow> string" where
  "formatScore api score = FormatFloat api score"

definition encodeScoreCursor :: "'s redis_api \<Rightarrow> 's \<Rightarrow> string" where
  "encodeScoreCursor api score = b64_encode (formatScore api score)"

definition decodeScoreCursor :: "'s redis_api \<Rightarrow> string \<Rightarrow> 's result" where
  "decodeScoreCursor api cursor =
     (case b64_decode cursor of
        None \<Rightarrow> Inl (wrap_with ''decode cursor base64'' (ErrOther ''base64.CorruptInputError'' ''illegal base64 data''))
      | Some raw \<Rightarrow> ParseFloat api raw)"

definition exclusive :: "'s redis_api \<Rightarrow> 's \<Rightarrow> string" where
  "exclusive api score = CHR ''('' # formatScore api score"

definition queryForward :: "'s redis_api \<Rightarrow> Arguments \<Rightarrow> int \<Rightarrow> (string \<times> 's) list result" where
  "queryForward api a n =
     (case (case After a of
              None \<Rightarrow> Inr ''+inf''
            | Some c \<Rightarrow> (case decodeScoreCursor api c of
                           Inl err \<Rightarrow> Inl (wrap_with ''invalid after cursor'' err)
                         | Inr score \<Rightarrow> Inr (exclusive api score))) of
        Inl err \<Rightarrow> Inl err
      | Inr hi \<Rightarrow> (case ZRevRangeByScore api ''-inf'' hi n of
                     Inl err \<Rightarrow> Inl (wrap_with ''get forward range'' err)
                   | Inr ms \<Rightarrow> Inr ms))"

definition queryBackward :: "'s redis_api \<Rightarrow> Arguments \<Rightarrow> int \<Rightarrow> (string \<times> 's) list result" where
  "queryBackward api a n =
     (case (case Before a of
              None \<Rightarrow> Inr ''-inf''
            | Some c \<Rightarrow> (case decodeScoreCursor api c of
                           Inl err \<Rightarrow> Inl (wrap_with ''invalid before cursor'' err)
                         | Inr score \<Rightarrow> Inr (exclusive api score))) of
        Inl err \<Rightarrow> Inl err
      | Inr lo \<Rightarrow> (case ZRangeByScore api lo ''+inf'' n of
                     Inl err \<Rightarrow> Inl (wrap_with ''get backward range'' err)
                   | Inr ms \<Rightarrow> Inr (rev ms)))"

definition queryMembers :: "'s redis_api \<Rightarrow> Arguments \<Rightarrow> int \<Rightarrow> (string \<times> 's) list result" where
  "queryMembers api a totalCount =
     (case First a of
        Some n \<Rightarrow> queryForward api a n
      | None \<Rightarrow>
          (case Last a of
             Some n \<Rightarrow> queryBackward api a n
           | None \<Rightarrow> (case ZRevRange api 0 (totalCount - 1) of
                        Inl err \<Rightarrow> Inl (wrap_with ''get full range'' err)
                      | Inr ms \<Rightarrow> Inr ms)))"

definition redis_hasNextPage :: "'s redis_api \<Rightarrow> Arguments \<Rightarrow> 's list \<Rightarrow> bool result" where
  "redis_hasNextPage api a scores =
     (if scores = [] then
        (if First a \<noteq> None \<and> After a \<noteq> None then Inr False
         else if Last a \<noteq> None then Inr (Before a \<noteq> None)
         else Inr False)
      else case ZCount api ''-inf'' (exclusive api (last scores)) of
             Inl err \<Rightarrow> Inl (wrap_with ''check next page'' err)
           | Inr n \<Rightarrow> Inr (n > 0))"

definition redis_hasPreviousPage :: "'s redis_api \<Rightarrow> Arguments \<Rightarrow> 's list \<Rightarrow> bool result" where
  "redis_hasPreviousPage api a scores =
     (if scores = [] then
        (if Last a \<noteq> None \<and> Before a \<noteq> None then Inr False
         else if First a \<noteq> None then Inr (After a \<noteq> None)
         else Inr False)
      else case ZCount api (exclusive api (hd scores)) ''+inf'' of
             Inl err \<Rightarrow> Inl (wrap_with ''check previous page'' err)
           | Inr n \<Rightarrow> Inr (n > 0))"

definition buildPage ::
  "'s redis_api \<Rightarrow> 'r list \<Rightarrow> 's list \<Rightarrow> Arguments \<Rightarrow> int \<Rightarrow> 'r Page result" where
  "buildPage api items scores a totalCount =
     (let pageItems = map2 (\<lambda>i s. \<lparr>item = i, item_Cursor = encodeScoreCursor api s\<rparr>) items scores in
      case redis_hasNextPage api a scores of
        Inl err \<Rightarrow> Inl err
      | Inr hasNext \<Rightarrow>
          (case redis_hasPreviousPage api a scores of
             Inl err \<Rightarrow> Inl err
           | Inr hasPrev \<Rightarrow>
               Inr \<lparr>Items = pageItems,
                    Info = \<lparr>HasPreviousPage = hasPrev, HasNextPage = hasNext,
                            StartCursor = (if pageItems = [] then None else Some (item_Cursor (hd pageItems))),
                            EndCursor = (if pageItems = [] then None else Some (item_Cursor (last pageItems))),
                            TotalCount = totalCount\<rparr>\<rparr>))"

definition Redis_ListItems ::
  "'s redis_api \<Rightarrow> (string \<Rightarrow> 's \<Rightarrow> 'r) \<Rightarrow> Arguments \<Rightarrow> 'r Page result" where
  "Redis_ListItems api mapFn a =
     (case ZCard api of
        Inl err \<Rightarrow> Inl (wrap_with ''get total count'' err)
      | Inr totalCount \<Rightarrow>
          if totalCount = 0 then Inr \<lparr>Items = [], Info = empty_info\<rparr>
          else case queryMembers api a totalCount of
                 Inl err \<Rightarrow> Inl err
               | Inr members \<Rightarrow>
                   buildPage api (map (\<lambda>(m, s). mapFn m s) members) (map snd members) a totalCount)"

section \<open>What the paginator relies on\<close>

record ('s, 'r) redis_set =
  rs_members :: "(string \<times> 's) list"
  rs_api :: "'s redis_api"
  rs_mapFn :: "string \<Rightarrow> 's \<Rightarrow> 'r"

text \<open>The members are listed with the highest score first; limits are positive.\<close>

definition redis_server :: "('s :: linorder, 'r) redis_set \<Rightarrow> bool" where
  "redis_server z \<longleftrightarrow>
     (let api = rs_api z; ms = rs_members z; fmt = FormatFloat api in
        sorted_wrt (\<lambda>a b. snd b \<le> snd a) ms
      \<and> ZCard api = Inr (int (length ms))
      \<and> (\<forall>n. ZRevRange api 0 (int n) = Inr (take (Suc n) ms))
      \<and> (\<forall>n > 0. ZRevRangeByScore api ''-inf'' ''+inf'' n = Inr (take (nat n) ms))
      \<and> (\<forall>n > 0. \<forall>s. ZRevRangeByScore api ''-inf'' (CHR ''('' # fmt s) n = Inr (take (nat n) (filter (\<lambda>m. snd m < s) ms)))
      \<and> (\<forall>n > 0. ZRangeByScore api ''-inf'' ''+inf'' n = Inr (take (nat n) (rev ms)))
      \<and> (\<forall>n > 0. \<forall>s. ZRangeByScore api (CHR ''('' # fmt s) ''+inf'' n = Inr (take (nat n) (rev (filter (\<lambda>m. s < snd m) ms))))
      \<and> (\<forall>s. ZCount api ''-inf'' (CHR ''('' # fmt s) = Inr (int (length (filter (\<lambda>m. snd m < s) ms))))
      \<and> (\<forall>s. ZCount api (CHR ''('' # fmt s) ''+inf'' = Inr (int (length (filter (\<lambda>m. s < snd m) ms))))
      \<and> (\<forall>s. ParseFloat api (fmt s) = Inr s))"

text \<open>A cursor is a score: pages are complete only when no two members share one.\<close>

definition redis_ok :: "('s :: linorder, 'r) redis_set \<Rightarrow> bool" where
  "redis_ok z \<longleftrightarrow> redis_server z \<and> distinct (map snd (rs_members z))"

text \<open>The listing as items with their cursors, and the paginator as a source of pages of it.\<close>

definition redis_item :: "('s, 'r) redis_set \<Rightarrow> string \<times> 's \<Rightarrow> 'r Item" where
  "redis_item z m = \<lparr>item = rs_mapFn z (fst m) (snd m), item_Cursor = encodeScoreCursor (rs_api z) (snd m)\<rparr>"

definition redis_page :: "('s, 'r) redis_set \<Rightarrow> nat \<Rightarrow> string option \<Rightarrow> 'r Page option" where
  "redis_page z n after =
     (case Redis_ListItems (rs_api z) (rs_mapFn z) (no_arguments\<lparr>First := Some (int n), After := after\<rparr>) of
        Inl _ \<Rightarrow> None
      | Inr p \<Rightarrow> Some p)"

section \<open>Lemmas\<close>

lemma strict_around:
  assumes "sorted_wrt (\<lambda>a b. snd b \<le> snd a) (xs @ (r :: string \<times> 's :: linorder) # ys)"
    and "distinct (map snd (xs @ r # ys))"
  shows "filter (\<lambda>m. snd m < snd r) (xs @ r # ys) = ys" "filter (\<lambda>m. snd r < snd m) (xs @ r # ys) = xs"
proof -
  have "\<forall>x \<in> set xs. snd r < snd x" "\<forall>y \<in> set ys. snd y < snd r"
    using assms by (auto simp: sorted_wrt_append order.strict_iff_order image_iff)
  then have "filter (\<lambda>m. snd m < snd r) xs = []" "filter (\<lambda>m. snd m < snd r) ys = ys"
    "filter (\<lambda>m. snd r < snd m) xs = xs" "filter (\<lambda>m. snd r < snd m) ys = []"
    by (auto simp: filter_empty_conv filter_id_conv dest: less_asym)
  then show "filter (\<lambda>m. snd m < snd r) (xs @ r # ys) = ys" "filter (\<lambda>m. snd r < snd m) (xs @ r # ys) = xs"
    by simp_all
qed

lemma decode_encode_score:
  "redis_server z \<Longrightarrow> decodeScoreCursor (rs_api z) (encodeScoreCursor (rs_api z) s) = Inr s"
  by (simp add: decodeScoreCursor_def encodeScoreCursor_def formatScore_def b64.dec_enc redis_server_def Let_def)

text \<open>The two existence checks at a member of the set.\<close>

lemma redis_more_at:
  assumes "redis_ok z" and "rs_members z = xs @ r # ys" and "scores \<noteq> []"
  shows "last scores = snd r \<Longrightarrow> redis_hasNextPage (rs_api z) a scores = Inr (ys \<noteq> [])"
    and "hd scores = snd r \<Longrightarrow> redis_hasPreviousPage (rs_api z) a scores = Inr (xs \<noteq> [])"
proof -
  have count: "ZCount (rs_api z) ''-inf'' (CHR ''('' # FormatFloat (rs_api z) s) = Inr (int (length (filter (\<lambda>m. snd m < s) (rs_members z))))"
    "ZCount (rs_api z) (CHR ''('' # FormatFloat (rs_api z) s) ''+inf'' = Inr (int (length (filter (\<lambda>m. s < snd m) (rs_members z))))" for s
    using assms(1) by (simp_all add: redis_ok_def redis_server_def Let_def)
  have "filter (\<lambda>m. snd m < snd r) (rs_members z) = ys" "filter (\<lambda>m. snd r < snd m) (rs_members z) = xs"
    using strict_around [of xs r ys] assms(1,2) by (simp_all add: redis_ok_def redis_server_def Let_def)
  with count assms(3)
  show "last scores = snd r \<Longrightarrow> redis_hasNextPage (rs_api z) a scores = Inr (ys \<noteq> [])"
    "hd scores = snd r \<Longrightarrow> redis_hasPreviousPage (rs_api z) a scores = Inr (xs \<noteq> [])"
    by (simp_all add: redis_hasNextPage_def redis_hasPreviousPage_def exclusive_def formatScore_def)
qed

lemma build_page_is:
  assumes "buildPage (rs_api z) (map (\<lambda>(m, s). rs_mapFn z m s) ms) (map snd ms) a k = Inr p"
  shows "page_is p (map (redis_item z) ms) (HasNextPage (Info p))"
proof -
  have "map2 (\<lambda>i s. \<lparr>item = i, item_Cursor = encodeScoreCursor (rs_api z) s\<rparr>) (map (\<lambda>(m, s). rs_mapFn z m s) ms) (map snd ms)
      = map (redis_item z) ms"
    by (induction ms) (auto simp: redis_item_def)
  with assms show ?thesis
    by (auto simp: buildPage_def Let_def page_is_def split: sum.splits)
qed

lemma redis_forward_page:
  assumes "redis_ok z" and "0 < n" and "rs_members z = pre @ ms" and "rs_members z \<noteq> []"
    and "First a = Some (int n)" and "pre = [] \<longrightarrow> ms \<noteq> []" and "ms = [] \<longrightarrow> After a \<noteq> None"
    and "queryMembers (rs_api z) a (int (length (rs_members z))) = Inr (take n ms)"
  shows "\<exists>p. Redis_ListItems (rs_api z) (rs_mapFn z) a = Inr p \<and> page_is p (map (redis_item z) (take n ms)) (n < length ms)
    \<and> TotalCount (Info p) = int (length (rs_members z))"
proof -
  have next_ok: "redis_hasNextPage (rs_api z) a (map snd (take n ms)) = Inr (n < length ms)"
  proof (cases "ms = []")
    case True
    then show ?thesis using assms(5,7) by (auto simp: redis_hasNextPage_def)
  next
    case False
    define k where "k = take n ms"
    then have k: "k \<noteq> []" "ms = k @ drop n ms" using False assms(2) by auto
    then have "rs_members z = (pre @ butlast k) @ last k # drop n ms"
      using assms(3) by (metis append_butlast_last_id append.assoc append_Cons append_Nil)
    from redis_more_at(1) [OF assms(1) this, of "map snd k"] k(1) show ?thesis
      by (simp add: last_map k_def not_le)
  qed
  have prev_ok: "\<exists>b. redis_hasPreviousPage (rs_api z) a (map snd (take n ms)) = Inr b"
    using assms(1) by (auto simp: redis_hasPreviousPage_def redis_ok_def redis_server_def Let_def exclusive_def formatScore_def)
  have "ZCard (rs_api z) = Inr (int (length (rs_members z)))"
    using assms(1) by (simp add: redis_ok_def redis_server_def Let_def)
  then have "Redis_ListItems (rs_api z) (rs_mapFn z) a
      = buildPage (rs_api z) (map (\<lambda>(m, s). rs_mapFn z m s) (take n ms)) (map snd (take n ms)) a (int (length (rs_members z)))"
    using assms(4,8) by (simp add: Redis_ListItems_def)
  moreover obtain p where p: "buildPage (rs_api z) (map (\<lambda>(m, s). rs_mapFn z m s) (take n ms)) (map snd (take n ms)) a
      (int (length (rs_members z))) = Inr p" "HasNextPage (Info p) = (n < length ms)" "TotalCount (Info p) = int (length (rs_members z))"
    using next_ok prev_ok by (auto simp: buildPage_def Let_def)
  ultimately show ?thesis using build_page_is [OF p(1)] by auto
qed

lemma redis_page_first:
  assumes ok: "redis_ok z" and n: "0 < n"
  shows "\<exists>p. redis_page z n None = Some p \<and> page_is p (map (redis_item z) (take n (rs_members z))) (n < length (rs_members z))"
proof (cases "rs_members z = []")
  case True
  with ok show ?thesis
    by (simp add: redis_page_def Redis_ListItems_def redis_ok_def redis_server_def Let_def page_is_def empty_info_def)
next
  case False
  let ?a = "no_arguments\<lparr>First := Some (int n), After := None\<rparr>"
  have "queryMembers (rs_api z) ?a (int (length (rs_members z))) = Inr (take n (rs_members z))"
    using ok n by (simp add: queryMembers_def queryForward_def no_arguments_def redis_ok_def redis_server_def Let_def)
  from redis_forward_page [OF ok n _ False _ _ _ this, of "[]"] False
  show ?thesis by (auto simp: redis_page_def no_arguments_def)
qed

lemma redis_page_after:
  assumes "redis_ok z" and "0 < n" and "rs_members z = xs @ r # ys"
  shows "\<exists>p. redis_page z n (Some (encodeScoreCursor (rs_api z) (snd r))) = Some p
    \<and> page_is p (map (redis_item z) (take n ys)) (n < length ys)"
proof -
  let ?a = "no_arguments\<lparr>First := Some (int n), After := Some (encodeScoreCursor (rs_api z) (snd r))\<rparr>"
  have srv: "redis_server z" using assms(1) by (simp add: redis_ok_def)
  have "filter (\<lambda>m. snd m < snd r) (rs_members z) = ys"
    using strict_around(1) [of xs r ys] assms by (simp add: redis_ok_def redis_server_def Let_def)
  then have "ZRevRangeByScore (rs_api z) ''-inf'' (CHR ''('' # FormatFloat (rs_api z) (snd r)) (int n) = Inr (take n ys)"
    using srv assms(2) by (simp add: redis_server_def Let_def)
  then have "queryMembers (rs_api z) ?a (int (length (rs_members z))) = Inr (take n ys)"
    using decode_encode_score [OF srv]
    by (simp add: queryMembers_def queryForward_def no_arguments_def exclusive_def formatScore_def)
  from redis_forward_page [OF assms(1,2) _ _ _ _ _ this, of "xs @ [r]"] assms(3)
  show ?thesis by (auto simp: redis_page_def no_arguments_def)
qed

interpretation redis: keyset_source redis_ok "\<lambda>z. map (redis_item z) (rs_members z)" redis_page
proof unfold_locales
  fix z :: "('a :: linorder, 'b) redis_set" and n :: nat
  assume ok: "redis_ok z" and n: "0 < n"
  show "\<exists>p. redis_page z n None = Some p
      \<and> page_is p (take n (map (redis_item z) (rs_members z))) (n < length (map (redis_item z) (rs_members z)))"
    using redis_page_first [OF ok n] by (simp add: take_map)
  fix xs ys and i :: "'b Item"
  assume "map (redis_item z) (rs_members z) = xs @ i # ys"
  then obtain xs' m ys' where m: "rs_members z = xs' @ m # ys'" "i = redis_item z m" "ys = map (redis_item z) ys'"
    by (auto simp: map_eq_append_conv map_eq_Cons_conv)
  have "item_Cursor i = encodeScoreCursor (rs_api z) (snd m)" by (simp add: m(2) redis_item_def)
  with redis_page_after [OF ok n m(1)]
  show "\<exists>p. redis_page z n (Some (item_Cursor i)) = Some p \<and> page_is p (take n ys) (n < length ys)"
    by (simp add: m(3) take_map)
qed

text \<open>
  An example: a server that evaluates the bounds on a list of members, with unary scores.
\<close>

definition unary_api :: "(string \<times> nat) list \<Rightarrow> nat redis_api" where
  "unary_api ms =
     (let below = (\<lambda>b m. b = ''+inf'' \<or> snd m < length (tl b)); above = (\<lambda>b m. b = ''-inf'' \<or> length (tl b) < snd m) in
      \<lparr>ZCard = Inr (int (length ms)), ZRevRange = (\<lambda>_ n. Inr (take (nat (n + 1)) ms)),
       ZRevRangeByScore = (\<lambda>lo hi n. Inr (take (nat n) (filter (below hi) ms))),
       ZRangeByScore = (\<lambda>lo hi n. Inr (take (nat n) (rev (filter (above lo) ms)))),
       ZCount = (\<lambda>lo hi. Inr (int (length (filter (\<lambda>m. above lo m \<and> below hi m) ms)))),
       FormatFloat = (\<lambda>n. replicate n (CHR ''1'')), ParseFloat = (\<lambda>s. Inr (length s))\<rparr>)"

definition unary_set :: "(nat, string) redis_set" where
  "unary_set = \<lparr>rs_members = [(''b'', 7), (''a'', 2)], rs_api = unary_api [(''b'', 7), (''a'', 2)], rs_mapFn = (\<lambda>m s. m)\<rparr>"

lemma unary_set_ok: "redis_ok unary_set"
proof -
  have "nat (int n + 1) = Suc n" for n by simp
  then show ?thesis
    by (simp add: redis_ok_def redis_server_def unary_set_def unary_api_def Let_def)
qed

section \<open>Properties\<close>

text \<open>
  C23. When no two members of the sorted set have the same score, a client that follows the end
  cursors of the page information, as long as it says there is a next page, sees every member exactly once, highest score
  first and with its cursor, at any page size; as many requests as there are members, plus one, are always enough.
\<close>

theorem redis_walk_complete:
  assumes "redis_ok z" and "0 < n"
  shows "follow_pages (Suc (length (rs_members z))) (redis_page z n) None
    = Some (map (\<lambda>(m, s). \<lparr>item = rs_mapFn z m s, item_Cursor = encodeScoreCursor (rs_api z) s\<rparr>) (rs_members z))"
  using redis.follow_all [OF assms, of "Suc (length (rs_members z))"] by (simp add: redis_item_def [abs_def] case_prod_unfold)

theorem redis_walk_complete_witness:
  "map_option (map item) (follow_pages 3 (redis_page unary_set 1) None) = Some [''b'', ''a'']"
proof -
  have "rs_members unary_set = [(''b'', 7), (''a'', 2)]" "rs_mapFn unary_set = (\<lambda>m s. m)" by (simp_all add: unary_set_def)
  then show ?thesis
    using redis_walk_complete [OF unary_set_ok, of 1] by (simp add: numeral_3_eq_3)
qed

text \<open>
  A cursor holds only the score, so members that share the score of a page's last member are
  passed over: the page behind that cursor holds only members of lower score.
\<close>

theorem redis_ties_skipped:
  assumes "redis_server z" and "0 < n" and "decodeScoreCursor (rs_api z) c = Inr s"
  shows "queryMembers (rs_api z) (no_arguments\<lparr>First := Some (int n), After := Some c\<rparr>) k
    = Inr (take n (filter (\<lambda>m. snd m < s) (rs_members z)))"
  using assms
  by (simp add: queryMembers_def queryForward_def no_arguments_def exclusive_def formatScore_def redis_server_def Let_def)

theorem redis_ties_skipped_witness:
  "queryMembers (unary_api [(''b'', 2), (''a'', 2), (''c'', 1)])
     (no_arguments\<lparr>First := Some 1, After := Some (b64_encode ''11'')\<rparr>) 3 = Inr [(''c'', 1)]"
proof -
  let ?z = "\<lparr>rs_members = [(''b'', 2), (''a'', 2), (''c'', 1)], rs_api = unary_api [(''b'', 2), (''a'', 2), (''c'', 1)], rs_mapFn = (\<lambda>m s. m)\<rparr>"
  have "nat (int n + 1) = Suc n" for n by simp
  then have "redis_server ?z" by (simp add: redis_server_def unary_api_def Let_def)
  moreover have "decodeScoreCursor (rs_api ?z) (b64_encode ''11'') = Inr 2"
    unfolding decodeScoreCursor_def b64.dec_enc [OF TrueI] by (simp add: unary_api_def Let_def)
  ultimately show ?thesis
    using redis_ties_skipped [of ?z 1 "b64_encode ''11''" 2 3] by simp
qed

end
