(* ===== verification/Errors_Grpc.thy ===== *)
theory Errors_Grpc
  imports Go_Errors
begin

text \<open>
  Application errors over gRPC (\<^verbatim>\<open>src/errors/errorsgrpc\<close>): the handler that turns an error into a
  status on the server, and the client interceptor that turns the status back. The status package
  of grpc-go is a parameter, a record of the functions used; \<open>grpc_documented\<close> is what its
  documentation promises.
\<close>

section \<open>The status package\<close>

record grpc_lib =
  lib_FromError :: "go_error \<Rightarrow> grpc_status option"
  lib_WithDetails :: "grpc_status \<Rightarrow> status_detail \<Rightarrow> grpc_status result"
  lib_Err :: "grpc_status \<Rightarrow> go_error option"

fun as_status :: "go_error \<Rightarrow> grpc_status option" where
  "as_status (ErrStatus s) = Some s"
| "as_status _ = None"

text \<open>
  \<open>FromError\<close> finds the status of a status error exactly, and no status in an error that holds none
  in its tree; details can be attached to a status that is not OK; \<open>Err\<close> is nil for OK.
\<close>

definition grpc_documented :: "grpc_lib \<Rightarrow> bool" where
  "grpc_documented lib \<longleftrightarrow>
     (\<forall>s. lib_FromError lib (ErrStatus s) = Some s)
   \<and> (\<forall>e. errors_As as_status e = None \<longrightarrow> lib_FromError lib e = None)
   \<and> (\<forall>s d. st_code s \<noteq> OK \<longrightarrow> lib_WithDetails lib s d = Inr (s\<lparr>st_details := st_details s @ [d]\<rparr>))
   \<and> (\<forall>s. lib_Err lib s = (if st_code s = OK then None else Some (ErrStatus s)))"

section \<open>Server side\<close>

definition errorTypeToStatusCode :: "ErrorType \<Rightarrow> grpc_code option" where
  "errorTypeToStatusCode = map_of
     [(ErrorTypeInvalid, InvalidArgument), (ErrorTypeNotFound, NotFound),
      (ErrorTypeUnprocessableContent, Internal), (ErrorTypeUnauthorized, PermissionDenied),
      (ErrorTypeUnauthenticated, Unauthenticated), (ErrorTypeInternalError, Internal)]"

abbreviation ErrNotApplicationError :: go_error where
  "ErrNotApplicationError \<equiv> ErrNew ''given error is not an application error''"

definition MustNewPanicErrorHandler :: "'rep option \<Rightarrow> 'log option \<Rightarrow> ('rep \<times> 'log) go" where
  "MustNewPanicErrorHandler reportErrorer logger =
     (case reportErrorer of
        None \<Rightarrow> Panic ''nil error reporter''
      | Some r \<Rightarrow> (case logger of None \<Rightarrow> Panic ''nil logger'' | Some l \<Rightarrow> Ret (r, l)))"

definition IsApplicationError :: "go_error \<Rightarrow> bool" where
  "IsApplicationError err = (As_Error err \<noteq> None)"

definition errorToErrorResponse :: "Error \<Rightarrow> status_detail" where
  "errorToErrorResponse e = ErrorResponse (Code e) (Message e)"

text \<open>The error of a failed attachment wraps the given error, as the source does.\<close>

definition ErrorToGRPCStatus :: "grpc_lib \<Rightarrow> go_error \<Rightarrow> grpc_status result" where
  "ErrorToGRPCStatus lib err =
     (case lib_FromError lib err of
        Some s \<Rightarrow> Inr s
      | None \<Rightarrow>
          (case As_Error err of
             None \<Rightarrow> Inl ErrNotApplicationError
           | Some e \<Rightarrow>
               (let code = (case errorTypeToStatusCode (Type e) of Some c \<Rightarrow> c | None \<Rightarrow> Unknown);
                    grpcStatus = \<lparr>st_code = code, st_message = Type e, st_details = []\<rparr>
                in case lib_WithDetails lib grpcStatus (errorToErrorResponse e) of
                     Inl _ \<Rightarrow> Inl (wrap_with ''attach details'' err)
                   | Inr s \<Rightarrow> Inr s)))"

definition ReportPanic :: "('ctx \<Rightarrow> go_error \<Rightarrow> go_error option) \<Rightarrow> 'ctx \<Rightarrow> string \<Rightarrow> go_error option" where
  "ReportPanic reportError ctx p =
     reportError ctx (ErrApp \<lparr>Type = ErrorTypePanic, Code = [], Message = p, InternalMessage = [], ErrorDetails = []\<rparr>)"

definition ReportError :: "('ctx \<Rightarrow> go_error \<Rightarrow> go_error option) \<Rightarrow> 'ctx \<Rightarrow> go_error \<Rightarrow> go_error option" where
  "ReportError reportError ctx err = reportError ctx err"

section \<open>Client side\<close>

text \<open>\<open>err\<close> is what the invoker returned.\<close>

definition UnmarshalErrorUnaryClientInterceptor :: "grpc_lib \<Rightarrow> go_error option \<Rightarrow> go_error option" where
  "UnmarshalErrorUnaryClientInterceptor lib err =
     (case err of
        None \<Rightarrow> None
      | Some e \<Rightarrow>
          (case lib_FromError lib e of
             None \<Rightarrow> Some e
           | Some sts \<Rightarrow>
               (case st_details sts of
                  [ErrorResponse c m] \<Rightarrow>
                    Some (ErrApp \<lparr>Type = st_message sts, Code = c, Message = m, InternalMessage = [], ErrorDetails = []\<rparr>)
                | _ \<Rightarrow> Some e)))"

section \<open>Lemmas\<close>

lemma status_code_not_ok:
  "(case errorTypeToStatusCode t of Some c \<Rightarrow> c | None \<Rightarrow> Unknown) \<noteq> OK"
  by (auto simp: errorTypeToStatusCode_def)

lemma to_status:
  assumes "grpc_documented lib" and "As_Error err = Some e" and "errors_As as_status err = None"
  shows "ErrorToGRPCStatus lib err
    = Inr \<lparr>st_code = (case errorTypeToStatusCode (Type e) of Some c \<Rightarrow> c | None \<Rightarrow> Unknown),
           st_message = Type e, st_details = [ErrorResponse (Code e) (Message e)]\<rparr>"
  using assms status_code_not_ok [of "Type e"]
  by (simp add: ErrorToGRPCStatus_def grpc_documented_def Let_def errorToErrorResponse_def)

text \<open>What the client makes of that status: the error without its internal message and details.\<close>

lemma app_received:
  assumes "grpc_documented lib"
    and "s = \<lparr>st_code = (case errorTypeToStatusCode (Type e) of Some c \<Rightarrow> c | None \<Rightarrow> Unknown),
           st_message = Type e, st_details = [ErrorResponse (Code e) (Message e)]\<rparr>"
  shows "lib_Err lib s = Some (ErrStatus s)"
    and "UnmarshalErrorUnaryClientInterceptor lib (Some (ErrStatus s))
      = Some (ErrApp \<lparr>Type = Type e, Code = Code e, Message = Message e, InternalMessage = [], ErrorDetails = []\<rparr>)"
  using assms status_code_not_ok [of "Type e"]
  by (simp_all add: grpc_documented_def UnmarshalErrorUnaryClientInterceptor_def)

text \<open>A library that does what is documented, for examples.\<close>

definition example_lib :: grpc_lib where
  "example_lib = \<lparr>lib_FromError = errors_As as_status,
     lib_WithDetails = (\<lambda>s d. if st_code s = OK then Inl (ErrNew ''no error details for status with code OK'')
                               else Inr (s\<lparr>st_details := st_details s @ [d]\<rparr>)),
     lib_Err = (\<lambda>s. if st_code s = OK then None else Some (ErrStatus s))\<rparr>"

lemma example_lib_documented: "grpc_documented example_lib"
  by (simp add: grpc_documented_def example_lib_def)

section \<open>Properties\<close>

text \<open>
  C6. An application error crosses a gRPC call: whatever wraps it on the server, the client
  interceptor rebuilds an error with its type, code and message, so that \<open>IsErrorType\<close> and
  \<open>IsErrorCode\<close> give the same answers on both sides. Its internal message and details stay on the
  server. The status code is \<open>Unknown\<close> for the types missing in the table, among them conflict.
\<close>

theorem app_error_crosses_grpc:
  assumes "grpc_documented lib" and "As_Error err = Some e" and "errors_As as_status err = None"
  shows "\<exists>s sent received.
    ErrorToGRPCStatus lib err = Inr s \<and> lib_Err lib s = Some sent
    \<and> UnmarshalErrorUnaryClientInterceptor lib (Some sent) = Some received
    \<and> received = ErrApp \<lparr>Type = Type e, Code = Code e, Message = Message e, InternalMessage = [], ErrorDetails = []\<rparr>
    \<and> (IsErrorType received ty \<longleftrightarrow> IsErrorType err ty) \<and> (IsErrorCode received c \<longleftrightarrow> IsErrorCode err c)
    \<and> (Type e = ErrorTypeConflict \<or> Type e = ErrorTypePanic \<longrightarrow> st_code s = Unknown)"
proof -
  define s where "s = \<lparr>st_code = (case errorTypeToStatusCode (Type e) of Some c \<Rightarrow> c | None \<Rightarrow> Unknown),
      st_message = Type e, st_details = [ErrorResponse (Code e) (Message e)]\<rparr>"
  have "ErrorToGRPCStatus lib err = Inr s" using to_status [OF assms] by (simp add: s_def)
  moreover have "Type e = ErrorTypeConflict \<or> Type e = ErrorTypePanic \<longrightarrow> st_code s = Unknown"
    by (auto simp: s_def errorTypeToStatusCode_def)
  ultimately show ?thesis
    using assms(2) app_received [OF assms(1) s_def] by (auto simp: IsErrorType_def IsErrorCode_def)
qed

theorem app_error_crosses_grpc_witness:
  "\<exists>s sent. ErrorToGRPCStatus example_lib (ErrWrap ''\"Get\": x'' (ErrApp \<lparr>Type = ErrorTypeConflict, Code = ''dup'',
        Message = ''exists'', InternalMessage = ''row 7'', ErrorDetails = []\<rparr>)) = Inr s
     \<and> lib_Err example_lib s = Some sent \<and> st_code s = Unknown
     \<and> UnmarshalErrorUnaryClientInterceptor example_lib (Some sent)
       = Some (ErrApp \<lparr>Type = ErrorTypeConflict, Code = ''dup'', Message = ''exists'', InternalMessage = [], ErrorDetails = []\<rparr>)"
  using app_error_crosses_grpc [OF example_lib_documented, where err = "ErrWrap ''\"Get\": x'' (ErrApp \<lparr>Type = ErrorTypeConflict,
        Code = ''dup'', Message = ''exists'', InternalMessage = ''row 7'', ErrorDetails = []\<rparr>)"]
  by fastforce

text \<open>
  The client interceptor leaves every other error alone: no error, an error without a status, a
  status without exactly one error response.
\<close>

theorem client_keeps_other_errors:
  assumes "grpc_documented lib" and "\<not> (\<exists>c m. st_details s = [ErrorResponse c m])"
  shows "UnmarshalErrorUnaryClientInterceptor lib None = None
    \<and> UnmarshalErrorUnaryClientInterceptor lib (Some (ErrStatus s)) = Some (ErrStatus s)
    \<and> UnmarshalErrorUnaryClientInterceptor lib (Some (ErrNew t)) = Some (ErrNew t)"
  using assms
  by (auto simp: UnmarshalErrorUnaryClientInterceptor_def grpc_documented_def
      split: list.splits status_detail.splits)

end
