(* ===== verification/Grpc_Server.thy ===== *)
theory Grpc_Server
  imports Errors_Grpc Go_BigInt
begin

text \<open>
  The gRPC server's request path (\<^verbatim>\<open>src/grpc/grpc_server.go\<close>, \<^verbatim>\<open>server_2.go\<close>, \<^verbatim>\<open>util.go\<close>,
  \<^verbatim>\<open>grpcutils\<close>): error handling, panic recovery, logging and monitoring interceptors, the chain that
  \<open>newGRPCServer\<close> builds from them, and the listener's address. A handler runs in a context and
  yields the trace of what was logged and reported, and a response with an error, or a panic. The
  interceptors of other packages (recovery, monitoring) are parameters.
\<close>

section \<open>Handlers and interceptors\<close>

datatype server_event =
  EvLogError go_error | EvReportError go_error | EvLogPanic string | EvReportPanic string
| EvDebug string string

text \<open>The parts of a request context that are read: the trace id of its span, if any, and the metadata.\<close>

record rpc_ctx =
  c_trace :: "string option"
  c_incoming :: "(string \<times> string list) list option"
  c_outgoing :: "(string \<times> string) list"

type_synonym 'r run = "server_event list \<times> ('r option \<times> go_error option) go"
type_synonym 'r handler = "rpc_ctx \<Rightarrow> 'r run"
type_synonym 'r interceptor = "string \<Rightarrow> rpc_ctx \<Rightarrow> 'r handler \<Rightarrow> 'r run"

abbreviation context_Canceled :: go_error where
  "context_Canceled \<equiv> ErrNew ''context canceled''"

text \<open>\<open>path.Base\<close> of a method name: what follows the last slash, trailing slashes removed.\<close>

definition path_Base :: "string \<Rightarrow> string" where
  "path_Base p =
     (let q = rev (dropWhile (\<lambda>c. c = CHR ''/'') (rev p)) in
      if p = [] then ''.'' else if q = [] then ''/'' else rev (takeWhile (\<lambda>c. c \<noteq> CHR ''/'') (rev q)))"

section \<open>Request ids\<close>

abbreviation ErrMetadataNotFound :: go_error where "ErrMetadataNotFound \<equiv> ErrNew ''metadata not found''"
abbreviation ErrRequestIDNotPresent :: go_error where "ErrRequestIDNotPresent \<equiv> ErrNew ''request id not present''"
abbreviation requestIDHeader :: string where "requestIDHeader \<equiv> ''x-request-id''"

definition md_get :: "(string \<times> string list) list \<Rightarrow> string \<Rightarrow> string list" where
  "md_get md k = (case map_of md k of None \<Rightarrow> [] | Some vs \<Rightarrow> vs)"

definition GetRequestIDFromCtx :: "rpc_ctx \<Rightarrow> string result" where
  "GetRequestIDFromCtx ctx =
     (case c_trace ctx of
        Some t \<Rightarrow> Inr t
      | None \<Rightarrow>
          (case c_incoming ctx of
             None \<Rightarrow> Inl ErrMetadataNotFound
           | Some md \<Rightarrow> (case md_get md requestIDHeader of [x] \<Rightarrow> Inr x | _ \<Rightarrow> Inl ErrRequestIDNotPresent)))"

definition AppendRequestIDCtx :: "rpc_ctx \<Rightarrow> string \<Rightarrow> rpc_ctx" where
  "AppendRequestIDCtx ctx requestID = ctx\<lparr>c_outgoing := c_outgoing ctx @ [(requestIDHeader, requestID)]\<rparr>"

definition SetOutgoingRequestIDFromIncoming :: "rpc_ctx \<Rightarrow> rpc_ctx" where
  "SetOutgoingRequestIDFromIncoming ctx =
     (case c_incoming ctx of
        None \<Rightarrow> ctx
      | Some md \<Rightarrow> (case md_get md requestIDHeader of
                      [x] \<Rightarrow> ctx\<lparr>c_outgoing := c_outgoing ctx @ [(requestIDHeader, x)]\<rparr>
                    | _ \<Rightarrow> ctx))"

definition PassRequestIDUnaryInterceptor :: "'r interceptor" where
  "PassRequestIDUnaryInterceptor m ctx handler = handler (SetOutgoingRequestIDFromIncoming ctx)"

text \<open>The health check of a client connection, on the answer of the Check call.\<close>

definition CheckHealth :: "string result \<Rightarrow> go_error option" where
  "CheckHealth answer =
     (case answer of
        Inl err \<Rightarrow> Some (wrap_with ''check'' err)
      | Inr st \<Rightarrow> if st \<noteq> ''SERVING''
                  then Some (ErrWrap (''received unexpected status \"'' @ st @ ''\": service unavailable'') (ErrNew ''service unavailable''))
                  else None)"

section \<open>Error handling\<close>

record error_handler =
  eh_IsApplicationError :: "go_error \<Rightarrow> bool"
  eh_ErrorToGRPCStatus :: "go_error \<Rightarrow> grpc_status result"

text \<open>\<open>isGRPCStatus\<close> unwraps as far as \<open>errors.Unwrap\<close> goes; a join has no single cause and ends it.\<close>

fun root_cause :: "go_error \<Rightarrow> go_error" where
  "root_cause (ErrWrap t e) = root_cause e"
| "root_cause e = e"

definition isGRPCStatus :: "grpc_lib \<Rightarrow> go_error \<Rightarrow> grpc_status option" where
  "isGRPCStatus lib err = lib_FromError lib (root_cause err)"

definition HandleError ::
  "grpc_lib \<Rightarrow> error_handler \<Rightarrow> go_error \<Rightarrow> server_event list \<times> go_error option" where
  "HandleError lib eh err =
     (if errors_Is err context_Canceled then ([EvLogError err], None)
      else if errors_Is err context_Canceled then
        ([EvLogError err], lib_Err lib \<lparr>st_code = Internal, st_message = ''context cancelled.'', st_details = []\<rparr>)
      else if eh_IsApplicationError eh err then
        (case eh_ErrorToGRPCStatus eh err of
           Inr sts \<Rightarrow> ([EvLogError err], lib_Err lib sts)
         | Inl e \<Rightarrow>
             let errs = ErrJoin [wrap_with ''error to grpc status'' e, err]
             in ([EvLogError err, EvLogError errs, EvReportError errs],
                 lib_Err lib \<lparr>st_code = Internal, st_message = error_text errs, st_details = []\<rparr>))
      else (case isGRPCStatus lib err of
              Some s \<Rightarrow> ([EvLogError err], lib_Err lib s)
            | None \<Rightarrow> ([EvLogError err, EvReportError err],
                       lib_Err lib \<lparr>st_code = Internal, st_message = error_text err, st_details = []\<rparr>)))"

definition error_interceptor :: "grpc_lib \<Rightarrow> error_handler \<Rightarrow> 'r interceptor" where
  "error_interceptor lib eh m ctx handler =
     (case handler ctx of
        (evs, Ret (resp, None)) \<Rightarrow> (evs, Ret (resp, None))
      | (evs, Ret (resp, Some err)) \<Rightarrow>
          (let (evs', r) = HandleError lib eh (wrap_with (CHR 0x22 # path_Base m @ [CHR 0x22]) err)
           in (evs @ evs', Ret (None, r)))
      | (evs, Panic p) \<Rightarrow> (evs, Panic p))"

definition prependServerOptions :: "'r interceptor \<Rightarrow> 'r interceptor list \<Rightarrow> 'r interceptor list" where
  "prependServerOptions i is = i # is"

definition prependErrorHandler ::
  "grpc_lib \<Rightarrow> 'r interceptor list \<Rightarrow> error_handler \<Rightarrow> 'r interceptor list" where
  "prependErrorHandler lib is eh = prependServerOptions (error_interceptor lib eh) is"

section \<open>Panic recovery\<close>

text \<open>The panic handler of the application: whether reporting the panic fails.\<close>

type_synonym panic_handler = "string \<Rightarrow> go_error option"

definition newRecoveryFunc :: "panic_handler \<Rightarrow> string \<Rightarrow> server_event list \<times> go_error" where
  "newRecoveryFunc ph p =
     ([EvLogPanic p, EvReportPanic p] @
        (case ph p of None \<Rightarrow> []
         | Some e \<Rightarrow> [EvLogError (wrap_with (''error while reporting panic \"'' @ p @ ''\"'') e)]),
      ErrStatus \<lparr>st_code = Internal, st_message = ''internal error.'', st_details = []\<rparr>)"

text \<open>The recovery interceptor of the middleware package, given its handler, and what it does.\<close>

type_synonym 'r recovery = "(string \<Rightarrow> server_event list \<times> go_error) \<Rightarrow> 'r interceptor"

definition recovers :: "'r recovery \<Rightarrow> bool" where
  "recovers recovery \<longleftrightarrow> (\<forall>f m ctx h. recovery f m ctx h =
     (case h ctx of
        (evs, Ret r) \<Rightarrow> (evs, Ret r)
      | (evs, Panic p) \<Rightarrow> (evs @ fst (f p), Ret (None, Some (snd (f p))))))"

definition prependPanicHandler ::
  "'r recovery \<Rightarrow> 'r interceptor list \<Rightarrow> panic_handler \<Rightarrow> 'r interceptor list" where
  "prependPanicHandler recovery is ph = prependServerOptions (recovery (newRecoveryFunc ph)) is"

section \<open>Logging and monitoring\<close>

record logging =
  ignoredMethods :: "string list"
  logRequest :: bool

definition uuid_Nil :: string where
  "uuid_Nil = ''00000000-0000-0000-0000-000000000000''"

definition request_id :: "rpc_ctx \<Rightarrow> string" where
  "request_id ctx = (case GetRequestIDFromCtx ctx of Inl _ \<Rightarrow> uuid_Nil | Inr x \<Rightarrow> x)"

definition debug_interceptor :: "logging \<Rightarrow> 'r interceptor" where
  "debug_interceptor lg m ctx handler =
     (if path_Base m \<in> set (ignoredMethods lg) then handler ctx
      else let rid = request_id ctx in
           case handler ctx of
             (evs, Ret (resp, err)) \<Rightarrow>
               (EvDebug ''request started'' rid # evs
                @ [EvDebug (if err = None then ''request completed successfully'' else ''request completed with error'') rid],
                Ret (resp, err))
           | (evs, Panic p) \<Rightarrow> (EvDebug ''request started'' rid # evs, Panic p))"

text \<open>The logging options are shared by pointer: the ignored methods grow with every server built from them.\<close>

definition prependDebugInterceptor ::
  "'r interceptor list \<Rightarrow> logging \<Rightarrow> logging \<times> 'r interceptor list" where
  "prependDebugInterceptor is lg =
     (let lg' = lg\<lparr>ignoredMethods := ignoredMethods lg @ [''Check'', ''Watch'']\<rparr>
      in (lg', prependServerOptions (debug_interceptor lg') is))"

text \<open>
  The monitor runs the operation it is given, or not: a parameter that maps the handler's run to
  its own (None when it did not run the operation, so that response and error stay nil).
\<close>

type_synonym 'r monitor = "rpc_ctx \<Rightarrow> string \<Rightarrow> string \<Rightarrow> 'r run \<Rightarrow> 'r run option"

definition newMonitorOperationUnaryInterceptor :: "(string \<Rightarrow> string) \<Rightarrow> 'r monitor \<Rightarrow> 'r interceptor" where
  "newMonitorOperationUnaryInterceptor uuid_Parse monitor m ctx handler =
     (if m = ''/grpc.health.v1.Health/Check'' then handler ctx
      else case monitor ctx m (uuid_Parse (request_id ctx)) (handler ctx) of
             None \<Rightarrow> ([], Ret (None, None))
           | Some (evs, Ret (resp, Some err)) \<Rightarrow> (evs, Ret (None, Some err))
           | Some (evs, Ret (resp, None)) \<Rightarrow> (evs, Ret (resp, None))
           | Some (evs, Panic p) \<Rightarrow> (evs, Panic p))"

section \<open>The listener\<close>

text \<open>\<open>net.SplitHostPort\<close> and \<open>strconv.Atoi\<close> of the standard library.\<close>

definition last_colon :: "string \<Rightarrow> nat option" where
  "last_colon s = (if CHR '':'' \<in> set s then Some (length s - 1 - length (takeWhile (\<lambda>c. c \<noteq> CHR '':'') (rev s))) else None)"

definition addr_error :: "string \<Rightarrow> string \<Rightarrow> go_error" where
  "addr_error why a = ErrOther ''*net.AddrError'' (''address '' @ a @ '': '' @ why)"

definition SplitHostPort :: "string \<Rightarrow> (string \<times> string) result" where
  "SplitHostPort a =
     (case last_colon a of
        None \<Rightarrow> Inl (addr_error ''missing port in address'' a)
      | Some i \<Rightarrow>
          if a ! 0 = CHR ''['' then
            (let e = length (takeWhile (\<lambda>c. c \<noteq> CHR '']'') a) in
             if e = length a then Inl (addr_error ''missing ']' in address'' a)
             else if e + 1 = length a then Inl (addr_error ''missing port in address'' a)
             else if e + 1 \<noteq> i then
               Inl (addr_error (if a ! (e + 1) = CHR '':'' then ''too many colons in address'' else ''missing port in address'') a)
             else if CHR ''['' \<in> set (drop 1 a) then Inl (addr_error ''unexpected '[' in address'' a)
             else if CHR '']'' \<in> set (drop (e + 1) a) then Inl (addr_error ''unexpected ']' in address'' a)
             else Inr (take (e - 1) (drop 1 a), drop (i + 1) a))
          else if CHR '':'' \<in> set (take i a) then Inl (addr_error ''too many colons in address'' a)
          else if CHR ''['' \<in> set a then Inl (addr_error ''unexpected '[' in address'' a)
          else if CHR '']'' \<in> set a then Inl (addr_error ''unexpected ']' in address'' a)
          else Inr (take i a, drop (i + 1) a))"

fun digits_val :: "int \<Rightarrow> string \<Rightarrow> int option" where
  "digits_val acc [] = Some acc"
| "digits_val acc (c # cs) =
     (let d = of_char c - 48 :: int in if 0 \<le> d \<and> d \<le> 9 then digits_val (10 * acc + d) cs else None)"

definition strconv_Atoi :: "string \<Rightarrow> int result" where
  "strconv_Atoi s =
     (let bad = ErrOther ''*strconv.NumError'' (''strconv.Atoi: parsing '' @ s);
          (neg, ds) = (case s of
             c # r \<Rightarrow> if c = CHR ''-'' then (True, r) else if c = CHR ''+'' then (False, r) else (False, s)
           | [] \<Rightarrow> (False, s))
      in if ds = [] then Inl bad
         else case digits_val 0 ds of
                None \<Rightarrow> Inl bad
              | Some n \<Rightarrow> (let v = (if neg then - n else n) in
                           if - (2 ^ 63) \<le> v \<and> v < 2 ^ 63 then Inr v else Inl bad))"

text \<open>The address that is listened on: host and port minus one, joined without brackets.\<close>

definition listen_address :: "string \<Rightarrow> int \<Rightarrow> string" where
  "listen_address host port = host @ CHR '':'' # dec_int (port - 1)"

definition newGRPCListener ::
  "(string \<Rightarrow> 'lis result) \<Rightarrow> 'lis option \<Rightarrow> string \<Rightarrow> 'lis result" where
  "newGRPCListener net_Listen defaultListener a =
     (case defaultListener of
        Some l \<Rightarrow> Inr l
      | None \<Rightarrow>
          (case SplitHostPort a of
             Inl err \<Rightarrow> Inl (wrap_with ''invalid address'' err)
           | Inr (host, portString) \<Rightarrow>
               (case strconv_Atoi portString of
                  Inl err \<Rightarrow> Inl (wrap_with ''parse port'' err)
                | Inr port \<Rightarrow>
                    (case net_Listen (listen_address host port) of
                       Inl err \<Rightarrow> Inl (wrap_with ''new net listener'' err)
                     | Inr l \<Rightarrow> Inr l))))"

section \<open>Building the server\<close>

text \<open>
  An interface value: nil, a typed nil pointer, or a usable value. Other packages' options are
  opaque.
\<close>

datatype 'h iface = NilIface | NilPtr | Value 'h

fun iface_value :: "'h iface \<Rightarrow> 'h option" where
  "iface_value (Value h) = Some h"
| "iface_value _ = None"

definition isErrorHandlerNil :: "error_handler iface \<Rightarrow> bool" where
  "isErrorHandlerNil c \<longleftrightarrow> c = NilIface \<or> c = NilPtr"

definition isPanicHandlerNil :: "panic_handler iface \<Rightarrow> bool" where
  "isPanicHandlerNil c \<longleftrightarrow> iface_value c = None"

definition isMonitorOperationerNil :: "'r monitor iface \<Rightarrow> bool" where
  "isMonitorOperationerNil c \<longleftrightarrow> iface_value c = None"

record ('r, 'x, 'lis) grpcServer =
  gs_options :: "'x list"
  gs_interceptors :: "'r interceptor list"
  gs_listener :: 'lis
  gs_closed :: bool

definition setGRPCTracing :: "go_error option \<Rightarrow> 'x \<Rightarrow> 'x list \<Rightarrow> 'x list result" where
  "setGRPCTracing exporterErr statsHandler opts =
     (case exporterErr of
        Some err \<Rightarrow> Inl (wrap_with ''new exporter'' err)
      | None \<Rightarrow> Inr (opts @ [statsHandler]))"

text \<open>What \<open>newGRPCServer\<close> calls of other packages.\<close>

record ('r, 'x, 'lis) grpc_env =
  env_lib :: grpc_lib
  env_recovery :: "'r recovery"
  env_uuid_Parse :: "string \<Rightarrow> string"
  env_Listen :: "string \<Rightarrow> 'lis result"
  env_exporterErr :: "go_error option"
  env_statsHandler :: 'x
  env_ChainUnary :: "'r interceptor list \<Rightarrow> 'x"

definition server_interceptors ::
  "('r, 'x, 'lis) grpc_env \<Rightarrow> 'r interceptor list \<Rightarrow> logging option \<Rightarrow> error_handler iface
   \<Rightarrow> panic_handler iface \<Rightarrow> 'r monitor iface \<Rightarrow> logging option \<times> 'r interceptor list" where
  "server_interceptors env is lg eh ph mon =
     (let is = (if isErrorHandlerNil eh then is
                else case eh of Value h \<Rightarrow> prependErrorHandler (env_lib env) is h | _ \<Rightarrow> is);
          is = (case iface_value ph of None \<Rightarrow> is | Some h \<Rightarrow> prependPanicHandler (env_recovery env) is h);
          (lg, is) = (case lg of None \<Rightarrow> (None, is)
                      | Some l \<Rightarrow> (let (l', is') = prependDebugInterceptor is l in (Some l', is')))
      in (lg, case iface_value mon of None \<Rightarrow> is
              | Some mo \<Rightarrow> is @ [newMonitorOperationUnaryInterceptor (env_uuid_Parse env) mo]))"

definition newGRPCServer ::
  "('r, 'x, 'lis) grpc_env \<Rightarrow> 'lis option \<Rightarrow> string \<Rightarrow> bool \<Rightarrow> 'x list \<Rightarrow> 'r interceptor list
   \<Rightarrow> logging option \<Rightarrow> error_handler iface \<Rightarrow> panic_handler iface \<Rightarrow> 'r monitor iface
   \<Rightarrow> (logging option \<times> ('r, 'x, 'lis) grpcServer) result" where
  "newGRPCServer env lis address tracing opts is lg eh ph mon =
     (case newGRPCListener (env_Listen env) lis address of
        Inl err \<Rightarrow> Inl (wrap_with ''new grpc listener'' err)
      | Inr l \<Rightarrow>
          (case (if tracing then setGRPCTracing (env_exporterErr env) (env_statsHandler env) opts else Inr opts) of
             Inl err \<Rightarrow> Inl (wrap_with ''set grpc tracing tracing'' err)
           | Inr opts \<Rightarrow>
               (let (lg', is') = server_interceptors env is lg eh ph mon;
                    opts = (if 0 < length is' then opts @ [env_ChainUnary env is'] else opts)
                in Inr (lg', \<lparr>gs_options = opts, gs_interceptors = is', gs_listener = l, gs_closed = False\<rparr>))))"

section \<open>The simple server's error interceptor\<close>

definition simple_status_code :: "ErrorType \<Rightarrow> grpc_code option" where
  "simple_status_code = map_of
     [(ErrorTypeInvalid, InvalidArgument), (ErrorTypeNotFound, NotFound),
      (ErrorTypeUnprocessableContent, Internal), (ErrorTypeUnauthorized, PermissionDenied),
      (ErrorTypeUnauthenticated, Unauthenticated), (ErrorTypeInternalError, Internal),
      (ErrorTypePanic, Internal)]"

text \<open>\<open>None\<close> is the nil status, whose error is nil.\<close>

definition simple_handleError :: "grpc_lib \<Rightarrow> go_error \<Rightarrow> server_event list \<times> grpc_status option" where
  "simple_handleError lib err =
     (if errors_Is err context_Canceled then ([], None)
      else case isGRPCStatus lib err of
        Some sts \<Rightarrow> ([], Some sts)
      | None \<Rightarrow>
          (case As_Error err of
             Some e \<Rightarrow>
               (let evs = (if Type e = ErrorTypePanic \<or> Type e = ErrorTypeInternalError then [EvReportError (ErrApp e)] else []);
                    code = (case simple_status_code (Type e) of Some c \<Rightarrow> c | None \<Rightarrow> Unknown)
                in (evs, (case lib_WithDetails lib \<lparr>st_code = code, st_message = Type e, st_details = []\<rparr>
                                (ErrorResponse (Code e) (Message e)) of
                            Inl _ \<Rightarrow> None | Inr s \<Rightarrow> Some s)))
           | None \<Rightarrow> ([EvReportError err], Some \<lparr>st_code = Internal, st_message = error_text err, st_details = []\<rparr>)))"

definition errorHandlerUnaryServerInterceptor :: "grpc_lib \<Rightarrow> 'r interceptor" where
  "errorHandlerUnaryServerInterceptor lib m ctx handler =
     (case handler ctx of
        (evs, Ret (resp, None)) \<Rightarrow> (evs, Ret (resp, None))
      | (evs, Ret (resp, Some err)) \<Rightarrow>
          (let (evs', sts) = simple_handleError lib err
           in (evs @ evs', Ret (None, case sts of None \<Rightarrow> None | Some s \<Rightarrow> lib_Err lib s)))
      | (evs, Panic p) \<Rightarrow> (evs, Panic p))"

definition simple_recovery :: "string \<Rightarrow> server_event list \<times> go_error" where
  "simple_recovery p = ([], ErrApp \<lparr>Type = ErrorTypePanic, Code = [], Message = p, InternalMessage = [], ErrorDetails = []\<rparr>)"

text \<open>The interceptors that \<open>NewSimpleServer\<close> registers, in its order; the last is the logger's.\<close>

definition simple_interceptors :: "grpc_lib \<Rightarrow> 'r recovery \<Rightarrow> 'r interceptor \<Rightarrow> 'r interceptor list" where
  "simple_interceptors lib recovery logger =
     [PassRequestIDUnaryInterceptor, errorHandlerUnaryServerInterceptor lib, recovery simple_recovery, logger]"

section \<open>Lemmas\<close>

text \<open>How gRPC runs a chain: the first interceptor is the outermost.\<close>

fun chain :: "'r interceptor list \<Rightarrow> string \<Rightarrow> 'r handler \<Rightarrow> 'r handler" where
  "chain [] m h = h"
| "chain (i # is) m h = (\<lambda>ctx. i m ctx (chain is m h))"

lemma is_ret_snd: "is_ret (snd x) \<longleftrightarrow> (\<exists>evs r. x = (evs, Ret r))"
  by (cases x; cases "snd x") auto

lemma recovers_ret: "recovers recovery \<Longrightarrow> is_ret (snd (recovery f m ctx h))"
  by (cases "h ctx"; cases "snd (h ctx)") (auto simp: recovers_def)

lemma debug_ret: "is_ret (snd (h ctx)) \<Longrightarrow> is_ret (snd (debug_interceptor lg m ctx h))"
  by (auto simp: debug_interceptor_def is_ret_snd Let_def split: prod.splits)

lemma root_cause_leaf: "errors_Unwrap (root_cause e) = None"
  by (induction e rule: root_cause.induct) auto

lemma root_cause_in_tree: "root_cause e \<in> set (err_tree e)"
  by (induction e rule: root_cause.induct) auto

lemma last_colon_append: "CHR '':'' \<notin> set p \<Longrightarrow> last_colon (h @ CHR '':'' # p) = Some (length h)"
proof -
  assume "CHR '':'' \<notin> set p"
  then have "takeWhile (\<lambda>c. c \<noteq> CHR '':'') (rev p @ CHR '':'' # rev h) = rev p"
    by (subst takeWhile_append2) auto
  then show ?thesis by (simp add: last_colon_def)
qed

lemma split_plain:
  assumes "CHR '':'' \<notin> set h" "CHR ''['' \<notin> set h" "CHR '']'' \<notin> set h"
    and "CHR '':'' \<notin> set p" "CHR ''['' \<notin> set p" "CHR '']'' \<notin> set p"
  shows "SplitHostPort (h @ CHR '':'' # p) = Inr (h, p)"
proof -
  have "(h @ CHR '':'' # p) ! 0 \<noteq> CHR ''[''" using assms(2) by (cases h) auto
  with assms show ?thesis by (simp add: SplitHostPort_def last_colon_append)
qed

lemma split_two_colons:
  assumes "CHR '':'' \<in> set h" and "hd h \<noteq> CHR ''[''" and "CHR '':'' \<notin> set p"
  shows "SplitHostPort (h @ CHR '':'' # p) = Inl (addr_error ''too many colons in address'' (h @ CHR '':'' # p))"
proof -
  have "(h @ CHR '':'' # p) ! 0 \<noteq> CHR ''[''" using assms(1,2) by (cases h) auto
  with assms show ?thesis by (simp add: SplitHostPort_def last_colon_append)
qed

lemma dec_int_no_colon: "CHR '':'' \<notin> set (dec_int i)"
proof
  assume "CHR '':'' \<in> set (dec_int i)"
  then obtain n where "CHR '':'' \<in> set (dec_nat n)" by (auto simp: dec_int_def split: if_splits)
  from dec_nat_digits [OF this] show False by simp
qed

text \<open>The recovery interceptor as documented, and an environment with it, for examples.\<close>

definition reference_recovery :: "'r recovery" where
  "reference_recovery f m ctx h = (case h ctx of (evs, Ret r) \<Rightarrow> (evs, Ret r)
     | (evs, Panic p) \<Rightarrow> (evs @ fst (f p), Ret (None, Some (snd (f p)))))"

lemma reference_recovers: "recovers reference_recovery"
  by (simp add: recovers_def reference_recovery_def)

definition example_env :: "(nat, nat, string) grpc_env" where
  "example_env = \<lparr>env_lib = example_lib, env_recovery = reference_recovery, env_uuid_Parse = (\<lambda>s. s),
     env_Listen = (\<lambda>a. Inr a), env_exporterErr = None, env_statsHandler = 0, env_ChainUnary = length\<rparr>"

section \<open>Properties\<close>

text \<open>
  What the status package documents of \<open>FromError\<close> on an error that wraps a status, directly or inside a join: the status found in
  its tree, with the error's own text as the message.
\<close>

definition status_documented :: "grpc_lib \<Rightarrow> bool" where
  "status_documented lib \<longleftrightarrow> grpc_documented lib
     \<and> (\<forall>e s. as_status e = None \<and> errors_As as_status e = Some s \<longrightarrow> lib_FromError lib e = Some (s\<lparr>st_message := error_text e\<rparr>))"

lemma FromError_found:
  assumes "status_documented lib" and "errors_As as_status e = Some s"
  shows "lib_FromError lib e = Some (if as_status e = None then s\<lparr>st_message := error_text e\<rparr> else s)"
proof (cases "as_status e")
  case None
  with assms show ?thesis by (simp add: status_documented_def)
next
  case (Some r)
  then have "e = ErrStatus r" by (cases e) auto
  with assms show ?thesis by (simp add: status_documented_def grpc_documented_def)
qed

definition app_handler :: "grpc_lib \<Rightarrow> error_handler" where
  "app_handler lib = \<lparr>eh_IsApplicationError = IsApplicationError, eh_ErrorToGRPCStatus = ErrorToGRPCStatus lib\<rparr>"

lemma HandleError_app:
  assumes "status_documented lib" and "\<not> errors_Is err context_Canceled" and "As_Error err = Some e"
  shows "errors_As as_status err = None \<Longrightarrow> HandleError lib (app_handler lib) err = ([EvLogError err], Some (ErrStatus
          \<lparr>st_code = (case errorTypeToStatusCode (Type e) of Some c \<Rightarrow> c | None \<Rightarrow> Unknown),
           st_message = Type e, st_details = [ErrorResponse (Code e) (Message e)]\<rparr>))"
    and "errors_As as_status err = Some s \<Longrightarrow> HandleError lib (app_handler lib) err = ([EvLogError err],
          if st_code s = OK then None else Some (ErrStatus (s\<lparr>st_message := error_text err\<rparr>)))"
proof -
  have lib: "grpc_documented lib" using assms(1) by (simp add: status_documented_def)
  have "as_status err = None" using assms(3) by (cases err) auto
  then show "errors_As as_status err = Some s \<Longrightarrow> HandleError lib (app_handler lib) err = ([EvLogError err],
      if st_code s = OK then None else Some (ErrStatus (s\<lparr>st_message := error_text err\<rparr>)))"
    using FromError_found [OF assms(1), of err s] assms(2,3) lib
    by (simp add: HandleError_def app_handler_def IsApplicationError_def ErrorToGRPCStatus_def grpc_documented_def)
  show "errors_As as_status err = None \<Longrightarrow> HandleError lib (app_handler lib) err = ([EvLogError err], Some (ErrStatus
      \<lparr>st_code = (case errorTypeToStatusCode (Type e) of Some c \<Rightarrow> c | None \<Rightarrow> Unknown),
       st_message = Type e, st_details = [ErrorResponse (Code e) (Message e)]\<rparr>))"
    using to_status [OF lib assms(3)] status_code_not_ok [of "Type e"] assms(2,3) lib
    by (simp add: HandleError_def app_handler_def IsApplicationError_def grpc_documented_def)
qed

lemma HandleError_other:
  assumes "status_documented lib" and "\<not> errors_Is err context_Canceled" and "As_Error err = None"
  shows "errors_As as_status (root_cause err) = Some s \<Longrightarrow> HandleError lib (app_handler lib) err = ([EvLogError err],
          if st_code s = OK then None
          else Some (ErrStatus (if root_cause err = ErrStatus s then s else s\<lparr>st_message := error_text (root_cause err)\<rparr>)))"
    and "errors_As as_status (root_cause err) = None \<Longrightarrow> HandleError lib (app_handler lib) err = ([EvLogError err, EvReportError err],
          Some (ErrStatus \<lparr>st_code = Internal, st_message = error_text err, st_details = []\<rparr>))"
proof -
  have lib: "grpc_documented lib" using assms(1) by (simp add: status_documented_def)
  show "errors_As as_status (root_cause err) = None \<Longrightarrow> HandleError lib (app_handler lib) err = ([EvLogError err, EvReportError err],
      Some (ErrStatus \<lparr>st_code = Internal, st_message = error_text err, st_details = []\<rparr>))"
    using assms(2,3) lib by (simp add: HandleError_def app_handler_def IsApplicationError_def isGRPCStatus_def grpc_documented_def)
  assume s: "errors_As as_status (root_cause err) = Some s"
  have "(as_status (root_cause err) = None) = (root_cause err \<noteq> ErrStatus s)"
    using s by (cases "root_cause err") auto
  then show "HandleError lib (app_handler lib) err = ([EvLogError err], if st_code s = OK then None
      else Some (ErrStatus (if root_cause err = ErrStatus s then s else s\<lparr>st_message := error_text (root_cause err)\<rparr>)))"
    using FromError_found [OF assms(1) s] assms(2,3) lib
    by (simp add: HandleError_def app_handler_def IsApplicationError_def isGRPCStatus_def grpc_documented_def)
qed

text \<open>The name of the method in front of an error changes neither what is found in it nor its root cause.\<close>

lemma wrapped_searches:
  "errors_Is (wrap_with q err) context_Canceled = errors_Is err context_Canceled"
  "As_Error (wrap_with q err) = As_Error err" "errors_As as_status (wrap_with q err) = errors_As as_status err"
  "root_cause (wrap_with q err) = root_cause err"
  by (simp_all add: wrap_with_def)

text \<open>
  C24. What the client is answered when a handler of any method returns an error, whatever the error is; \<open>w\<close> is the error with the
  method's name in front, which is always logged. A cancelled context is answered with no error at all. An application error without a
  status in its tree is answered with the status of its type and with its code and message; one that wraps a status as well, with
  that status, whose message is then the text of \<open>w\<close>. Any other error is answered with the status at its root, unchanged, or with a
  status that is inside a join at its root, with the join's text. In these cases a status with the code OK is answered with no
  error, and nothing is reported. All remaining errors are reported, once, and answered with the code Internal and their text.
\<close>

theorem handle_error_outcomes:
  assumes "status_documented lib" and "handler ctx = (evs, Ret (resp, Some err))"
    and "w = wrap_with (CHR 0x22 # path_Base m @ [CHR 0x22]) err"
  shows "\<exists>reported answer.
      error_interceptor lib \<lparr>eh_IsApplicationError = IsApplicationError, eh_ErrorToGRPCStatus = ErrorToGRPCStatus lib\<rparr> m ctx handler
        = (evs @ EvLogError w # reported, Ret (None, answer))
    \<and> (errors_Is err context_Canceled \<longrightarrow> reported = [] \<and> answer = None)
    \<and> (\<not> errors_Is err context_Canceled \<longrightarrow>
        (case As_Error err of
           Some e \<Rightarrow> reported = [] \<and>
             (case errors_As as_status err of
                None \<Rightarrow> answer = Some (ErrStatus
                  \<lparr>st_code = (case errorTypeToStatusCode (Type e) of Some c \<Rightarrow> c | None \<Rightarrow> Unknown),
                   st_message = Type e, st_details = [ErrorResponse (Code e) (Message e)]\<rparr>)
              | Some s \<Rightarrow> answer = (if st_code s = OK then None else Some (ErrStatus (s\<lparr>st_message := error_text w\<rparr>))))
         | None \<Rightarrow>
             (case errors_As as_status (root_cause err) of
                None \<Rightarrow> reported = [EvReportError w]
                  \<and> answer = Some (ErrStatus \<lparr>st_code = Internal, st_message = error_text w, st_details = []\<rparr>)
              | Some s \<Rightarrow> reported = [] \<and> answer = (if st_code s = OK then None
                  else Some (ErrStatus (if root_cause err = ErrStatus s then s
                                        else s\<lparr>st_message := error_text (root_cause err)\<rparr>))))))"
proof -
  have run: "error_interceptor lib (app_handler lib) m ctx handler
      = (evs @ fst (HandleError lib (app_handler lib) w), Ret (None, snd (HandleError lib (app_handler lib) w)))"
    by (simp add: error_interceptor_def assms(2,3) case_prod_unfold Let_def)
  note w = wrapped_searches [of "CHR 0x22 # path_Base m @ [CHR 0x22]" err, folded assms(3)]
  show ?thesis
  proof (cases "errors_Is err context_Canceled")
    case True
    then have "HandleError lib (app_handler lib) w = ([EvLogError w], None)" by (simp add: HandleError_def w)
    with run True show ?thesis by (simp add: app_handler_def)
  next
    case False
    note app = HandleError_app [OF assms(1), of w, unfolded w, OF False]
    note other = HandleError_other [OF assms(1), of w, unfolded w, OF False]
    show ?thesis
    proof (cases "As_Error err")
      case None
      with run False other show ?thesis
        by (cases "errors_As as_status (root_cause err)") (simp_all add: app_handler_def)
    next
      case (Some e)
      with run False app show ?thesis
        by (cases "errors_As as_status err") (simp_all add: app_handler_def)
    qed
  qed
qed

definition status_lib :: grpc_lib where
  "status_lib = example_lib\<lparr>lib_FromError := (\<lambda>e. map_option (\<lambda>s. if as_status e = None then s\<lparr>st_message := error_text e\<rparr> else s)
     (errors_As as_status e))\<rparr>"

lemma status_lib_documented: "status_documented status_lib"
  by (simp add: status_documented_def grpc_documented_def status_lib_def example_lib_def)

text \<open>An application error joined with a status: the status decides the code, the whole text is the message.\<close>

theorem handle_error_outcomes_witness:
  "let app = ErrApp \<lparr>Type = ErrorTypeNotFound, Code = ''c'', Message = ''m'', InternalMessage = [], ErrorDetails = []\<rparr>;
       joined = ErrJoin [app, ErrStatus \<lparr>st_code = Unauthenticated, st_message = ''who'', st_details = []\<rparr>];
       ctx = \<lparr>c_trace = None, c_incoming = None, c_outgoing = []\<rparr>
   in \<exists>log text. error_interceptor status_lib
          \<lparr>eh_IsApplicationError = IsApplicationError, eh_ErrorToGRPCStatus = ErrorToGRPCStatus status_lib\<rparr> ''/s/Get'' ctx
          (\<lambda>_. ([], Ret (Some (0 :: nat), Some joined)))
        = ([EvLogError log], Ret (None, Some (ErrStatus \<lparr>st_code = Unauthenticated, st_message = text, st_details = []\<rparr>)))"
proof -
  define app where "app = ErrApp \<lparr>Type = ErrorTypeNotFound, Code = ''c'', Message = ''m'', InternalMessage = [], ErrorDetails = []\<rparr>"
  define joined where "joined = ErrJoin [app, ErrStatus \<lparr>st_code = Unauthenticated, st_message = ''who'', st_details = []\<rparr>]"
  define ctx :: rpc_ctx where "ctx = \<lparr>c_trace = None, c_incoming = None, c_outgoing = []\<rparr>"
  have "\<not> errors_Is joined context_Canceled" "As_Error joined \<noteq> None"
      "errors_As as_status joined = Some \<lparr>st_code = Unauthenticated, st_message = ''who'', st_details = []\<rparr>"
    by (simp_all add: joined_def app_def errors_Is_def)
  with handle_error_outcomes [OF status_lib_documented _ refl, of "\<lambda>_. ([], Ret (Some 0, Some joined))" ctx "[]" "Some (0 :: nat)" joined "''/s/Get''"]
  show ?thesis unfolding Let_def joined_def [symmetric] app_def [symmetric] ctx_def [symmetric] by auto
qed

text \<open>
  C7. The interceptors of a server with a panic handler are, outermost first, the logging one, the panic recovery, the error handling, those given by the
  application in their order, and the monitoring one, each where it was asked for. No request panics: a panic that
  reaches the recovery becomes the Internal status with a fixed text, logged and reported, and the panic's text is not in it. An
  error that comes out of the application's interceptors or of the method's handler goes through the error handling, with the
  method's name in front, before the recovery and the logging see it.
\<close>

theorem server_chain_recovers:
  assumes "recovers (env_recovery env)" and "server_interceptors env is lg eh (Value ph) mon = (lg', is')"
    and "inner = is @ (case iface_value mon of None \<Rightarrow> []
           | Some mo \<Rightarrow> [newMonitorOperationUnaryInterceptor (env_uuid_Parse env) mo])"
    and "post = (case iface_value eh of None \<Rightarrow> [] | Some h \<Rightarrow> [error_interceptor (env_lib env) h]) @ inner"
    and "recovery = env_recovery env (newRecoveryFunc ph)"
  shows "is' = (case lg of None \<Rightarrow> []
          | Some l \<Rightarrow> [debug_interceptor (l\<lparr>ignoredMethods := ignoredMethods l @ [''Check'', ''Watch'']\<rparr>)]) @ recovery # post
    \<and> is_ret (snd (chain is' m h ctx))
    \<and> (\<forall>evs p. chain post m h ctx = (evs, Panic p) \<longrightarrow>
         chain (recovery # post) m h ctx
           = (evs @ [EvLogPanic p, EvReportPanic p]
                @ (case ph p of None \<Rightarrow> [] | Some e \<Rightarrow> [EvLogError (wrap_with (''error while reporting panic \"'' @ p @ ''\"'') e)]),
              Ret (None, Some (ErrStatus \<lparr>st_code = Internal, st_message = ''internal error.'', st_details = []\<rparr>))))
    \<and> (\<forall>eh1 evs r err. eh = Value eh1 \<and> chain inner m h ctx = (evs, Ret (r, Some err)) \<longrightarrow>
         chain (recovery # post) m h ctx
           = (evs @ fst (HandleError (env_lib env) eh1 (wrap_with (CHR 0x22 # path_Base m @ [CHR 0x22]) err)),
              Ret (None, snd (HandleError (env_lib env) eh1 (wrap_with (CHR 0x22 # path_Base m @ [CHR 0x22]) err)))))"
proof -
  define pre where "pre = (case lg of None \<Rightarrow> []
      | Some l \<Rightarrow> [debug_interceptor (l\<lparr>ignoredMethods := ignoredMethods l @ [''Check'', ''Watch'']\<rparr>) :: 'a interceptor])"
  have is': "is' = pre @ recovery # post"
    using assms(2-5)
    by (auto simp: server_interceptors_def prependErrorHandler_def prependPanicHandler_def prependDebugInterceptor_def
        prependServerOptions_def isErrorHandlerNil_def pre_def Let_def split: option.splits iface.splits)
  have "is_ret (snd (chain (recovery # post) m h ctx))" for ctx
    using recovers_ret [OF assms(1)] by (simp add: assms(5))
  then have "is_ret (snd (chain is' m h ctx))"
    unfolding is' by (cases lg) (simp_all add: pre_def debug_ret)
  moreover have "chain (recovery # post) m h ctx = (evs @ fst (newRecoveryFunc ph p), Ret (None, Some (snd (newRecoveryFunc ph p))))"
    if "chain post m h ctx = (evs, Panic p)" for evs p
    using that assms(1) by (simp add: recovers_def assms(5))
  moreover have "chain (recovery # post) m h ctx = chain post m h ctx" if "is_ret (snd (chain post m h ctx))"
    using that assms(1) by (cases "chain post m h ctx"; cases "snd (chain post m h ctx)") (simp_all add: recovers_def assms(5))
  moreover have "chain post m h ctx
      = (evs @ fst (HandleError (env_lib env) eh1 (wrap_with (CHR 0x22 # path_Base m @ [CHR 0x22]) err)),
         Ret (None, snd (HandleError (env_lib env) eh1 (wrap_with (CHR 0x22 # path_Base m @ [CHR 0x22]) err))))"
    if "eh = Value eh1" "chain inner m h ctx = (evs, Ret (r, Some err))" for eh1 evs r err
    using that by (simp add: assms(4) error_interceptor_def case_prod_unfold Let_def)
  ultimately show ?thesis
    using is' by (simp add: pre_def newRecoveryFunc_def)
qed

theorem server_chain_recovers_witness:
  "\<exists>is'. server_interceptors example_env [PassRequestIDUnaryInterceptor] None (Value (app_handler example_lib)) (Value (\<lambda>_. None)) NilIface
        = (None, is')
     \<and> length is' = 3
     \<and> is_ret (snd (chain is' ''/s/Get'' (\<lambda>_. ([], Panic ''x'')) \<lparr>c_trace = None, c_incoming = None, c_outgoing = []\<rparr>))"
proof -
  have env: "recovers (env_recovery example_env)" by (simp add: example_env_def reference_recovers)
  obtain is' where is': "server_interceptors example_env [PassRequestIDUnaryInterceptor] None (Value (app_handler example_lib))
      (Value (\<lambda>_. None)) NilIface = (None, is')"
    by (simp add: server_interceptors_def Let_def)
  let ?ctx = "\<lparr>c_trace = None, c_incoming = None, c_outgoing = []\<rparr>"
  note run = server_chain_recovers [OF env is' refl refl refl, of "''/s/Get''" "\<lambda>_. ([], Panic ''x'')" ?ctx]
  have "length is' = 3" using conjunct1 [OF run] by simp
  moreover have "is_ret (snd (chain is' ''/s/Get'' (\<lambda>_. ([], Panic ''x'')) ?ctx))" by (rule conjunct1 [OF conjunct2 [OF run]])
  ultimately show ?thesis using is' by blast
qed

text \<open>
  The gRPC server listens on the gateway's host at the port below the gateway's, for a host
  without colons; an address that is not host and port, or whose port is not a number, is refused.
  For an IPv6 host the brackets are lost: the address it listens on is not a valid address.
\<close>

theorem grpc_listen_address:
  assumes "CHR '':'' \<notin> set h" "CHR ''['' \<notin> set h" "CHR '']'' \<notin> set h"
    and "CHR '':'' \<notin> set p" "CHR ''['' \<notin> set p" "CHR '']'' \<notin> set p"
    and "strconv_Atoi p = Inr port"
  shows "newGRPCListener Inr None (h @ CHR '':'' # p) = Inr (h @ CHR '':'' # dec_int (port - 1))
    \<and> SplitHostPort ''[::1]:7350'' = Inr (''::1'', ''7350'')
    \<and> isl (SplitHostPort (listen_address ''::1'' 7350))
    \<and> isl (newGRPCListener Inr None ''localhost'')"
proof -
  have "newGRPCListener Inr None (h @ CHR '':'' # p) = Inr (h @ CHR '':'' # dec_int (port - 1))"
    using split_plain [OF assms(1-6)] assms(7) by (simp add: newGRPCListener_def listen_address_def)
  moreover have "isl (SplitHostPort (listen_address ''::1'' 7350))"
    using split_two_colons [of "''::1''" "dec_int 7349"] dec_int_no_colon by (simp add: listen_address_def)
  moreover have "isl (newGRPCListener Inr None ''localhost'')"
    by (simp add: newGRPCListener_def SplitHostPort_def last_colon_def)
  moreover have "SplitHostPort ''[::1]:7350'' = Inr (''::1'', ''7350'')"
    by (simp add: SplitHostPort_def last_colon_def)
  ultimately show ?thesis by blast
qed

theorem grpc_listen_address_witness:
  "newGRPCListener Inr None ''0.0.0.0:7350'' = Inr (''0.0.0.0:'' @ dec_int 7349)"
  using grpc_listen_address [of "''0.0.0.0''" "''7350''" 7350]
  by (simp add: strconv_Atoi_def Let_def)

text \<open>
  The simple server turns every outcome of a handler into a response or a status error, never a
  panic, provided its logging interceptor passes the handler's outcome on: a panic is reported and
  becomes an Internal status.
\<close>

theorem simple_server_panic:
  assumes "grpc_documented lib" and "recovers recovery" and "\<And>m ctx h. logger m ctx h = h ctx"
    and "h (SetOutgoingRequestIDFromIncoming ctx) = (evs, Panic p)"
  shows "\<exists>e. chain (simple_interceptors lib recovery logger) m h ctx
    = (evs @ [EvReportError (ErrApp e)], Ret (None, Some (ErrStatus
        \<lparr>st_code = Internal, st_message = ErrorTypePanic, st_details = [ErrorResponse [] p]\<rparr>)))
    \<and> Type e = ErrorTypePanic"
  using assms
  by (simp add: simple_interceptors_def PassRequestIDUnaryInterceptor_def errorHandlerUnaryServerInterceptor_def
      recovers_def simple_recovery_def simple_handleError_def isGRPCStatus_def grpc_documented_def errors_Is_def
      simple_status_code_def Let_def)

theorem simple_server_panic_witness:
  "\<exists>e. chain (simple_interceptors example_lib reference_recovery (\<lambda>m ctx h. h ctx)) ''/s/Get''
       (\<lambda>_. ([], Panic ''nil map'') :: nat run) \<lparr>c_trace = None, c_incoming = None, c_outgoing = []\<rparr>
     = ([EvReportError (ErrApp e)], Ret (None, Some (ErrStatus
        \<lparr>st_code = Internal, st_message = ErrorTypePanic, st_details = [ErrorResponse [] ''nil map'']\<rparr>)))
     \<and> Type e = ErrorTypePanic"
  using simple_server_panic [OF example_lib_documented reference_recovers, where logger = "\<lambda>m ctx h. h ctx"
      and h = "\<lambda>_. ([], Panic ''nil map'') :: nat run" and p = "''nil map''" and evs = "[]"]
  by simp

end
