(* ===== verification/Grpc_Lifecycle.thy ===== *)
theory Grpc_Lifecycle
  imports Grpc_Server
begin

text \<open>
  Options, construction and life cycle of the gRPC server with its HTTP gateway
  (\<^verbatim>\<open>src/grpc/options.go\<close>, \<^verbatim>\<open>server.go\<close>, \<^verbatim>\<open>gateway_server.go\<close>) and the client connection's options
  (\<^verbatim>\<open>grpcclient/grpc_client_conn.go\<close>). Values of other packages (gRPC and mux options, middlewares,
  routes' handlers, registration functions) are opaque and of one type.
\<close>

section \<open>Options\<close>

record ('r, 'x, 'lis) serverOptions =
  o_tracing :: bool
  o_gateway :: bool
  o_debugStandardLibraryEndpoints :: bool
  o_logging :: "logging option"
  o_address :: string
  o_grpcServerOptions :: "'x list"
  o_muxOptions :: "'x list"
  o_httpMiddlewares :: "'x list"
  o_httpRoutes :: "(string \<times> string \<times> 'x) list"
  o_registerServer :: "'x option"
  o_registerGateway :: "'x option"
  o_grpcListener :: "'lis option"
  o_unaryServerInterceptors :: "'r interceptor list"
  o_errorHandler :: "error_handler iface"
  o_panicHandler :: "panic_handler iface"
  o_monitorOperationer :: "'r monitor iface"
  o_gatewayCorsOptions :: 'x

type_synonym ('r, 'x, 'lis) ServerOption = "('r, 'x, 'lis) serverOptions \<Rightarrow> ('r, 'x, 'lis) serverOptions"

definition defaultServerOptions :: "'x \<Rightarrow> 'x \<Rightarrow> ('r, 'x, 'lis) serverOptions" where
  "defaultServerOptions marshaler cors = \<lparr>o_tracing = False, o_gateway = True,
     o_debugStandardLibraryEndpoints = False, o_logging = None, o_address = ''0.0.0.0:7350'',
     o_grpcServerOptions = [], o_muxOptions = [marshaler], o_httpMiddlewares = [], o_httpRoutes = [],
     o_registerServer = None, o_registerGateway = None, o_grpcListener = None,
     o_unaryServerInterceptors = [], o_errorHandler = NilIface, o_panicHandler = NilIface,
     o_monitorOperationer = NilIface, o_gatewayCorsOptions = cors\<rparr>"

definition WithAddress :: "string \<Rightarrow> ('r, 'x, 'lis) ServerOption" where
  "WithAddress a so = so\<lparr>o_address := a\<rparr>"

definition WithGRPCServerOptions :: "'x list \<Rightarrow> ('r, 'x, 'lis) ServerOption" where
  "WithGRPCServerOptions opts so = so\<lparr>o_grpcServerOptions := opts\<rparr>"

definition WithMuxOptions :: "'x list \<Rightarrow> ('r, 'x, 'lis) ServerOption" where
  "WithMuxOptions opts so = so\<lparr>o_muxOptions := o_muxOptions so @ opts\<rparr>"

definition WithHTTPMiddlewares :: "'x list \<Rightarrow> ('r, 'x, 'lis) ServerOption" where
  "WithHTTPMiddlewares mw so = so\<lparr>o_httpMiddlewares := mw\<rparr>"

definition WithRegisterServerFunc :: "'x option \<Rightarrow> ('r, 'x, 'lis) ServerOption" where
  "WithRegisterServerFunc f so = so\<lparr>o_registerServer := f\<rparr>"

definition WithRegisterGatewayFunc :: "'x option \<Rightarrow> ('r, 'x, 'lis) ServerOption" where
  "WithRegisterGatewayFunc f so = so\<lparr>o_registerGateway := f\<rparr>"

definition WithGRPCListener :: "'lis option \<Rightarrow> ('r, 'x, 'lis) ServerOption" where
  "WithGRPCListener lis so = so\<lparr>o_grpcListener := lis, o_gateway := False\<rparr>"

definition WithTracing :: "('r, 'x, 'lis) ServerOption" where
  "WithTracing so = so\<lparr>o_tracing := True\<rparr>"

definition WithNoGateway :: "('r, 'x, 'lis) ServerOption" where
  "WithNoGateway so = so\<lparr>o_gateway := False\<rparr>"

definition WithDebug :: "bool \<Rightarrow> string list \<Rightarrow> ('r, 'x, 'lis) ServerOption" where
  "WithDebug logReq ignored so = so\<lparr>o_logging := Some \<lparr>ignoredMethods = ignored, logRequest = logReq\<rparr>\<rparr>"

definition WithUnaryServerInterceptor :: "'r interceptor \<Rightarrow> ('r, 'x, 'lis) ServerOption" where
  "WithUnaryServerInterceptor i so = so\<lparr>o_unaryServerInterceptors := o_unaryServerInterceptors so @ [i]\<rparr>"

text \<open>The interceptors of other packages that have options of their own are parameters here.\<close>

definition WithUnaryServerInterceptorLogger :: "'r interceptor \<Rightarrow> ('r, 'x, 'lis) ServerOption" where
  "WithUnaryServerInterceptorLogger logging_interceptor so =
     so\<lparr>o_unaryServerInterceptors := o_unaryServerInterceptors so @ [logging_interceptor]\<rparr>"

definition WithUnaryServerInterceptorCodeGen :: "'r interceptor \<Rightarrow> ('r, 'x, 'lis) ServerOption" where
  "WithUnaryServerInterceptorCodeGen ctxtags so =
     so\<lparr>o_unaryServerInterceptors := o_unaryServerInterceptors so @ [ctxtags]\<rparr>"

definition context_propagation :: "'r interceptor" where
  "context_propagation m ctx handler =
     handler (case c_incoming ctx of
                None \<Rightarrow> ctx
              | Some md \<Rightarrow> ctx\<lparr>c_outgoing := concat (map (\<lambda>(k, vs). map (Pair k) vs) md)\<rparr>)"

definition WithUnaryServerInterceptorContextPropagation :: "('r, 'x, 'lis) ServerOption" where
  "WithUnaryServerInterceptorContextPropagation so =
     so\<lparr>o_unaryServerInterceptors := o_unaryServerInterceptors so @ [context_propagation]\<rparr>"

definition WithUnaryServerInterceptorAuthFunc :: "'r interceptor \<Rightarrow> ('r, 'x, 'lis) ServerOption" where
  "WithUnaryServerInterceptorAuthFunc auth so =
     so\<lparr>o_unaryServerInterceptors := o_unaryServerInterceptors so @ [auth]\<rparr>"

definition WithUnaryServerInterceptorRecovery ::
  "'r recovery \<Rightarrow> (string \<Rightarrow> server_event list \<times> go_error) \<Rightarrow> ('r, 'x, 'lis) ServerOption" where
  "WithUnaryServerInterceptorRecovery recovery f so =
     so\<lparr>o_unaryServerInterceptors := o_unaryServerInterceptors so @ [recovery f]\<rparr>"

definition WithMonitorOperationer :: "'r monitor iface \<Rightarrow> ('r, 'x, 'lis) ServerOption" where
  "WithMonitorOperationer mo so = so\<lparr>o_monitorOperationer := mo\<rparr>"

definition WithPanicHandler :: "panic_handler iface \<Rightarrow> ('r, 'x, 'lis) ServerOption" where
  "WithPanicHandler ph so = so\<lparr>o_panicHandler := ph\<rparr>"

definition WithErrorHandler :: "error_handler iface \<Rightarrow> ('r, 'x, 'lis) ServerOption" where
  "WithErrorHandler eh so = so\<lparr>o_errorHandler := eh\<rparr>"

definition WithDebugStandardLibraryEndpoints :: "('r, 'x, 'lis) ServerOption" where
  "WithDebugStandardLibraryEndpoints so = so\<lparr>o_debugStandardLibraryEndpoints := True\<rparr>"

definition WithGatewayCorsOptions :: "'x \<Rightarrow> ('r, 'x, 'lis) ServerOption" where
  "WithGatewayCorsOptions cors so = so\<lparr>o_gatewayCorsOptions := cors\<rparr>"

definition WithHTTPRoute :: "string \<Rightarrow> string \<Rightarrow> 'x \<Rightarrow> ('r, 'x, 'lis) ServerOption" where
  "WithHTTPRoute meth path handler so = so\<lparr>o_httpRoutes := o_httpRoutes so @ [(meth, path, handler)]\<rparr>"

definition WithOTEL :: "'x \<Rightarrow> ('r, 'x, 'lis) ServerOption" where
  "WithOTEL statsHandler so = so\<lparr>o_grpcServerOptions := o_grpcServerOptions so @ [statsHandler]\<rparr>"

section \<open>The gateway\<close>

record ('x, 'lis) gatewayServer =
  gw_routes :: "(string \<times> string \<times> 'x) list"
  gw_middlewares :: "'x list"
  gw_profiler :: bool
  gw_listener :: 'lis
  gw_ReadTimeout :: int
  gw_ReadHeaderTimeout :: int
  gw_WriteTimeout :: int
  gw_IdleTimeout :: int
  gw_closed :: bool
  gw_shutdowns :: nat

abbreviation Millisecond :: int where "Millisecond \<equiv> 1000000"
abbreviation Second :: int where "Second \<equiv> 1000000000"

text \<open>
  The router serves the root itself, then the mux, then the given routes; \<open>gw_routes\<close> holds the
  extra routes. Registering the gateway and listening may fail.
\<close>

definition newGatewayServer ::
  "(string \<Rightarrow> 'lis result) \<Rightarrow> ('x \<Rightarrow> 'x list \<Rightarrow> go_error option) \<Rightarrow> ('x \<Rightarrow> 'x) \<Rightarrow> 'x list \<Rightarrow> 'x option
   \<Rightarrow> string \<Rightarrow> (string \<times> string \<times> 'x) list \<Rightarrow> 'x list \<Rightarrow> bool \<Rightarrow> 'x \<Rightarrow> ('x, 'lis) gatewayServer result" where
  "newGatewayServer net_Listen register cors_Handler muxOptions registerGateway address routes middlewares debugEndpoints cors =
     (case (case registerGateway of None \<Rightarrow> None | Some f \<Rightarrow> register f muxOptions) of
        Some err \<Rightarrow> Inl (wrap_with ''register gateway'' err)
      | None \<Rightarrow>
          (case net_Listen address of
             Inl err \<Rightarrow> Inl (wrap_with ''new listener'' err)
           | Inr lis \<Rightarrow>
               (let handlerTimeout = 10 * Second; readHeaderTimeout = 5 * Second; wiggleRoom = 200 * Millisecond
                in Inr \<lparr>gw_routes = routes, gw_middlewares = middlewares @ [cors_Handler cors],
                        gw_profiler = debugEndpoints, gw_listener = lis,
                        gw_ReadTimeout = handlerTimeout + readHeaderTimeout + wiggleRoom,
                        gw_ReadHeaderTimeout = readHeaderTimeout,
                        gw_WriteTimeout = handlerTimeout + wiggleRoom, gw_IdleTimeout = 120 * Second,
                        gw_closed = False, gw_shutdowns = 0\<rparr>)))"

text \<open>Serving: the regular end of the HTTP server is not an error.\<close>

definition gateway_listenAndServe :: "go_error option \<Rightarrow> go_error option" where
  "gateway_listenAndServe served =
     (case served of None \<Rightarrow> None
      | Some err \<Rightarrow> if errors_Is err (ErrNew ''http: Server closed'') then None else Some err)"

definition gateway_close ::
  "go_error option \<Rightarrow> ('x, 'lis) gatewayServer \<Rightarrow> go_error option \<times> ('x, 'lis) gatewayServer" where
  "gateway_close shutdownErr g =
     (if gw_closed g then (None, g)
      else (shutdownErr, g\<lparr>gw_closed := True, gw_shutdowns := Suc (gw_shutdowns g)\<rparr>))"

section \<open>The aggregated server\<close>

abbreviation ErrServerClosed :: go_error where
  "ErrServerClosed \<equiv> ErrNew ''go-commons.grpc: server closed''"

record ('r, 'x, 'lis) Server =
  sv_grpc :: "('r, 'x, 'lis) grpcServer"
  sv_stops :: nat
  sv_gateway :: "('x, 'lis) gatewayServer option"
  sv_logging :: "logging option"
  sv_closed :: bool

definition NewServer ::
  "('r, 'x, 'lis) grpc_env \<Rightarrow> ('x \<Rightarrow> 'x list \<Rightarrow> go_error option) \<Rightarrow> ('x \<Rightarrow> 'x) \<Rightarrow> 'x \<Rightarrow> 'x
   \<Rightarrow> ('r, 'x, 'lis) ServerOption list \<Rightarrow> ('r, 'x, 'lis) Server result" where
  "NewServer env register cors_Handler marshaler cors opt =
     (let so = fold (\<lambda>f so. f so) opt (defaultServerOptions marshaler cors) in
      case newGRPCServer env (o_grpcListener so) (o_address so) (o_tracing so) (o_grpcServerOptions so)
             (o_unaryServerInterceptors so) (o_logging so) (o_errorHandler so) (o_panicHandler so)
             (o_monitorOperationer so) of
        Inl err \<Rightarrow> Inl (wrap_with ''new gRPC server'' err)
      | Inr (lg, g) \<Rightarrow>
          if \<not> o_gateway so then
            Inr \<lparr>sv_grpc = g, sv_stops = 0, sv_gateway = None, sv_logging = lg, sv_closed = False\<rparr>
          else (case newGatewayServer (env_Listen env) register cors_Handler (o_muxOptions so) (o_registerGateway so)
                       (o_address so) (o_httpRoutes so) (o_httpMiddlewares so) (o_debugStandardLibraryEndpoints so)
                       (o_gatewayCorsOptions so) of
                  Inl err \<Rightarrow> Inl (wrap_with ''new gRPC gateway server'' err)
                | Inr gw \<Rightarrow> Inr \<lparr>sv_grpc = g, sv_stops = 0, sv_gateway = Some gw, sv_logging = lg, sv_closed = False\<rparr>))"

definition grpc_close :: "('r, 'x, 'lis) Server \<Rightarrow> go_error option \<times> ('r, 'x, 'lis) Server" where
  "grpc_close s =
     (if gs_closed (sv_grpc s) then (None, s)
      else (None, s\<lparr>sv_grpc := (sv_grpc s)\<lparr>gs_closed := True\<rparr>, sv_stops := Suc (sv_stops s)\<rparr>))"

text \<open>
  \<open>Close\<close>, with the result of shutting down the gateway's HTTP server. The flag \<open>closed\<close> is read
  and, as in the source, never set.
\<close>

definition Server_Close ::
  "go_error option \<Rightarrow> ('r, 'x, 'lis) Server \<Rightarrow> go_error option \<times> ('r, 'x, 'lis) Server" where
  "Server_Close shutdownErr s =
     (if sv_closed s then (None, s)
      else case sv_gateway s of
        None \<Rightarrow> (case grpc_close s of (Some err, s') \<Rightarrow> (Some (wrap_with ''close grpc server'' err), s') | (None, s') \<Rightarrow> (None, s'))
      | Some gw \<Rightarrow>
          (case gateway_close shutdownErr gw of
             (Some err, gw') \<Rightarrow> (Some (wrap_with ''close gateway server'' err), s\<lparr>sv_gateway := Some gw'\<rparr>)
           | (None, gw') \<Rightarrow>
               (case grpc_close (s\<lparr>sv_gateway := Some gw'\<rparr>) of
                  (Some err, s') \<Rightarrow> (Some (wrap_with ''close grpc server'' err), s')
                | (None, s') \<Rightarrow> (None, s'))))"

text \<open>
  \<open>ListenAndServe\<close> up to the run group: refused, or the actors that are started (the gRPC server,
  then the gateway).
\<close>

datatype actor = GrpcActor | GatewayActor

definition ListenAndServe :: "('r, 'x, 'lis) Server \<Rightarrow> go_error + actor list" where
  "ListenAndServe s =
     (if sv_closed s then Inl ErrServerClosed
      else Inr (GrpcActor # (case sv_gateway s of None \<Rightarrow> [] | Some _ \<Rightarrow> [GatewayActor])))"

text \<open>Any sequence of \<open>Close\<close> calls, each with its result of the HTTP shutdown.\<close>

definition closes :: "go_error option list \<Rightarrow> ('r, 'x, 'lis) Server \<Rightarrow> ('r, 'x, 'lis) Server" where
  "closes rs s = fold (\<lambda>r s. snd (Server_Close r s)) rs s"

section \<open>Client connections\<close>

record 'x connOptions =
  co_dialOptions :: "'x list"
  co_interceptors :: "'x list"

definition defaultClientConnOptions :: "'x connOptions" where
  "defaultClientConnOptions = \<lparr>co_dialOptions = [], co_interceptors = []\<rparr>"

definition WithNoTLS :: "'x \<Rightarrow> 'x connOptions \<Rightarrow> 'x connOptions" where
  "WithNoTLS insecure so = so\<lparr>co_dialOptions := co_dialOptions so @ [insecure]\<rparr>"

definition WithContextDialer :: "'x \<Rightarrow> 'x connOptions \<Rightarrow> 'x connOptions" where
  "WithContextDialer d so = so\<lparr>co_dialOptions := co_dialOptions so @ [d]\<rparr>"

definition WithClientUnaryInterceptor :: "'x \<Rightarrow> 'x connOptions \<Rightarrow> 'x connOptions" where
  "WithClientUnaryInterceptor i so = so\<lparr>co_interceptors := co_interceptors so @ [i]\<rparr>"

definition client_WithOTEL :: "'x \<Rightarrow> 'x connOptions \<Rightarrow> 'x connOptions" where
  "client_WithOTEL handler so = so\<lparr>co_dialOptions := co_dialOptions so @ [handler]\<rparr>"

definition computeDialOptions :: "('x list \<Rightarrow> 'x) \<Rightarrow> 'x connOptions \<Rightarrow> 'x list" where
  "computeDialOptions chainUnary so = co_dialOptions so @ [chainUnary (co_interceptors so)]"

definition NewConn ::
  "(string \<Rightarrow> 'x list \<Rightarrow> 'conn result) \<Rightarrow> ('x list \<Rightarrow> 'x) \<Rightarrow> string \<Rightarrow> ('x connOptions \<Rightarrow> 'x connOptions) list \<Rightarrow> 'conn result" where
  "NewConn newClient chainUnary a opt =
     (let so = fold (\<lambda>f so. f so) opt defaultClientConnOptions;
          a = (if a = ''bufnet'' then ''passthrough://bufnet'' else a)
      in case newClient a (computeDialOptions chainUnary so) of
           Inl err \<Rightarrow> Inl (wrap_with ''grpc dial'' err)
         | Inr conn \<Rightarrow> Inr conn)"

section \<open>Properties\<close>

lemma Server_Close_flags:
  "sv_closed (snd (Server_Close r s)) = sv_closed s"
  "(sv_gateway (snd (Server_Close r s)) = None) = (sv_gateway s = None)"
  by (auto simp: Server_Close_def grpc_close_def gateway_close_def split: option.splits)

lemma closes_flags: "sv_closed (closes rs s) = sv_closed s" "(sv_gateway (closes rs s) = None) = (sv_gateway s = None)"
  by (induction rs arbitrary: s) (auto simp: closes_def Server_Close_flags)

text \<open>Each underlying server is stopped as often as its flag says: at most once.\<close>

definition stop_inv :: "('r, 'x, 'lis) Server \<Rightarrow> bool" where
  "stop_inv s \<longleftrightarrow> sv_stops s = (if gs_closed (sv_grpc s) then 1 else 0)
     \<and> (case sv_gateway s of None \<Rightarrow> True | Some gw \<Rightarrow> gw_shutdowns gw = (if gw_closed gw then 1 else 0))
     \<and> (gs_closed (sv_grpc s) \<longrightarrow> (case sv_gateway s of None \<Rightarrow> True | Some gw \<Rightarrow> gw_closed gw))"

lemma stop_inv_close: "stop_inv s \<Longrightarrow> stop_inv (snd (Server_Close r s))"
  by (auto simp: Server_Close_def grpc_close_def gateway_close_def stop_inv_def split: option.splits)

lemma stop_inv_closes: "stop_inv s \<Longrightarrow> stop_inv (closes rs s)"
  by (induction rs arbitrary: s) (auto simp: closes_def stop_inv_close)

lemma NewServer_inv: "NewServer env register h mar cors opt = Inr s \<Longrightarrow> stop_inv s \<and> \<not> sv_closed s"
  by (auto simp: NewServer_def newGRPCServer_def newGatewayServer_def stop_inv_def Let_def
      split: sum.splits prod.splits option.splits if_splits)

text \<open>
  Closing is safe to repeat: however often a new server is closed, the gRPC server and the
  gateway are each stopped at most once, the gateway before the gRPC server. A failing shutdown of
  the gateway leaves the gRPC server running; the next \<open>Close\<close> stops it. And since \<open>Close\<close> never
  sets the server's own flag, \<open>ListenAndServe\<close> on a closed server is not refused with
  \<open>ErrServerClosed\<close>.
\<close>

theorem server_close_repeatable:
  assumes "NewServer env register h mar cors opt = Inr s"
  shows "sv_stops (closes rs s) \<le> 1
    \<and> (\<forall>gw. sv_gateway (closes rs s) = Some gw \<longrightarrow> gw_shutdowns gw \<le> 1 \<and> (sv_stops (closes rs s) = 1 \<longrightarrow> gw_shutdowns gw = 1))
    \<and> sv_stops (closes (r # r' # rs) s) = 1
    \<and> (\<exists>actors. ListenAndServe (closes rs s) = Inr actors)"
proof -
  have inv: "stop_inv s" "\<not> sv_closed s" using NewServer_inv [OF assms] by auto
  have twice: "gs_closed (sv_grpc (snd (Server_Close r' (snd (Server_Close r t)))))" if "\<not> sv_closed t" for r r' t
    using that by (auto simp: Server_Close_def grpc_close_def gateway_close_def split: option.splits)
  have keep: "gs_closed (sv_grpc t) \<Longrightarrow> gs_closed (sv_grpc (closes rs t))" for rs t
  proof (induction rs arbitrary: t)
    case (Cons r rs)
    have "gs_closed (sv_grpc (snd (Server_Close r t)))"
      using Cons.prems by (auto simp: Server_Close_def grpc_close_def gateway_close_def split: option.splits)
    from Cons.IH [OF this] show ?case by (simp add: closes_def)
  qed (simp add: closes_def)
  have "gs_closed (sv_grpc (closes (r # r' # rs) s))"
    using keep [OF twice [OF inv(2)]] by (simp add: closes_def)
  moreover have "stop_inv (closes (r # r' # rs) s)" "stop_inv (closes rs s)"
    using inv(1) by (rule stop_inv_closes)+
  moreover have "\<exists>actors. ListenAndServe (closes rs s) = Inr actors"
    using inv(2) by (simp add: ListenAndServe_def closes_flags)
  ultimately show ?thesis by (auto simp: stop_inv_def)
qed

theorem server_close_repeatable_witness:
  "\<exists>s. NewServer example_env (\<lambda>_ _. None) (\<lambda>x. x) 0 0 [WithAddress ''localhost:80''] = Inr s
     \<and> sv_stops (closes [Some (ErrNew ''busy''), None] s) = 1
     \<and> (\<exists>actors. ListenAndServe (closes [None] s) = Inr actors)"
proof -
  obtain s where s: "NewServer example_env (\<lambda>_ _. None) (\<lambda>x. x) 0 0 [WithAddress ''localhost:80''] = Inr s"
  proof -
    have "SplitHostPort ''localhost:80'' = Inr (''localhost'', ''80'')"
      using split_plain [of "''localhost''" "''80''"] by simp
    then show thesis
      using that by (simp add: NewServer_def newGRPCServer_def WithAddress_def defaultServerOptions_def newGRPCListener_def
          strconv_Atoi_def example_env_def server_interceptors_def newGatewayServer_def isErrorHandlerNil_def Let_def)
  qed
  from server_close_repeatable [OF s, of "[]" "Some (ErrNew ''busy'')" None]
    server_close_repeatable [OF s, of "[None]"] s
  show ?thesis by blast
qed

end
