(* ===== verification/Grpc_Serve.thy ===== *)
theory Grpc_Serve
  imports Grpc_Lifecycle
begin

text \<open>
  Serving (\<open>ListenAndServe\<close> of \<^verbatim>\<open>src/grpc/server.go\<close>) while \<open>Close\<close> is called: the actors of the run group, the group that
  interrupts them, and the calls of \<open>Close\<close> as a step relation. A call of \<open>close\<close> on an underlying server reads its atomic
  flag, stores it and stops the server in three steps, so that a caller of \<open>Close\<close>, which holds the mutex, and the group,
  which does not, can interleave. The run group of oklog is represented by what is documented of it: the actors run
  concurrently, when the first returns all are interrupted, and \<open>Run\<close> returns its error when all have returned.
\<close>

section \<open>Logging\<close>

text \<open>Debug lines with the address they carry, if any.\<close>

type_synonym debug_line = "string \<times> string option"

definition logDebug :: "logging option \<Rightarrow> string \<Rightarrow> string option \<Rightarrow> debug_line list" where
  "logDebug lg msg addr = (case lg of None \<Rightarrow> [] | Some _ \<Rightarrow> [(msg, addr)])"

section \<open>Stopping an underlying server\<close>

datatype close_pc = AtLoad | AtStore | AtStop

text \<open>A thread that closes underlying servers one after the other, and where it is in closing the first.\<close>

type_synonym closer = "actor list \<times> close_pc"

text \<open>The flags of the servers, and how often each was stopped (\<open>GracefulStop\<close>, \<open>Shutdown\<close>).\<close>

type_synonym close_flags = "(actor \<Rightarrow> bool) \<times> (actor \<Rightarrow> nat)"

fun close_step :: "closer \<Rightarrow> close_flags \<Rightarrow> closer \<times> close_flags" where
  "close_step (a # as, AtLoad) (closed, stops) = (if closed a then (as, AtLoad) else (a # as, AtStore), closed, stops)"
| "close_step (a # as, AtStore) (closed, stops) = ((a # as, AtStop), closed(a := True), stops)"
| "close_step (a # as, AtStop) (closed, stops) = ((as, AtLoad), closed, stops(a := Suc (stops a)))"
| "close_step ([], pc) fl = (([], pc), fl)"

section \<open>The servers at work\<close>

datatype actor_state = NotStarted | Running | Exited "go_error option"

record serving =
  sr_actors :: "actor list"
  sr_logging :: "logging option"
  sr_addr :: "actor \<Rightarrow> string"
  sr_act :: "actor \<Rightarrow> actor_state"
  sr_flags :: close_flags
  sr_first :: "go_error option option"
  sr_int :: closer
  sr_closer :: "closer option"
  sr_result :: "go_error option option"
  sr_log :: "debug_line list"

text \<open>The result of an actor, given what \<open>Serve\<close> of its server returned.\<close>

definition runGRPCServer :: "go_error option \<Rightarrow> go_error option" where
  "runGRPCServer served = served"

definition runGatewayServer :: "go_error option \<Rightarrow> go_error option" where
  "runGatewayServer served = gateway_listenAndServe served"

fun actor_result :: "actor \<Rightarrow> go_error option \<Rightarrow> go_error option" where
  "actor_result GrpcActor served = runGRPCServer served"
| "actor_result GatewayActor served = runGatewayServer served"

fun start_message :: "actor \<Rightarrow> string" where
  "start_message GrpcActor = ''starting gRPC server''"
| "start_message GatewayActor = ''starting gRPC gateway server for HTTP requests''"

text \<open>
  What is documented of \<open>Serve\<close>: that of gRPC returns no error only when the server was stopped, that of the HTTP server
  always returns an error, the regular one only after \<open>Shutdown\<close>.
\<close>

fun serve_returns :: "actor \<Rightarrow> nat \<Rightarrow> go_error option \<Rightarrow> bool" where
  "serve_returns GrpcActor stops served \<longleftrightarrow> (served = None \<longrightarrow> 0 < stops)"
| "serve_returns GatewayActor stops served \<longleftrightarrow> served \<noteq> None
     \<and> (served = Some (ErrNew ''http: Server closed'') \<longrightarrow> 0 < stops)"

text \<open>
  The debug lines of \<open>closeGRPCServer\<close> and \<open>closeGatewayServer\<close> for one step of a closing thread: one when the closing of a server
  begins, one, deferred, when it is over.
\<close>

fun closing_message :: "actor \<Rightarrow> string" where
  "closing_message GrpcActor = ''close grpc server''"
| "closing_message GatewayActor = ''close gateway server''"

fun closed_message :: "actor \<Rightarrow> string" where
  "closed_message GrpcActor = ''grpc server done''"
| "closed_message GatewayActor = ''gateway server done''"

definition close_lines :: "logging option \<Rightarrow> closer \<Rightarrow> closer \<Rightarrow> debug_line list" where
  "close_lines lg th th' =
     (if snd th = AtLoad then logDebug lg (closing_message (hd (fst th))) None else [])
     @ (if fst th' \<noteq> fst th then logDebug lg (closed_message (hd (fst th))) None else [])"

definition close_order :: "actor list \<Rightarrow> actor list" where
  "close_order actors = (if GatewayActor \<in> set actors then [GatewayActor] else []) @ [GrpcActor]"

datatype serve_op =
  ActorStarts actor | ActorReturns actor "go_error option" | Interrupts | CloseBegins | CloseProceeds
| CloseFails go_error | CloseReturns | RunReturns

definition actor_exits :: "actor \<Rightarrow> go_error option \<Rightarrow> serving \<Rightarrow> serving" where
  "actor_exits a r s =
     (let s' = s\<lparr>sr_act := (sr_act s)(a := Exited r)\<rparr> in
      case sr_first s of
        None \<Rightarrow> s'\<lparr>sr_first := Some r, sr_int := (sr_actors s, AtLoad)\<rparr>
      | Some _ \<Rightarrow> s')"

inductive serve_step :: "serving \<Rightarrow> serve_op \<Rightarrow> serving \<Rightarrow> bool" where
  actor_starts: "a \<in> set (sr_actors s) \<Longrightarrow> sr_act s a = NotStarted \<Longrightarrow>
    serve_step s (ActorStarts a) (s\<lparr>sr_act := (sr_act s)(a := Running),
      sr_log := sr_log s @ logDebug (sr_logging s) (start_message a) (Some (sr_addr s a))\<rparr>)"
| actor_returns: "a \<in> set (sr_actors s) \<Longrightarrow> sr_act s a = Running \<Longrightarrow> serve_returns a (snd (sr_flags s) a) served \<Longrightarrow>
    serve_step s (ActorReturns a served) (actor_exits a (actor_result a served) s)"
| interrupts: "fst (sr_int s) \<noteq> [] \<Longrightarrow> close_step (sr_int s) (sr_flags s) = (th, fl) \<Longrightarrow>
    serve_step s Interrupts (s\<lparr>sr_int := th, sr_flags := fl\<rparr>)"
| close_begins: "sr_closer s = None \<Longrightarrow>
    serve_step s CloseBegins (s\<lparr>sr_closer := Some (close_order (sr_actors s), AtLoad)\<rparr>)"
| close_proceeds: "sr_closer s = Some c \<Longrightarrow> fst c \<noteq> [] \<Longrightarrow> close_step c (sr_flags s) = (th, fl) \<Longrightarrow>
    serve_step s CloseProceeds (s\<lparr>sr_closer := Some th, sr_flags := fl,
      sr_log := sr_log s @ close_lines (sr_logging s) c th\<rparr>)"
| close_fails: "sr_closer s = Some (GatewayActor # as, AtStop) \<Longrightarrow>
    close_step (GatewayActor # as, AtStop) (sr_flags s) = (th, fl) \<Longrightarrow>
    serve_step s (CloseFails err) (s\<lparr>sr_closer := None, sr_flags := fl,
      sr_log := sr_log s @ close_lines (sr_logging s) (GatewayActor # as, AtStop) th\<rparr>)"
| close_returns: "sr_closer s = Some ([], pc) \<Longrightarrow> serve_step s CloseReturns (s\<lparr>sr_closer := None\<rparr>)"
| run_returns: "sr_first s = Some r \<Longrightarrow> fst (sr_int s) = [] \<Longrightarrow> \<forall>a \<in> set (sr_actors s). \<exists>r. sr_act s a = Exited r \<Longrightarrow>
    sr_result s = None \<Longrightarrow> serve_step s RunReturns (s\<lparr>sr_result := Some r\<rparr>)"

inductive_cases serve_stepE: "serve_step s op t"

text \<open>The start: the flags and stops of the server at hand, its actors as \<open>ListenAndServe\<close> adds them.\<close>

definition serve_flags :: "('r, 'x, 'lis) Server \<Rightarrow> close_flags" where
  "serve_flags s =
     (\<lambda>a. case a of GrpcActor \<Rightarrow> gs_closed (sv_grpc s) | GatewayActor \<Rightarrow> (case sv_gateway s of None \<Rightarrow> False | Some g \<Rightarrow> gw_closed g),
      \<lambda>a. case a of GrpcActor \<Rightarrow> sv_stops s | GatewayActor \<Rightarrow> (case sv_gateway s of None \<Rightarrow> 0 | Some g \<Rightarrow> gw_shutdowns g))"

definition serve_init :: "(actor \<Rightarrow> string) \<Rightarrow> ('r, 'x, 'lis) Server \<Rightarrow> actor list \<Rightarrow> serving" where
  "serve_init addr s actors = \<lparr>sr_actors = actors, sr_logging = sv_logging s, sr_addr = addr, sr_act = (\<lambda>_. NotStarted),
     sr_flags = serve_flags s, sr_first = None, sr_int = ([], AtLoad), sr_closer = None, sr_result = None, sr_log = []\<rparr>"

section \<open>Invariants\<close>

fun closing_at :: "closer \<Rightarrow> close_pc \<Rightarrow> actor \<Rightarrow> bool" where
  "closing_at (a # as, pc) pc' b \<longleftrightarrow> a = b \<and> pc = pc'"
| "closing_at ([], _) _ _ \<longleftrightarrow> False"

lemma closing_at_iff: "closing_at c pc a \<longleftrightarrow> (\<exists>as. c = (a # as, pc))"
  by (cases "(c, pc, a)" rule: closing_at.cases) auto

definition busy :: "closer \<Rightarrow> actor \<Rightarrow> nat" where
  "busy c a = (if closing_at c AtStore a \<or> closing_at c AtStop a then 1 else 0)"

text \<open>
  Two closing threads and the flags: a server whose flag is not set was not stopped, one whose flag is set was stopped
  or is about to be, and no server is stopped more than twice.
\<close>

definition flag_ok :: "bool \<Rightarrow> nat \<Rightarrow> closer \<Rightarrow> closer \<Rightarrow> actor \<Rightarrow> bool" where
  "flag_ok closed stops c d a \<longleftrightarrow>
     (if closed then 0 < stops \<or> closing_at c AtStop a \<or> closing_at d AtStop a
      else stops = 0 \<and> \<not> closing_at c AtStop a \<and> \<not> closing_at d AtStop a)
   \<and> stops + busy c a + busy d a \<le> 2"

definition flags_inv :: "close_flags \<Rightarrow> closer \<Rightarrow> closer \<Rightarrow> bool" where
  "flags_inv fl c d \<longleftrightarrow> (\<forall>a. flag_ok (fst fl a) (snd fl a) c d a)"

lemma flags_inv_commute: "flags_inv fl c d \<longleftrightarrow> flags_inv fl d c"
  by (simp add: flags_inv_def flag_ok_def add.commute add.left_commute disj_commute conj_commute cong: if_cong)

lemma idle_at [simp]: "\<not> closing_at (as, AtLoad) AtStore a" "\<not> closing_at (as, AtLoad) AtStop a" "busy (as, AtLoad) a = 0"
  "\<not> closing_at ([], pc) pc' a" "busy ([], pc) a = 0"
  by (cases as; simp add: busy_def)+

lemma busy_Cons: "busy (a # as, pc) b = (if a = b \<and> pc \<noteq> AtLoad then 1 else 0)"
  by (cases pc) (auto simp: busy_def)

lemma busy_le: "busy c a \<le> 1"
  by (simp add: busy_def)

lemma flags_inv_idle:
  assumes "flags_inv fl c d" and "\<forall>a. \<not> closing_at c AtStop a"
  shows "flags_inv fl (as, AtLoad) d"
  unfolding flags_inv_def
proof
  fix a
  from assms(1) have "flag_ok (fst fl a) (snd fl a) c d a" by (simp add: flags_inv_def)
  with assms(2) show "flag_ok (fst fl a) (snd fl a) (as, AtLoad) d a" by (auto simp: flag_ok_def split: if_splits)
qed

text \<open>A step of one thread, for one server.\<close>

lemma flag_ok_step:
  assumes "flag_ok (closed b) (stops b) (a # as, pc) d b"
    and "close_step (a # as, pc) (closed, stops) = (c', closed', stops')"
  shows "flag_ok (closed' b) (stops' b) c' d b"
  using assms busy_le [of d b]
  by (cases pc; cases "a = b") (auto simp: flag_ok_def busy_Cons split: if_splits)

lemma flags_inv_step:
  assumes "flags_inv fl c d" and "close_step c fl = (c', fl')"
  shows "flags_inv fl' c' d"
proof (cases "fst c")
  case Nil
  then show ?thesis using assms by (cases c) simp
next
  case (Cons a as)
  then show ?thesis
    using assms flag_ok_step [of "fst fl" _ "snd fl" a as "snd c" d c' "fst fl'" "snd fl'"]
    by (simp add: flags_inv_def) (metis prod.collapse)
qed

lemma close_step_todo:
  assumes "close_step c fl = (c', fl')"
  shows "fst fl a \<Longrightarrow> fst fl' a"
    and "a \<in> set (fst c) \<Longrightarrow> a \<in> set (fst c') \<or> fst fl a \<or> closing_at c AtStop a"
  using assms by (cases "(c, fl)" rule: close_step.cases; auto split: if_splits)+

lemma stopping_closed: "flags_inv fl c d \<Longrightarrow> closing_at c AtStop a \<Longrightarrow> fst fl a"
  by (auto simp: flags_inv_def flag_ok_def split: if_splits)

definition closer_of :: "serving \<Rightarrow> closer" where
  "closer_of s = (case sr_closer s of None \<Rightarrow> ([], AtLoad) | Some c \<Rightarrow> c)"

definition all_exited :: "serving \<Rightarrow> bool" where
  "all_exited s \<longleftrightarrow> (\<forall>a \<in> set (sr_actors s). \<exists>r. sr_act s a = Exited r)"

definition serve_inv :: "actor list \<Rightarrow> serving \<Rightarrow> bool" where
  "serve_inv actors s \<longleftrightarrow>
     sr_actors s = actors
   \<and> (sr_first s = None \<longrightarrow> sr_int s = ([], AtLoad))
   \<and> (\<forall>r. sr_first s = Some r \<longrightarrow> (\<exists>a \<in> set actors. sr_act s a = Exited r)
        \<and> (\<forall>a \<in> set actors. a \<in> set (fst (sr_int s)) \<or> fst (sr_flags s) a))
   \<and> (\<forall>r. sr_result s = Some r \<longrightarrow> sr_first s = Some r \<and> fst (sr_int s) = [] \<and> all_exited s)
   \<and> flags_inv (sr_flags s) (sr_int s) (closer_of s)"

lemma exited_update:
  "\<exists>b \<in> A. f b = Exited q \<Longrightarrow> \<forall>r. f a \<noteq> Exited r \<Longrightarrow> \<exists>b \<in> A. (f(a := x)) b = Exited q"
  by (metis fun_upd_other)

lemma not_all_exited: "a \<in> set (sr_actors s) \<Longrightarrow> \<forall>r. sr_act s a \<noteq> Exited r \<Longrightarrow> \<not> all_exited s"
  unfolding all_exited_def by blast

lemma serve_inv_exits:
  assumes inv: "serve_inv actors s" and a: "a \<in> set (sr_actors s)" "sr_act s a = Running"
  shows "serve_inv actors (actor_exits a r s)"
proof (cases "sr_first s")
  case None
  with inv have "flags_inv (sr_flags s) ([], AtLoad) (closer_of s)" unfolding serve_inv_def by metis
  then have "flags_inv (sr_flags s) (sr_actors s, AtLoad) (closer_of s)" by (rule flags_inv_idle) simp
  with None inv a show ?thesis by (auto simp: serve_inv_def actor_exits_def closer_of_def)
next
  case (Some q)
  with inv have "\<exists>b \<in> set actors. sr_act s b = Exited q" unfolding serve_inv_def by blast
  from exited_update [OF this, of a] a(2)
  have "\<exists>b \<in> set actors. ((sr_act s)(a := Exited r)) b = Exited q" by simp
  moreover have "\<not> all_exited s" using not_all_exited a by simp
  ultimately show ?thesis using Some inv by (simp add: serve_inv_def actor_exits_def closer_of_def)
qed

lemma serve_inv_interrupts:
  assumes inv: "serve_inv actors s" and "fst (sr_int s) \<noteq> []" and st: "close_step (sr_int s) (sr_flags s) = (th, fl)"
  shows "serve_inv actors (s\<lparr>sr_int := th, sr_flags := fl\<rparr>)"
proof -
  have flags: "flags_inv (sr_flags s) (sr_int s) (closer_of s)" using inv by (simp add: serve_inv_def)
  then have "flags_inv fl th (closer_of s)" using st by (rule flags_inv_step)
  moreover have "a \<in> set (fst th) \<or> fst fl a" if "a \<in> set (fst (sr_int s)) \<or> fst (sr_flags s) a" for a
    using that close_step_todo [OF st, of a] stopping_closed [OF flags, of a] by blast
  ultimately show ?thesis
    using assms(1,2) by (auto simp: serve_inv_def closer_of_def)
qed

lemma serve_inv_closer:
  assumes "serve_inv actors s" and "flags_inv fl (sr_int s) c" and "\<And>a. fst (sr_flags s) a \<Longrightarrow> fst fl a"
    and "c = (case oc of None \<Rightarrow> ([], AtLoad) | Some c \<Rightarrow> c)"
  shows "serve_inv actors (s\<lparr>sr_closer := oc, sr_flags := fl, sr_log := l\<rparr>)"
  using assms by (auto simp: serve_inv_def closer_of_def all_exited_def)

lemma serve_inv_step:
  assumes inv: "serve_inv actors s" and step: "serve_step s op t"
  shows "serve_inv actors t"
  using step
proof cases
  case (actor_starts a)
  have "\<exists>b \<in> set actors. ((sr_act s)(a := Running)) b = Exited q" if "sr_first s = Some q" for q
    using exited_update [of "set actors" "sr_act s" q a] inv that actor_starts(4) unfolding serve_inv_def by simp
  moreover have "\<not> all_exited s" using not_all_exited actor_starts(3,4) by simp
  ultimately show ?thesis using inv unfolding actor_starts(2) by (simp add: serve_inv_def closer_of_def)
next
  case (actor_returns a served)
  with inv show ?thesis by (simp add: serve_inv_exits)
next
  case (interrupts th fl)
  with inv show ?thesis by (simp add: serve_inv_interrupts)
next
  case close_begins
  have "flags_inv (sr_flags s) (closer_of s) (sr_int s)" "closer_of s = ([], AtLoad)"
    using inv close_begins by (simp_all add: serve_inv_def flags_inv_commute closer_of_def)
  then have "flags_inv (sr_flags s) (close_order (sr_actors s), AtLoad) (sr_int s)" by (auto intro: flags_inv_idle)
  then have "serve_inv actors (s\<lparr>sr_closer := Some (close_order (sr_actors s), AtLoad), sr_flags := sr_flags s, sr_log := sr_log s\<rparr>)"
    by (intro serve_inv_closer [OF inv]) (auto simp: flags_inv_commute)
  with close_begins show ?thesis by simp
next
  case (close_proceeds c th fl)
  have "flags_inv (sr_flags s) c (sr_int s)"
    using inv close_proceeds by (simp add: serve_inv_def flags_inv_commute closer_of_def)
  from flags_inv_step [OF this close_proceeds(5)] show ?thesis
    unfolding close_proceeds(2)
    by (intro serve_inv_closer [OF inv]) (auto simp: flags_inv_commute intro: close_step_todo(1) [OF close_proceeds(5)])
next
  case (close_fails as th fl err)
  have "flags_inv (sr_flags s) (GatewayActor # as, AtStop) (sr_int s)"
    using inv close_fails by (simp add: serve_inv_def flags_inv_commute closer_of_def)
  from flags_inv_step [OF this close_fails(4)] have "flags_inv fl th (sr_int s)" .
  moreover have "\<forall>a. \<not> closing_at th AtStop a"
    using close_fails(4) by (cases "sr_flags s") auto
  ultimately have "flags_inv fl ([], AtLoad) (sr_int s)" by (rule flags_inv_idle)
  then show ?thesis
    unfolding close_fails(2)
    by (intro serve_inv_closer [OF inv]) (auto simp: flags_inv_commute intro: close_step_todo(1) [OF close_fails(4)])
next
  case (close_returns pc)
  have "flags_inv (sr_flags s) ([], pc) (sr_int s)"
    using inv close_returns by (simp add: serve_inv_def flags_inv_commute closer_of_def)
  then have "flags_inv (sr_flags s) ([], AtLoad) (sr_int s)" by (rule flags_inv_idle) simp
  then have "serve_inv actors (s\<lparr>sr_closer := None, sr_flags := sr_flags s, sr_log := sr_log s\<rparr>)"
    by (intro serve_inv_closer [OF inv]) (auto simp: flags_inv_commute)
  with close_returns show ?thesis by simp
next
  case (run_returns r)
  with inv show ?thesis by (simp add: serve_inv_def closer_of_def all_exited_def)
qed

text \<open>A server that was closed any number of times has flags that fit.\<close>

lemma serve_inv_init:
  assumes "stop_inv s"
  shows "serve_inv actors (serve_init addr s actors)"
proof -
  have "flag_ok (fst (serve_flags s) a) (snd (serve_flags s) a) ([], AtLoad) ([], AtLoad) a" for a
    using assms by (cases a) (auto simp: flag_ok_def serve_flags_def stop_inv_def split: option.splits if_splits)
  then show ?thesis
    by (simp add: serve_inv_def serve_init_def closer_of_def flags_inv_def)
qed

interpretation serving: invariant_machine "serve_init addr s actors" serve_step "\<lambda>t. stop_inv s \<longrightarrow> serve_inv actors t"
  for addr s actors
  by unfold_locales (auto intro: serve_inv_init serve_inv_step)

section \<open>Running a schedule\<close>

text \<open>The same steps as a function, for concrete schedules.\<close>

definition close_exec :: "closer \<Rightarrow> serving \<Rightarrow> closer option \<Rightarrow> serving" where
  "close_exec c s oc =
     (let (th, fl) = close_step c (sr_flags s) in
      s\<lparr>sr_closer := (case oc of None \<Rightarrow> Some th | Some _ \<Rightarrow> None), sr_flags := fl,
        sr_log := sr_log s @ close_lines (sr_logging s) c th\<rparr>)"

fun has_exited :: "actor_state \<Rightarrow> bool" where
  "has_exited (Exited _) = True"
| "has_exited _ = False"

lemma has_exited_iff: "has_exited x \<longleftrightarrow> (\<exists>r. x = Exited r)"
  by (cases x) simp_all

fun serve_exec :: "serving \<Rightarrow> serve_op \<Rightarrow> serving option" where
  "serve_exec s (ActorStarts a) =
     (if a \<in> set (sr_actors s) \<and> sr_act s a = NotStarted then
        Some (s\<lparr>sr_act := (sr_act s)(a := Running),
          sr_log := sr_log s @ logDebug (sr_logging s) (start_message a) (Some (sr_addr s a))\<rparr>)
      else None)"
| "serve_exec s (ActorReturns a served) =
     (if a \<in> set (sr_actors s) \<and> sr_act s a = Running \<and> serve_returns a (snd (sr_flags s) a) served then
        Some (actor_exits a (actor_result a served) s)
      else None)"
| "serve_exec s Interrupts =
     (if fst (sr_int s) = [] then None
      else let (th, fl) = close_step (sr_int s) (sr_flags s) in Some (s\<lparr>sr_int := th, sr_flags := fl\<rparr>))"
| "serve_exec s CloseBegins =
     (case sr_closer s of None \<Rightarrow> Some (s\<lparr>sr_closer := Some (close_order (sr_actors s), AtLoad)\<rparr>) | Some _ \<Rightarrow> None)"
| "serve_exec s CloseProceeds =
     (case sr_closer s of None \<Rightarrow> None | Some c \<Rightarrow> if fst c = [] then None else Some (close_exec c s None))"
| "serve_exec s (CloseFails err) =
     (case sr_closer s of Some (GatewayActor # as, AtStop) \<Rightarrow> Some (close_exec (GatewayActor # as, AtStop) s (Some ([], AtLoad)))
      | _ \<Rightarrow> None)"
| "serve_exec s CloseReturns =
     (case sr_closer s of Some ([], _) \<Rightarrow> Some (s\<lparr>sr_closer := None\<rparr>) | _ \<Rightarrow> None)"
| "serve_exec s RunReturns =
     (case sr_first s of
        Some r \<Rightarrow> if fst (sr_int s) = [] \<and> list_all (\<lambda>a. has_exited (sr_act s a)) (sr_actors s)
                     \<and> sr_result s = None
                  then Some (s\<lparr>sr_result := Some r\<rparr>) else None
      | None \<Rightarrow> None)"

lemma close_fails_exec: "serve_exec s (CloseFails err) = Some t \<Longrightarrow>
    \<exists>as. sr_closer s = Some (GatewayActor # as, AtStop) \<and> t = close_exec (GatewayActor # as, AtStop) s (Some ([], AtLoad))"
  by (auto split: option.splits list.splits close_pc.splits actor.splits prod.splits)

lemma close_returns_exec: "serve_exec s CloseReturns = Some t \<Longrightarrow> \<exists>pc. sr_closer s = Some ([], pc) \<and> t = s\<lparr>sr_closer := None\<rparr>"
  by (auto split: option.splits list.splits prod.splits)

lemma run_returns_exec: "serve_exec s RunReturns = Some t \<Longrightarrow> \<exists>r. sr_first s = Some r \<and> fst (sr_int s) = [] \<and> sr_result s = None
    \<and> (\<forall>a \<in> set (sr_actors s). \<exists>r. sr_act s a = Exited r) \<and> t = s\<lparr>sr_result := Some r\<rparr>"
  by (auto simp: list_all_iff has_exited_iff split: option.splits if_splits)

lemma serve_exec_sound: "serve_exec s op = Some t \<Longrightarrow> serve_step s op t"
proof (cases op)
  case (CloseFails err)
  assume "serve_exec s op = Some t"
  with CloseFails close_fails_exec [of s err t] show ?thesis
    by (auto simp: close_exec_def split: prod.split intro: serve_step.intros)
next
  case CloseReturns
  assume "serve_exec s op = Some t"
  with CloseReturns close_returns_exec [of s t] show ?thesis by (auto intro: serve_step.intros)
next
  case RunReturns
  assume "serve_exec s op = Some t"
  with RunReturns run_returns_exec [of s t] show ?thesis by (auto intro: serve_step.intros)
qed (auto simp: close_exec_def split: if_splits option.splits prod.splits intro: serve_step.intros)

lemma run_reachable: "reachable init serve_step s \<Longrightarrow> run serve_exec s ops = Some t \<Longrightarrow> reachable init serve_step t"
proof (induction ops arbitrary: s)
  case (Cons op ops)
  then obtain u where "serve_exec s op = Some u" "run serve_exec u ops = Some t" by (auto split: option.splits)
  with Cons show ?case by (meson reachable_step serve_exec_sound)
qed simp

section \<open>Properties\<close>

text \<open>
  C11. Serving with concurrent calls of \<open>Close\<close>: \<open>ListenAndServe\<close> returns the result of an actor, the first that returned,
  and only when all actors have returned and the flags of all servers are set. Once the first has returned and the
  interruption is over, every server was stopped or a caller of \<open>Close\<close> is just about to stop it. Since a caller of \<open>Close\<close> and the
  run group can both find the flag of a server unset, a server can be stopped twice, and never more often.
\<close>

theorem grpc_serve_returns:
  assumes "NewServer env register h mar cors opt = Inr s" and "ListenAndServe (closes rs s) = Inr actors"
    and "reachable (serve_init addr (closes rs s) actors) serve_step t"
  shows "(\<forall>r. sr_result t = Some r \<longrightarrow> sr_first t = Some r \<and> (\<exists>a \<in> set actors. sr_act t a = Exited r)
           \<and> (\<forall>a \<in> set actors. (\<exists>q. sr_act t a = Exited q) \<and> fst (sr_flags t) a))
    \<and> (\<forall>r. sr_first t = Some r \<and> fst (sr_int t) = [] \<longrightarrow> (\<forall>a \<in> set actors. 0 < snd (sr_flags t) a
           \<or> (\<exists>as. sr_closer t = Some (a # as, AtStop))))
    \<and> (\<forall>a. snd (sr_flags t) a \<le> 2)"
proof -
  have "stop_inv (closes rs s)"
    using NewServer_inv [OF assms(1)] stop_inv_closes by blast
  with serving.inv_reachable [OF assms(3)] have inv: "serve_inv actors t" by blast
  then have ok: "flag_ok (fst (sr_flags t) a) (snd (sr_flags t) a) (sr_int t) (closer_of t) a" for a
    by (simp add: serve_inv_def flags_inv_def)
  have "0 < snd (sr_flags t) a \<or> (\<exists>as. sr_closer t = Some (a # as, AtStop))"
    if "sr_first t = Some r" "fst (sr_int t) = []" "a \<in> set actors" for r a
  proof -
    have "fst (sr_flags t) a" using inv that unfolding serve_inv_def by fastforce
    moreover have "\<not> closing_at (sr_int t) AtStop a" using that(2) by (cases "sr_int t") simp
    ultimately have "0 < snd (sr_flags t) a \<or> closing_at (closer_of t) AtStop a" using ok [of a] by (simp add: flag_ok_def)
    then show ?thesis
      by (auto simp: closing_at_iff closer_of_def split: option.splits)
  qed
  moreover have "snd (sr_flags t) a \<le> 2" for a using ok [of a] by (simp add: flag_ok_def)
  ultimately show ?thesis
    using inv unfolding serve_inv_def all_exited_def by (auto 0 3)
qed

text \<open>A new server with its gateway, and a schedule in which the gRPC server is stopped twice.\<close>

lemma example_server:
  obtains s g where "NewServer example_env (\<lambda>_ _. None) (\<lambda>x. x) 0 0 [WithAddress ''localhost:80''] = Inr s"
    and "sv_gateway s = Some g" and "\<not> gw_closed g" and "gw_shutdowns g = 0" and "\<not> gs_closed (sv_grpc s)" and "sv_stops s = 0"
    and "sv_logging s = None" and "\<not> sv_closed s"
proof -
  have "SplitHostPort ''localhost:80'' = Inr (''localhost'', ''80'')"
    using split_plain [of "''localhost''" "''80''"] by simp
  then show thesis
    using that by (simp add: NewServer_def newGRPCServer_def WithAddress_def defaultServerOptions_def newGRPCListener_def
        strconv_Atoi_def example_env_def server_interceptors_def newGatewayServer_def isErrorHandlerNil_def Let_def)
qed

definition race_schedule :: "serve_op list" where
  "race_schedule = [ActorStarts GrpcActor, ActorStarts GatewayActor, ActorReturns GrpcActor (Some (ErrNew ''accept'')),
     Interrupts, CloseBegins, CloseProceeds, CloseProceeds, CloseProceeds, CloseProceeds, Interrupts, Interrupts,
     CloseProceeds, CloseProceeds, ActorReturns GatewayActor (Some (ErrNew ''http: Server closed'')), Interrupts, RunReturns]"

theorem grpc_serve_returns_witness:
  "\<exists>s t. NewServer example_env (\<lambda>_ _. None) (\<lambda>x. x) 0 0 [WithAddress ''localhost:80''] = Inr s
     \<and> reachable (serve_init (\<lambda>_. []) (closes [] s) [GrpcActor, GatewayActor]) serve_step t
     \<and> sr_result t = Some (Some (ErrNew ''accept'')) \<and> sr_act t GatewayActor = Exited None
     \<and> snd (sr_flags t) GrpcActor = 2 \<and> fst (sr_flags t) GatewayActor"
proof -
  obtain s g where s: "NewServer example_env (\<lambda>_ _. None) (\<lambda>x. x) 0 0 [WithAddress ''localhost:80''] = Inr s"
    "sv_gateway s = Some g" "\<not> gw_closed g" "gw_shutdowns g = 0" "\<not> gs_closed (sv_grpc s)" "sv_stops s = 0"
    "sv_logging s = None" "\<not> sv_closed s"
    by (rule example_server)
  let ?i = "serve_init (\<lambda>_. []) (closes [] s) [GrpcActor, GatewayActor]"
  have "\<exists>t. run serve_exec ?i race_schedule = Some t
      \<and> sr_result t = Some (Some (ErrNew ''accept'')) \<and> sr_act t GatewayActor = Exited None \<and> snd (sr_flags t) GrpcActor = 2"
    using s by (simp add: race_schedule_def serve_init_def closes_def serve_flags_def actor_exits_def close_order_def close_exec_def
        runGRPCServer_def runGatewayServer_def gateway_listenAndServe_def errors_Is_def)
  then obtain t where t: "run serve_exec ?i race_schedule = Some t"
    "sr_result t = Some (Some (ErrNew ''accept''))" "sr_act t GatewayActor = Exited None" "snd (sr_flags t) GrpcActor = 2"
    by blast
  from run_reachable [OF reachable_init t(1)] have reach: "reachable ?i serve_step t" .
  have "ListenAndServe (closes [] s) = Inr [GrpcActor, GatewayActor]"
    using s by (simp add: ListenAndServe_def closes_def)
  from grpc_serve_returns [OF s(1) this reach] t have "fst (sr_flags t) GatewayActor" by simp
  with s(1) reach t show ?thesis by blast
qed

end
