(* ===== verification/Auth.thy ===== *)
theory Auth
  imports Go_Errors
begin

text \<open>
  Authentication and authorisation (\<^verbatim>\<open>src/auth\<close>): the bearer token of the gRPC metadata, the JWT
  manager, the two unary interceptors, and the HTTP middlewares that carry identities in the request
  context. The JWT library is a parameter: how it decodes a token, which claims it finds valid at
  the time of the call, when a signature verifies under a key, and its parser, whose documented
  behaviour is the hypothesis \<open>jwt_documented\<close>.
\<close>

section \<open>Contexts\<close>

text \<open>
  A context is the chain of its values, newest first; keys of different types never collide. The
  type variable stands for the library's standard claims.
\<close>

datatype ctx_key = userIDCtxKey | appIDCtxKey | usernameCtxKey | ctxUserClaimsKey | CtxProviderClaimsKey

record 'std UserClaims =
  uc_StandardClaims :: 'std
  Role :: string
  Nid :: string
  Username :: string

record 'std ProviderClaims =
  pc_StandardClaims :: 'std

datatype 'std ctx_val =
  VString string | VKey ctx_key | VUser "'std UserClaims" | VProvider "'std ProviderClaims"

record 'std ctx =
  cx_values :: "(ctx_key \<times> 'std ctx_val) list"
  cx_incoming :: "(string \<rightharpoonup> string list) option"

definition ctx_WithValue :: "'std ctx \<Rightarrow> ctx_key \<Rightarrow> 'std ctx_val \<Rightarrow> 'std ctx" where
  "ctx_WithValue ctx k v = ctx\<lparr>cx_values := (k, v) # cx_values ctx\<rparr>"

definition ctx_Value :: "'std ctx \<Rightarrow> ctx_key \<Rightarrow> 'std ctx_val option" where
  "ctx_Value ctx k = map_of (cx_values ctx) k"

text \<open>A type assertion to \<open>string\<close> whose second result is ignored: the zero value on failure.\<close>

definition string_value :: "'std ctx_val option \<Rightarrow> string" where
  "string_value v = (case v of Some (VString s) \<Rightarrow> s | _ \<Rightarrow> [])"

definition WithUser :: "'std ctx \<Rightarrow> 'std UserClaims \<Rightarrow> 'std ctx" where
  "WithUser ctx claims = ctx_WithValue ctx ctxUserClaimsKey (VUser claims)"

definition GetUserFromContext :: "'std ctx \<Rightarrow> 'std UserClaims option" where
  "GetUserFromContext ctx = (case ctx_Value ctx ctxUserClaimsKey of Some (VUser c) \<Rightarrow> Some c | _ \<Rightarrow> None)"

section \<open>Identities of HTTP requests\<close>

abbreviation HeaderUserID :: string where "HeaderUserID \<equiv> ''X-User-Id''"
abbreviation HeaderAppID :: string where "HeaderAppID \<equiv> ''X-App-Id''"
abbreviation HeaderUsername :: string where "HeaderUsername \<equiv> ''X-Username''"

definition NewUserIDContext :: "'std ctx \<Rightarrow> string \<Rightarrow> 'std ctx" where
  "NewUserIDContext ctx userID = (if userID = [] then ctx else ctx_WithValue ctx userIDCtxKey (VString userID))"

definition NewAppIDContext :: "'std ctx \<Rightarrow> string \<Rightarrow> 'std ctx" where
  "NewAppIDContext ctx appID = (if appID = [] then ctx else ctx_WithValue ctx appIDCtxKey (VString appID))"

text \<open>The source stores the key, not the user name.\<close>

definition NewUsernameContext :: "'std ctx \<Rightarrow> string \<Rightarrow> 'std ctx" where
  "NewUsernameContext ctx username =
     (if username = [] then ctx else ctx_WithValue ctx usernameCtxKey (VKey usernameCtxKey))"

definition UserIDFromContext :: "'std ctx \<Rightarrow> string" where
  "UserIDFromContext ctx = string_value (ctx_Value ctx userIDCtxKey)"

definition AppIDFromContext :: "'std ctx \<Rightarrow> string" where
  "AppIDFromContext ctx = string_value (ctx_Value ctx appIDCtxKey)"

definition UsernameFromContext :: "'std ctx \<Rightarrow> string" where
  "UsernameFromContext ctx = string_value (ctx_Value ctx usernameCtxKey)"

text \<open>\<open>Header.Get\<close>: the first value of a header, by its canonical name.\<close>

type_synonym header = "string \<rightharpoonup> string list"

definition header_Get :: "header \<Rightarrow> string \<Rightarrow> string" where
  "header_Get h k = (case h k of Some (v # _) \<Rightarrow> v | _ \<Rightarrow> [])"

text \<open>A middleware turns a handler of a context and the request's headers into another.\<close>

definition UserIDMiddlewareFunc :: "('std ctx \<Rightarrow> header \<Rightarrow> 'w) \<Rightarrow> 'std ctx \<Rightarrow> header \<Rightarrow> 'w" where
  "UserIDMiddlewareFunc next_handler ctx h = next_handler (NewUserIDContext ctx (header_Get h HeaderUserID)) h"

definition AppIDMiddlewareFunc :: "('std ctx \<Rightarrow> header \<Rightarrow> 'w) \<Rightarrow> 'std ctx \<Rightarrow> header \<Rightarrow> 'w" where
  "AppIDMiddlewareFunc next_handler ctx h = next_handler (NewAppIDContext ctx (header_Get h HeaderAppID)) h"

definition UsernameMiddlewareFunc :: "('std ctx \<Rightarrow> header \<Rightarrow> 'w) \<Rightarrow> 'std ctx \<Rightarrow> header \<Rightarrow> 'w" where
  "UsernameMiddlewareFunc next_handler ctx h = next_handler (NewUsernameContext ctx (header_Get h HeaderUsername)) h"

section \<open>The JWT library\<close>

text \<open>
  The signing method of a token by its name, and whether it is of the HMAC family
  (\<open>*jwt.SigningMethodHMAC\<close>); the claims of a parsed token, \<open>None\<close> when they are not of the type
  that was asked for.
\<close>

record jwt_method =
  jm_name :: string
  jm_hmac :: bool

record 'c jwt_api =
  jwt_decode :: "string \<Rightarrow> (jwt_method \<times> 'c) result"
  jwt_signed :: "string \<Rightarrow> jwt_method \<Rightarrow> string \<Rightarrow> bool"
  jwt_valid :: "'c \<Rightarrow> bool"
  jwt_ParseWithClaims :: "string list \<Rightarrow> string \<Rightarrow> (jwt_method \<Rightarrow> string result) \<Rightarrow> ('c option) result"

text \<open>
  What the library documents of its parser: it gives the claims of a token exactly when the token
  decodes, its method is one of the valid methods (any method when none are listed), the key function
  yields a key, the signature verifies under that key, and the claims are valid; and what it gives
  has the type of the claims passed to it.
\<close>

definition token_accepted ::
  "'c jwt_api \<Rightarrow> string list \<Rightarrow> string \<Rightarrow> (jwt_method \<Rightarrow> string result) \<Rightarrow> 'c \<Rightarrow> bool" where
  "token_accepted api methods tok keyFunc c =
     (case jwt_decode api tok of
        Inl _ \<Rightarrow> False
      | Inr (m, c') \<Rightarrow> c' = c \<and> (methods = [] \<or> jm_name m \<in> set methods) \<and> jwt_valid api c
          \<and> (case keyFunc m of Inl _ \<Rightarrow> False | Inr key \<Rightarrow> jwt_signed api tok m key))"

definition jwt_documented :: "'c jwt_api \<Rightarrow> bool" where
  "jwt_documented api \<longleftrightarrow>
     (\<forall>methods tok keyFunc c. jwt_ParseWithClaims api methods tok keyFunc = Inr (Some c)
         \<longleftrightarrow> token_accepted api methods tok keyFunc c)
   \<and> (\<forall>methods tok keyFunc. jwt_ParseWithClaims api methods tok keyFunc \<noteq> Inr None)"

section \<open>Tokens\<close>

abbreviation ErrAuthTokenMissing :: go_error where "ErrAuthTokenMissing \<equiv> ErrNew ''auth token is missing''"
abbreviation ErrBadAuthString :: go_error where "ErrBadAuthString \<equiv> ErrNew ''bad authorization string''"
abbreviation ErrInvalidTokenClaims :: go_error where "ErrInvalidTokenClaims \<equiv> ErrNew ''invalid token claims''"
abbreviation ErrUnexpectedTokenSigningMethod :: go_error where
  "ErrUnexpectedTokenSigningMethod \<equiv> ErrNew ''unexpected token signing method''"

definition bearer_prefix :: string where "bearer_prefix = ''Bearer ''"

text \<open>\<open>v[0]\<close> of a metadata value: a key with an empty list of values panics.\<close>

definition first_value :: "string list \<Rightarrow> string go" where
  "first_value vs = (case vs of [] \<Rightarrow> Panic ''index out of range [0] with length 0'' | v # _ \<Rightarrow> Ret v)"

definition ExtractTokenFromMetadata :: "(string \<rightharpoonup> string list) \<Rightarrow> string result go" where
  "ExtractTokenFromMetadata md =
     (case md ''authorization'' of
        None \<Rightarrow> Ret (Inl ErrAuthTokenMissing)
      | Some meta \<Rightarrow>
          go_bind (first_value meta) (\<lambda>auth.
            if take (length bearer_prefix) auth \<noteq> bearer_prefix then Ret (Inl ErrBadAuthString)
            else Ret (Inr (drop (length bearer_prefix) auth))))"

record JWTManager =
  secretKey :: string
  tokenDuration :: int

definition NewJWTManager :: "string \<Rightarrow> int \<Rightarrow> JWTManager" where
  "NewJWTManager key d = \<lparr>secretKey = key, tokenDuration = d\<rparr>"

definition hmac_key :: "JWTManager \<Rightarrow> jwt_method \<Rightarrow> string result" where
  "hmac_key m meth = (if \<not> jm_hmac meth then Inl ErrUnexpectedTokenSigningMethod else Inr (secretKey m))"

definition JWT_Verify :: "'std UserClaims jwt_api \<Rightarrow> JWTManager \<Rightarrow> string \<Rightarrow> 'std UserClaims result" where
  "JWT_Verify api m accessToken =
     (case jwt_ParseWithClaims api [] accessToken (hmac_key m) of
        Inl err \<Rightarrow> Inl (wrap_with ''invalid token'' err)
      | Inr None \<Rightarrow> Inl ErrInvalidTokenClaims
      | Inr (Some claims) \<Rightarrow> Inr claims)"

section \<open>The role interceptor\<close>

record Interceptor =
  ic_jwtManager :: JWTManager
  authRoles :: "string \<rightharpoonup> string list"

definition NewAuthInterceptor :: "JWTManager \<Rightarrow> (string \<rightharpoonup> string list) \<Rightarrow> Interceptor" where
  "NewAuthInterceptor m roles = \<lparr>ic_jwtManager = m, authRoles = roles\<rparr>"

abbreviation unauthenticated :: "string \<Rightarrow> go_error" where
  "unauthenticated msg \<equiv> ErrStatus \<lparr>st_code = Unauthenticated, st_message = msg, st_details = []\<rparr>"

fun role_allowed :: "string \<Rightarrow> string list \<Rightarrow> bool" where
  "role_allowed r [] = False"
| "role_allowed r (role # roles) = (if role = r then True else role_allowed r roles)"

definition authorize ::
  "'std UserClaims jwt_api \<Rightarrow> Interceptor \<Rightarrow> 'std ctx \<Rightarrow> string \<Rightarrow> ('std ctx \<times> go_error option) go" where
  "authorize api i ctx meth =
     (case authRoles i meth of
        None \<Rightarrow> Ret (ctx, None)
      | Some roles \<Rightarrow>
     (case cx_incoming ctx of
        None \<Rightarrow> Ret (ctx, Some (unauthenticated ''auth token is invalid''))
      | Some md \<Rightarrow>
          go_bind (ExtractTokenFromMetadata md) (\<lambda>x. case x of
            Inl err \<Rightarrow> Ret (ctx, Some (unauthenticated ''auth token is invalid''))
          | Inr signature \<Rightarrow>
              (case JWT_Verify api (ic_jwtManager i) signature of
                 Inl err \<Rightarrow> Ret (ctx, Some (unauthenticated ''auth token is invalid''))
               | Inr claims \<Rightarrow>
                   if role_allowed (Role claims) roles then Ret (WithUser ctx claims, None)
                   else Ret (ctx, Some (unauthenticated ''no permission to access this RPC''))))))"

definition Auth_Unary ::
  "'std UserClaims jwt_api \<Rightarrow> Interceptor \<Rightarrow> 'std ctx \<Rightarrow> string
   \<Rightarrow> ('std ctx \<Rightarrow> ('r option \<times> go_error option) go) \<Rightarrow> ('r option \<times> go_error option) go" where
  "Auth_Unary api i ctx meth handler =
     go_bind (authorize api i ctx meth) (\<lambda>(ctxAuth, err).
       case err of Some e \<Rightarrow> Ret (None, Some e) | None \<Rightarrow> handler ctxAuth)"

section \<open>The provider interceptor\<close>

record AuthorizerConfig =
  Secret :: string

record AuthorizerInterceptor =
  ai_jwtManager :: JWTManager
  ai_config :: AuthorizerConfig

definition NewAuthorizerInterceptor :: "JWTManager \<Rightarrow> AuthorizerConfig \<Rightarrow> AuthorizerInterceptor" where
  "NewAuthorizerInterceptor m cfg = \<lparr>ai_jwtManager = m, ai_config = cfg\<rparr>"

text \<open>
  The claims variable is filled by the parser; a failed parse gives no context (\<open>nil\<close>).
\<close>

definition provider_authorize ::
  "'std ProviderClaims jwt_api \<Rightarrow> AuthorizerInterceptor \<Rightarrow> 'std ctx \<Rightarrow> ('std ctx option \<times> go_error option) go" where
  "provider_authorize api i ctx =
     (case cx_incoming ctx of
        None \<Rightarrow> Ret (Some ctx, Some (unauthenticated ''signature is required''))
      | Some md \<Rightarrow>
     (case md ''x-api-key'' of
        None \<Rightarrow> Ret (Some ctx, Some (unauthenticated ''invalid signature''))
      | Some signature \<Rightarrow>
          go_bind (first_value signature) (\<lambda>tok.
            case jwt_ParseWithClaims api [''HS256''] tok (\<lambda>_. Inr (Secret (ai_config i))) of
              Inr (Some claims) \<Rightarrow> Ret (Some (ctx_WithValue ctx CtxProviderClaimsKey (VProvider claims)), None)
            | _ \<Rightarrow> Ret (None, Some (unauthenticated ''you are not authorized to access this resource'')))))"

definition Provider_Unary ::
  "'std ProviderClaims jwt_api \<Rightarrow> AuthorizerInterceptor \<Rightarrow> 'std ctx \<Rightarrow> string
   \<Rightarrow> ('std ctx option \<Rightarrow> ('r option \<times> go_error option) go) \<Rightarrow> ('r option \<times> go_error option) go" where
  "Provider_Unary api i ctx meth handler =
     go_bind (provider_authorize api i ctx) (\<lambda>(ctxAuth, err).
       case err of Some e \<Rightarrow> Ret (None, Some e) | None \<Rightarrow> handler ctxAuth)"

section \<open>Guards\<close>

text \<open>
  The contract both interceptors implement: with documented libraries and well-formed metadata
  (\<open>ok\<close>), \<open>authz\<close> admits exactly the requests of a specification \<open>admitted\<close>, which also names the
  context the handler gets, and refuses the others with an Unauthenticated status; \<open>unary\<close> runs the
  handler only behind it. The environment \<open>'e\<close> holds the library, the interceptor and the method.
\<close>

locale unary_guard =
  fixes authz :: "'e \<Rightarrow> 'ctx \<Rightarrow> ('d \<times> go_error option) go"
    and unary :: "'e \<Rightarrow> 'ctx \<Rightarrow> ('d \<Rightarrow> ('r option \<times> go_error option) go) \<Rightarrow> ('r option \<times> go_error option) go"
    and ok :: "'e \<Rightarrow> 'ctx \<Rightarrow> bool"
    and admitted :: "'e \<Rightarrow> 'ctx \<Rightarrow> 'd option"
  assumes unary_bind: "unary e ctx h =
      go_bind (authz e ctx) (\<lambda>(d, err). case err of Some x \<Rightarrow> Ret (None, Some x) | None \<Rightarrow> h d)"
    and admits: "ok e ctx \<Longrightarrow> admitted e ctx = Some d \<Longrightarrow> authz e ctx = Ret (d, None)"
    and refuses: "ok e ctx \<Longrightarrow> admitted e ctx = None \<Longrightarrow>
      \<exists>d msg. authz e ctx = Ret (d, Some (unauthenticated msg))"
begin

lemma runs_admitted: "ok e ctx \<Longrightarrow> admitted e ctx = Some d \<Longrightarrow> unary e ctx h = h d"
  by (simp add: unary_bind admits)

lemma stops_refused:
  "ok e ctx \<Longrightarrow> admitted e ctx = None \<Longrightarrow> \<exists>msg. \<forall>h. unary e ctx h = Ret (None, Some (unauthenticated msg))"
  using refuses [of e ctx] by (auto simp: unary_bind)

lemma guarded:
  "ok e ctx \<Longrightarrow>
   (case admitted e ctx of
      Some d \<Rightarrow> \<forall>h. unary e ctx h = h d
    | None \<Rightarrow> \<exists>msg. \<forall>h. unary e ctx h = Ret (None, Some (unauthenticated msg)))"
  using runs_admitted stops_refused by (auto split: option.split)

end

text \<open>gRPC never hands on a metadata key without values.\<close>

definition metadata_ok :: "'std ctx \<Rightarrow> bool" where
  "metadata_ok ctx \<longleftrightarrow> (case cx_incoming ctx of None \<Rightarrow> True | Some md \<Rightarrow> [] \<notin> ran md)"

definition metadata_first :: "'std ctx \<Rightarrow> string \<Rightarrow> string option" where
  "metadata_first ctx k = (case cx_incoming ctx of None \<Rightarrow> None | Some md \<Rightarrow>
     (case md k of Some (v # _) \<Rightarrow> Some v | _ \<Rightarrow> None))"

text \<open>The claims of a token whose signature and contents the library accepts, under a secret.\<close>

definition signed_claims :: "'c jwt_api \<Rightarrow> (jwt_method \<Rightarrow> bool) \<Rightarrow> string \<Rightarrow> string \<Rightarrow> 'c option" where
  "signed_claims api meth_ok secret tok =
     (case jwt_decode api tok of
        Inl _ \<Rightarrow> None
      | Inr (m, c) \<Rightarrow> if meth_ok m \<and> jwt_signed api tok m secret \<and> jwt_valid api c then Some c else None)"

definition role_admitted ::
  "'std UserClaims jwt_api \<times> Interceptor \<times> string \<Rightarrow> 'std ctx \<Rightarrow> 'std ctx option" where
  "role_admitted = (\<lambda>(api, i, meth) ctx.
     (case authRoles i meth of
        None \<Rightarrow> Some ctx
      | Some roles \<Rightarrow>
          (case metadata_first ctx ''authorization'' of
             None \<Rightarrow> None
           | Some auth \<Rightarrow>
               if take 7 auth = bearer_prefix then
                 (case signed_claims api jm_hmac (secretKey (ic_jwtManager i)) (drop 7 auth) of
                    None \<Rightarrow> None
                  | Some c \<Rightarrow> if Role c \<in> set roles then Some (WithUser ctx c) else None)
               else None)))"

definition provider_admitted ::
  "'std ProviderClaims jwt_api \<times> AuthorizerInterceptor \<times> string \<Rightarrow> 'std ctx \<Rightarrow> 'std ctx option option" where
  "provider_admitted = (\<lambda>(api, i, meth) ctx.
     (case metadata_first ctx ''x-api-key'' of
        None \<Rightarrow> None
      | Some tok \<Rightarrow>
          (case signed_claims api (\<lambda>m. jm_name m = ''HS256'') (Secret (ai_config i)) tok of
             None \<Rightarrow> None
           | Some c \<Rightarrow> Some (Some (ctx_WithValue ctx CtxProviderClaimsKey (VProvider c))))))"

definition guard_ok :: "'c jwt_api \<times> 'i \<times> string \<Rightarrow> 'std ctx \<Rightarrow> bool" where
  "guard_ok = (\<lambda>(api, _) ctx. jwt_documented api \<and> metadata_ok ctx)"

section \<open>Lemmas\<close>

lemma role_allowed_iff [simp]: "role_allowed r roles \<longleftrightarrow> r \<in> set roles"
  by (induction roles) auto

lemma bearer_length [simp]: "length bearer_prefix = 7"
  by (simp add: bearer_prefix_def)

lemma first_of_metadata:
  assumes "metadata_ok ctx" and "cx_incoming ctx = Some md" and "md k = Some vs"
  obtains v vs' where "vs = v # vs'" "metadata_first ctx k = Some v"
  using assms by (cases vs) (auto simp: metadata_ok_def metadata_first_def ran_def)

text \<open>The parser with a key function that depends on the method alone.\<close>

lemma parse_signed:
  fixes api :: "'c jwt_api" and keyFunc good methods
  defines "sc \<equiv> signed_claims api (\<lambda>m. good m \<and> (methods = [] \<or> jm_name m \<in> set methods))"
  assumes "jwt_documented api"
    and "\<And>m. keyFunc m = (if good m then Inr secret else Inl e)"
  shows "sc secret tok = Some c \<Longrightarrow> jwt_ParseWithClaims api methods tok keyFunc = Inr (Some c)"
    and "sc secret tok = None \<Longrightarrow> \<exists>err. jwt_ParseWithClaims api methods tok keyFunc = Inl err"
proof -
  have acc: "token_accepted api methods tok keyFunc c \<longleftrightarrow> sc secret tok = Some c" for c
    using assms(3) by (auto simp: sc_def token_accepted_def signed_claims_def split: sum.splits)
  have doc: "jwt_ParseWithClaims api methods tok keyFunc = Inr (Some c) \<longleftrightarrow> sc secret tok = Some c" for c
    using assms(2) acc by (simp add: jwt_documented_def)
  have ne: "jwt_ParseWithClaims api methods tok keyFunc \<noteq> Inr None"
    using assms(2) by (simp add: jwt_documented_def)
  show "sc secret tok = Some c \<Longrightarrow> jwt_ParseWithClaims api methods tok keyFunc = Inr (Some c)"
    using doc by simp
  show "sc secret tok = None \<Longrightarrow> \<exists>err. jwt_ParseWithClaims api methods tok keyFunc = Inl err"
    using doc ne by (cases "jwt_ParseWithClaims api methods tok keyFunc") auto
qed

lemma jwt_verify_signed:
  assumes "jwt_documented api"
  shows "signed_claims api jm_hmac (secretKey m) tok = Some c \<Longrightarrow> JWT_Verify api m tok = Inr c"
    and "signed_claims api jm_hmac (secretKey m) tok = None \<Longrightarrow> \<exists>err. JWT_Verify api m tok = Inl err"
proof -
  have key: "hmac_key m meth = (if jm_hmac meth then Inr (secretKey m) else Inl ErrUnexpectedTokenSigningMethod)" for meth
    by (simp add: hmac_key_def)
  note parse = parse_signed [where keyFunc = "hmac_key m" and good = jm_hmac and methods = "[]" and tok = tok,
      OF assms key, simplified]
  show "signed_claims api jm_hmac (secretKey m) tok = Some c \<Longrightarrow> JWT_Verify api m tok = Inr c"
    using parse(1) by (simp add: JWT_Verify_def)
  show "signed_claims api jm_hmac (secretKey m) tok = None \<Longrightarrow> \<exists>err. JWT_Verify api m tok = Inl err"
    using parse(2) by (auto simp: JWT_Verify_def)
qed

lemma authorize_spec:
  assumes "guard_ok (api, i, meth) ctx"
  shows "case role_admitted (api, i, meth) ctx of
      Some d \<Rightarrow> authorize api i ctx meth = Ret (d, None)
    | None \<Rightarrow> \<exists>d msg. authorize api i ctx meth = Ret (d, Some (unauthenticated msg))"
proof (cases "authRoles i meth")
  case None
  then show ?thesis by (simp add: role_admitted_def authorize_def)
next
  case (Some roles)
  note roles = Some
  show ?thesis
  proof (cases "Option.bind (cx_incoming ctx) (\<lambda>md. md ''authorization'')")
    case None
    then have "metadata_first ctx ''authorization'' = None"
      by (auto simp: metadata_first_def split: option.splits)
    then show ?thesis
      using roles None by (auto simp: role_admitted_def authorize_def ExtractTokenFromMetadata_def split: option.splits)
  next
    case (Some vs)
    then obtain md where md: "cx_incoming ctx = Some md" "md ''authorization'' = Some vs"
      by (cases "cx_incoming ctx") auto
    obtain v vs' where vs: "vs = v # vs'" "metadata_first ctx ''authorization'' = Some v"
      using first_of_metadata [OF _ md] assms by (auto simp: guard_ok_def)
    have doc: "jwt_documented api" using assms by (simp add: guard_ok_def)
    show ?thesis
    proof (cases "signed_claims api jm_hmac (secretKey (ic_jwtManager i)) (drop 7 v)")
      case None
      then obtain err where "JWT_Verify api (ic_jwtManager i) (drop 7 v) = Inl err"
        using jwt_verify_signed(2) [OF doc] by blast
      with None roles md vs show ?thesis
        by (auto simp: role_admitted_def authorize_def ExtractTokenFromMetadata_def first_value_def)
    next
      case (Some c)
      with jwt_verify_signed(1) [OF doc] roles md vs show ?thesis
        by (simp add: role_admitted_def authorize_def ExtractTokenFromMetadata_def first_value_def)
    qed
  qed
qed

lemma provider_authorize_spec:
  assumes "guard_ok (api, i, meth) ctx"
  shows "case provider_admitted (api, i, meth) ctx of
      Some d \<Rightarrow> provider_authorize api i ctx = Ret (d, None)
    | None \<Rightarrow> \<exists>d msg. provider_authorize api i ctx = Ret (d, Some (unauthenticated msg))"
proof (cases "Option.bind (cx_incoming ctx) (\<lambda>md. md ''x-api-key'')")
  case None
  then have "metadata_first ctx ''x-api-key'' = None"
    by (auto simp: metadata_first_def split: option.splits)
  then show ?thesis
    using None by (auto simp: provider_admitted_def provider_authorize_def split: option.splits)
next
  case (Some vs)
  then obtain md where md: "cx_incoming ctx = Some md" "md ''x-api-key'' = Some vs"
    by (cases "cx_incoming ctx") auto
  obtain v vs' where vs: "vs = v # vs'" "metadata_first ctx ''x-api-key'' = Some v"
    using first_of_metadata [OF _ md] assms by (auto simp: guard_ok_def)
  have doc: "jwt_documented api" using assms by (simp add: guard_ok_def)
  have key: "(Inr (Secret (ai_config i)) :: string result) = (if True then Inr (Secret (ai_config i)) else Inl ErrBadAuthString)"
    for m :: jwt_method by simp
  note parse = parse_signed [OF doc key, where methods = "[''HS256'']" and tok = v, simplified]
  show ?thesis
  proof (cases "signed_claims api (\<lambda>m. jm_name m = ''HS256'') (Secret (ai_config i)) v")
    case None
    with parse(2) md vs show ?thesis
      by (auto simp: provider_admitted_def provider_authorize_def first_value_def)
  next
    case (Some c)
    with parse(1) md vs show ?thesis
      by (simp add: provider_admitted_def provider_authorize_def first_value_def)
  qed
qed

interpretation role_guard: unary_guard
  "\<lambda>(api, i, meth) ctx. authorize api i ctx meth" "\<lambda>(api, i, meth) ctx h. Auth_Unary api i ctx meth h"
  guard_ok role_admitted
proof (unfold_locales, goal_cases)
  case (1 e ctx h)
  then show ?case by (cases e) (simp add: Auth_Unary_def)
next
  case (2 e ctx d)
  then show ?case using authorize_spec by (cases e) (fastforce split: option.splits)
next
  case (3 e ctx)
  then show ?case using authorize_spec by (cases e) (fastforce split: option.splits)
qed

interpretation provider_guard: unary_guard
  "\<lambda>(api, i, meth) ctx. provider_authorize api i ctx" "\<lambda>(api, i, meth) ctx h. Provider_Unary api i ctx meth h"
  guard_ok provider_admitted
proof (unfold_locales, goal_cases)
  case (1 e ctx h)
  then show ?case by (cases e) (simp add: Provider_Unary_def)
next
  case (2 e ctx d)
  then show ?case using provider_authorize_spec by (cases e) (fastforce split: option.splits)
next
  case (3 e ctx)
  then show ?case using provider_authorize_spec by (cases e) (fastforce split: option.splits)
qed

section \<open>Properties\<close>

text \<open>A token of the request that carries claims with one of the roles, signed under the manager's secret.\<close>

definition role_token ::
  "'std UserClaims jwt_api \<Rightarrow> Interceptor \<Rightarrow> string list \<Rightarrow> 'std ctx \<Rightarrow> string \<Rightarrow> 'std UserClaims \<Rightarrow> bool" where
  "role_token api i roles ctx tok c \<longleftrightarrow>
     metadata_first ctx ''authorization'' = Some (''Bearer '' @ tok)
   \<and> (case jwt_decode api tok of
        Inl _ \<Rightarrow> False
      | Inr (m, c') \<Rightarrow> c' = c \<and> jm_hmac m \<and> jwt_signed api tok m (secretKey (ic_jwtManager i)))
   \<and> jwt_valid api c \<and> Role c \<in> set roles"

lemma role_admitted_iff:
  assumes "authRoles i meth = Some roles"
  shows "role_admitted (api, i, meth) ctx = Some d \<longleftrightarrow> (\<exists>tok c. role_token api i roles ctx tok c \<and> d = WithUser ctx c)"
proof
  assume "role_admitted (api, i, meth) ctx = Some d"
  then obtain auth c where *: "metadata_first ctx ''authorization'' = Some auth" "take 7 auth = bearer_prefix"
    "signed_claims api jm_hmac (secretKey (ic_jwtManager i)) (drop 7 auth) = Some c"
    "Role c \<in> set roles" "d = WithUser ctx c"
    using assms by (auto simp: role_admitted_def split: option.splits if_splits)
  then have "auth = ''Bearer '' @ drop 7 auth"
    by (metis append_take_drop_id bearer_prefix_def)
  then have "role_token api i roles ctx (drop 7 auth) c"
    using * by (auto simp: role_token_def signed_claims_def split: sum.splits if_splits)
  then show "\<exists>tok c. role_token api i roles ctx tok c \<and> d = WithUser ctx c"
    using * by blast
next
  assume "\<exists>tok c. role_token api i roles ctx tok c \<and> d = WithUser ctx c"
  then show "role_admitted (api, i, meth) ctx = Some d"
    using assms by (auto simp: role_admitted_def role_token_def signed_claims_def bearer_prefix_def split: sum.splits)
qed

lemma get_with_user [simp]: "GetUserFromContext (WithUser ctx c) = Some c"
  by (simp add: GetUserFromContext_def WithUser_def ctx_Value_def ctx_WithValue_def)

text \<open>A library for examples: tokens are role names, signed under any key equal to the token's reverse.\<close>

definition example_jwt :: "nat UserClaims jwt_api" where
  "example_jwt = (let acc = \<lparr>jwt_decode = (\<lambda>tok. Inr (\<lparr>jm_name = ''HS256'', jm_hmac = True\<rparr>,
          \<lparr>uc_StandardClaims = 0, Role = tok, Nid = [], Username = []\<rparr>)),
        jwt_signed = (\<lambda>tok m key. key = rev tok), jwt_valid = (\<lambda>_. True),
        jwt_ParseWithClaims = (\<lambda>_ _ _. Inr None)\<rparr> in
     acc\<lparr>jwt_ParseWithClaims := (\<lambda>methods tok keyFunc.
       (case jwt_decode acc tok of
          Inl e \<Rightarrow> Inl e
        | Inr (m, c) \<Rightarrow> if token_accepted acc methods tok keyFunc c then Inr (Some c) else Inl ErrBadAuthString))\<rparr>)"

lemma example_jwt_documented: "jwt_documented example_jwt"
  by (auto simp: jwt_documented_def example_jwt_def token_accepted_def Let_def split: if_splits sum.splits)

definition example_interceptor :: Interceptor where
  "example_interceptor = NewAuthInterceptor (NewJWTManager ''nimda'' 60) [''/wallet'' \<mapsto> [''root'', ''admin'']]"

definition example_ctx :: "nat ctx" where
  "example_ctx = \<lparr>cx_values = [], cx_incoming = Some [''authorization'' \<mapsto> [''Bearer admin'']]\<rparr>"

text \<open>
  C26. The role interceptor runs the handler of a method with configured roles exactly when the first
  authorization value is a bearer token that decodes, is signed by an HMAC method under the manager's
  secret, has valid claims, and names one of the method's roles; the handler then runs in a context
  that holds the claims of that token. In every other case the handler is not run and the answer is an
  Unauthenticated status. A method without configured roles is public.
\<close>

theorem role_interceptor_admits:
  assumes "jwt_documented api" and "metadata_ok ctx"
  shows "case authRoles i meth of
      None \<Rightarrow> Auth_Unary api i ctx meth h = h ctx
    | Some roles \<Rightarrow>
        if \<exists>tok c. role_token api i roles ctx tok c
        then \<exists>tok c. role_token api i roles ctx tok c \<and> GetUserFromContext (WithUser ctx c) = Some c
               \<and> Auth_Unary api i ctx meth h = h (WithUser ctx c)
        else \<exists>msg. Auth_Unary api i ctx meth h = Ret (None, Some (unauthenticated msg))"
proof -
  have ok: "guard_ok (api, i, meth) ctx" using assms by (simp add: guard_ok_def)
  show ?thesis
  proof (cases "authRoles i meth")
    case None
    then show ?thesis
      using role_guard.runs_admitted [OF ok, of ctx h] by (simp add: role_admitted_def)
  next
    case (Some roles)
    note adm = role_admitted_iff [OF Some, of api ctx]
    show ?thesis
    proof (cases "role_admitted (api, i, meth) ctx")
      case None
      with adm have "\<not> (\<exists>tok c. role_token api i roles ctx tok c)" by auto
      then show ?thesis
        using role_guard.stops_refused [OF ok None] Some by auto
    next
      case (Some d)
      then obtain tok c where "role_token api i roles ctx tok c" "d = WithUser ctx c"
        using adm [of d] by blast
      then show ?thesis
        using role_guard.runs_admitted [OF ok Some, of h] \<open>authRoles i meth = Some roles\<close> by auto
    qed
  qed
qed

theorem role_interceptor_admits_witness:
  "\<exists>tok c. role_token example_jwt example_interceptor [''root'', ''admin''] example_ctx tok c
     \<and> Auth_Unary example_jwt example_interceptor example_ctx ''/wallet'' (\<lambda>x. Ret (GetUserFromContext x, None))
       = Ret (Some c, None)"
proof -
  have "metadata_ok example_ctx" by (simp add: metadata_ok_def example_ctx_def)
  moreover have "role_token example_jwt example_interceptor [''root'', ''admin''] example_ctx ''admin''
      \<lparr>uc_StandardClaims = 0, Role = ''admin'', Nid = [], Username = []\<rparr>"
    by (simp add: role_token_def example_jwt_def example_interceptor_def NewAuthInterceptor_def NewJWTManager_def
        example_ctx_def metadata_first_def Let_def)
  moreover have "authRoles example_interceptor ''/wallet'' = Some [''root'', ''admin'']"
    by (simp add: example_interceptor_def NewAuthInterceptor_def)
  ultimately show ?thesis
    using role_interceptor_admits [OF example_jwt_documented, of example_ctx example_interceptor "''/wallet''"
        "\<lambda>x. Ret (GetUserFromContext x, None)"]
    by (auto split: if_splits)
qed

text \<open>
  The provider interceptor runs the handler exactly for requests whose first \<open>x-api-key\<close> value is a
  token signed with HS256 under the configured secret whose claims are valid, in a context that holds
  those claims; every other request is answered with an Unauthenticated status.
\<close>

theorem provider_interceptor_admits:
  assumes "jwt_documented api" and "metadata_ok ctx"
  shows "case Option.bind (metadata_first ctx ''x-api-key'')
           (signed_claims api (\<lambda>m. jm_name m = ''HS256'') (Secret (ai_config i))) of
      Some c \<Rightarrow> Provider_Unary api i ctx meth h = h (Some (ctx_WithValue ctx CtxProviderClaimsKey (VProvider c)))
    | None \<Rightarrow> \<exists>msg. Provider_Unary api i ctx meth h = Ret (None, Some (unauthenticated msg))"
  using provider_guard.guarded [of "(api, i, meth)" ctx] assms
  by (auto simp: guard_ok_def provider_admitted_def split: option.splits)

definition example_provider :: "nat ProviderClaims jwt_api" where
  "example_provider = \<lparr>jwt_decode = (\<lambda>tok. Inr (\<lparr>jm_name = ''HS256'', jm_hmac = True\<rparr>, \<lparr>pc_StandardClaims = length tok\<rparr>)),
     jwt_signed = (\<lambda>tok m key. key = rev tok), jwt_valid = (\<lambda>_. True),
     jwt_ParseWithClaims = (\<lambda>methods tok keyFunc.
       (case keyFunc \<lparr>jm_name = ''HS256'', jm_hmac = True\<rparr> of
          Inl e \<Rightarrow> Inl e
        | Inr key \<Rightarrow> if (methods = [] \<or> ''HS256'' \<in> set methods) \<and> key = rev tok
                    then Inr (Some \<lparr>pc_StandardClaims = length tok\<rparr>) else Inl ErrBadAuthString))\<rparr>"

theorem provider_interceptor_admits_witness:
  "(\<exists>msg. Provider_Unary example_provider (NewAuthorizerInterceptor (NewJWTManager [] 0) \<lparr>Secret = ''yek''\<rparr>)
      \<lparr>cx_values = [], cx_incoming = Some [''x-api-key'' \<mapsto> [''other'']]\<rparr> ''/m'' (\<lambda>x. Ret (Some (0 :: nat), None))
    = Ret (None, Some (unauthenticated msg)))"
proof -
  have doc: "jwt_documented example_provider"
    by (auto simp: jwt_documented_def example_provider_def token_accepted_def split: sum.splits if_splits)
  have ok: "metadata_ok \<lparr>cx_values = [], cx_incoming = Some [''x-api-key'' \<mapsto> [''other'']]\<rparr>"
    by (simp add: metadata_ok_def)
  show ?thesis
    using provider_interceptor_admits [OF doc ok, of "NewAuthorizerInterceptor (NewJWTManager [] 0) \<lparr>Secret = ''yek''\<rparr>" "''/m''"
        "\<lambda>x. Ret (Some (0 :: nat), None)"]
    by (simp add: metadata_first_def signed_claims_def example_provider_def NewAuthorizerInterceptor_def)
qed

text \<open>What a handler can read of the caller.\<close>

definition identities :: "'std ctx \<Rightarrow> header \<Rightarrow> string \<times> string \<times> string" where
  "identities ctx h = (UserIDFromContext ctx, AppIDFromContext ctx, UsernameFromContext ctx)"

text \<open>
  Behind the three HTTP middlewares the handler reads the request's user and application ids, falling
  back to those of the outer context when the header is empty; the user name is never the header's: it
  is empty whenever the header is given.
\<close>

theorem identity_middlewares:
  "UserIDMiddlewareFunc (AppIDMiddlewareFunc (UsernameMiddlewareFunc identities)) ctx h =
    (if header_Get h HeaderUserID = [] then UserIDFromContext ctx else header_Get h HeaderUserID,
     if header_Get h HeaderAppID = [] then AppIDFromContext ctx else header_Get h HeaderAppID,
     if header_Get h HeaderUsername = [] then UsernameFromContext ctx else [])"
  by (simp add: identities_def UserIDMiddlewareFunc_def AppIDMiddlewareFunc_def UsernameMiddlewareFunc_def
      NewUserIDContext_def NewAppIDContext_def NewUsernameContext_def UserIDFromContext_def AppIDFromContext_def
      UsernameFromContext_def ctx_Value_def ctx_WithValue_def string_value_def)

end
