(* ===== verification/Rand_String.thy ===== *)
theory Rand_String
  imports Go_Prelude
begin

unbundle bit_operations_syntax

text \<open>
  Random strings (\<^verbatim>\<open>src/rand\<close>): the rejection loop that cuts the 63-bit words of a source into
  six-bit letter indices. The source of \<open>math/rand\<close> is the sequence of the words that the call
  reads, with the position of the next one; the mutex of \<open>safeSrc\<close> makes every read one step, so
  that concurrent callers see disjoint subsequences. An \<open>int64\<close> is an integer: no operation of the
  loop leaves its range.
\<close>

section \<open>The generator\<close>

definition letterBytes :: string where
  "letterBytes = ''abcdefghijklmnopqrstuvwxyzABCDEFGHIJKLMNOPQRSTUVWXYZ''"

definition letterIdxBits :: nat where "letterIdxBits = 6"
definition letterIdxMask :: int where "letterIdxMask = push_bit letterIdxBits 1 - 1"
definition letterIdxMax :: nat where "letterIdxMax = 63 div letterIdxBits"

record safeSrc =
  src_words :: "nat \<Rightarrow> int"
  src_pos :: nat

definition Int63 :: "safeSrc \<Rightarrow> int \<times> safeSrc" where
  "Int63 s = (src_words s (src_pos s), s\<lparr>src_pos := Suc (src_pos s)\<rparr>)"

text \<open>
  The loop may run for ever, since nothing bounds the number of rejected indices: the first
  argument is the number of rounds it is given, and \<open>None\<close> says that they were not enough.
\<close>

fun string_loop :: "nat \<Rightarrow> string \<Rightarrow> int \<Rightarrow> int \<Rightarrow> nat \<Rightarrow> safeSrc \<Rightarrow> (string \<times> safeSrc) option" where
  "string_loop rounds b i cache remain s =
     (if i < 0 then Some (b, s)
      else case rounds of
        0 \<Rightarrow> None
      | Suc rounds' \<Rightarrow>
          (let (cache, remain, s) =
                 (if remain = 0 then (let (w, s') = Int63 s in (w, letterIdxMax, s')) else (cache, remain, s));
               idx = nat (cache AND letterIdxMask);
               (b, i) = (if idx < length letterBytes then (b[nat i := letterBytes ! idx], i - 1) else (b, i))
           in string_loop rounds' b i (drop_bit letterIdxBits cache) (remain - 1) s))"

declare string_loop.simps [simp del]

definition rand_String :: "nat \<Rightarrow> int \<Rightarrow> safeSrc \<Rightarrow> (string \<times> safeSrc) option go" where
  "rand_String rounds n s =
     (if n < 0 then Panic ''makeslice: len out of range''
      else let b = replicate (nat n) (char_of (0 :: nat)); (w, s') = Int63 s
           in Ret (string_loop rounds b (n - 1) w letterIdxMax s'))"

section \<open>The indices of a source\<close>

text \<open>The \<open>k\<close>-th six-bit index that is read from position \<open>p\<close> on: ten to a word, lowest bits first.\<close>

definition index_at :: "(nat \<Rightarrow> int) \<Rightarrow> nat \<Rightarrow> nat \<Rightarrow> nat" where
  "index_at ws p k = nat (take_bit 6 (drop_bit (6 * (k mod 10)) (ws (p + k div 10))))"

definition accepted :: "(nat \<Rightarrow> int) \<Rightarrow> nat \<Rightarrow> nat \<Rightarrow> nat \<Rightarrow> nat list" where
  "accepted ws p k f = filter (\<lambda>d. d < 52) (map (index_at ws p) [k..<k + f])"

lemma letter_consts [simp]: "letterIdxBits = 6" "letterIdxMask = 63" "letterIdxMax = 10" "length letterBytes = 52"
  by (simp_all add: letterIdxBits_def letterIdxMask_def letterIdxMax_def letterBytes_def)

lemma mask_63: "(c :: int) AND 63 = take_bit 6 c"
  by (simp add: take_bit_eq_mask mask_eq_exp_minus_1)

lemma accepted_0 [simp]: "accepted ws p k 0 = []"
  by (simp add: accepted_def)

lemma accepted_Suc:
  "accepted ws p k (Suc f) = (if index_at ws p k < 52 then [index_at ws p k] else []) @ accepted ws p (Suc k) f"
  by (simp add: accepted_def upt_conv_Cons del: upt_Suc)

text \<open>The registers of the loop after \<open>k\<close> indices were consumed from a source that started at \<open>p\<close>.\<close>

definition at_index :: "nat \<Rightarrow> nat \<Rightarrow> int \<Rightarrow> nat \<Rightarrow> safeSrc \<Rightarrow> bool" where
  "at_index p k cache remain s \<longleftrightarrow>
     (if remain = 0 then k mod 10 = 0 \<and> src_pos s = p + k div 10
      else remain + k mod 10 = 10 \<and> src_pos s = Suc (p + k div 10)
         \<and> cache = drop_bit (6 * (k mod 10)) (src_words s (p + k div 10)))"

text \<open>A round at index \<open>k\<close>: the word it works on, and the registers it leaves behind.\<close>

lemma round_cache:
  assumes "at_index p k cache remain s"
    and "(c, r, t) = (if remain = 0 then (let (w, s') = Int63 s in (w, letterIdxMax, s')) else (cache, remain, s))"
  shows "c = drop_bit (6 * (k mod 10)) (src_words s (p + k div 10))"
    and "at_index p (Suc k) (drop_bit letterIdxBits c) (r - 1) t" and "src_words t = src_words s"
proof -
  have c: "c = drop_bit (6 * (k mod 10)) (src_words s (p + k div 10))"
    and r: "r + k mod 10 = 10" and t: "src_pos t = Suc (p + k div 10)" "src_words t = src_words s"
    using assms by (auto simp: at_index_def Int63_def split: if_splits)
  show "c = drop_bit (6 * (k mod 10)) (src_words s (p + k div 10))" "src_words t = src_words s"
    by fact+
  show "at_index p (Suc k) (drop_bit letterIdxBits c) (r - 1) t"
  proof (cases "k mod 10 = 9")
    case True
    then have "Suc k mod 10 = 0" "Suc k div 10 = Suc (k div 10)" by presburger+
    with True r t show ?thesis by (simp add: at_index_def)
  next
    case False
    then have k: "Suc k mod 10 = Suc (k mod 10)" "Suc k div 10 = k div 10" by presburger+
    with False r t c show ?thesis by (auto simp: at_index_def drop_bit_drop_bit add.commute)
  qed
qed

text \<open>The loop writes the first accepted indices from the end of the buffer to its front.\<close>

lemma string_loop_spec:
  assumes "at_index p k cache remain s" and "-1 \<le> i" and "i < int (length b)"
  shows "map_option fst (string_loop rounds b i cache remain s) =
    (let ds = accepted (src_words s) p k rounds; n = nat (i + 1)
     in if n \<le> length ds then Some (rev (map ((!) letterBytes) (take n ds)) @ drop n b) else None)"
  using assms
proof (induction rounds arbitrary: k cache remain s i b)
  case 0
  then show ?case by (auto simp: string_loop.simps)
next
  case (Suc f)
  show ?case
  proof (cases "i < 0")
    case True
    with Suc.prems have "i = -1" by simp
    then show ?thesis by (simp add: string_loop.simps)
  next
    case i: False
    obtain c r t where st:
      "(c, r, t) = (if remain = 0 then (let (w, s') = Int63 s in (w, letterIdxMax, s')) else (cache, remain, s))"
      by (metis prod_cases3)
    note rd = round_cache [OF Suc.prems(1) st]
    define d where "d = index_at (src_words s) p k"
    have d: "nat (c AND letterIdxMask) = d"
      using rd(1) by (simp add: d_def index_at_def mask_63)
    have step: "string_loop (Suc f) b i cache remain s
        = (if d < 52 then string_loop f (b[nat i := letterBytes ! d]) (i - 1) (drop_bit letterIdxBits c) (r - 1) t
           else string_loop f b i (drop_bit letterIdxBits c) (r - 1) t)"
      by (subst string_loop.simps) (use i d in \<open>simp add: st [symmetric]\<close>)
    define ds where "ds = accepted (src_words s) p (Suc k) f"
    have acc: "accepted (src_words s) p k (Suc f) = (if d < 52 then [d] else []) @ ds"
      by (simp add: accepted_Suc d_def ds_def)
    define n where "n = nat i"
    have n: "nat (i + 1) = Suc n" "i = int n" "n < length b" "nat (i - 1 + 1) = n"
      using i Suc.prems by (simp_all add: n_def)
    show ?thesis
    proof (cases "d < 52")
      case True
      have "map_option fst (string_loop f (b[n := letterBytes ! d]) (i - 1) (drop_bit letterIdxBits c) (r - 1) t)
          = (if n \<le> length ds then Some (rev (map ((!) letterBytes) (take n ds)) @ drop n (b[n := letterBytes ! d])) else None)"
        using Suc.IH [OF rd(2), of "i - 1" "b[n := letterBytes ! d]"] i n Suc.prems
        by (simp add: rd(3) ds_def Let_def)
      moreover have "drop n (b[n := letterBytes ! d]) = letterBytes ! d # drop (Suc n) b"
        using n by (simp add: Cons_nth_drop_Suc [symmetric])
      ultimately show ?thesis
        unfolding step acc n(1) n_def [symmetric] using True by (simp add: Let_def)
    next
      case False
      then show ?thesis
        using Suc.IH [OF rd(2), of i b] i Suc.prems by (simp add: step acc rd(3) ds_def)
    qed
  qed
qed

lemma rand_string_spec:
  assumes "0 \<le> n"
  shows "\<exists>r. rand_String rounds n s = Ret r \<and>
    map_option fst r =
      (let ds = accepted (src_words s) (src_pos s) 0 rounds
       in if nat n \<le> length ds then Some (rev (map ((!) letterBytes) (take (nat n) ds))) else None)"
proof -
  have "at_index (src_pos s) 0 (src_words s (src_pos s)) letterIdxMax (s\<lparr>src_pos := Suc (src_pos s)\<rparr>)"
    by (simp add: at_index_def)
  from string_loop_spec [OF this, of "n - 1" "replicate (nat n) (char_of (0 :: nat))" rounds] assms
  show ?thesis by (simp add: rand_String_def Int63_def Let_def)
qed

section \<open>Properties\<close>

text \<open>
  C25. A call for \<open>n\<close> letters returns after \<open>rounds\<close> rounds exactly when at least \<open>n\<close> of the first
  \<open>rounds\<close> indices of the source are letter indices (below 52); the string then has the first \<open>n\<close> of
  them, last one first, whatever the loop did with its word cache: it is the reference that maps the
  accepted indices to letters.
\<close>

theorem rand_string_reference:
  assumes "0 \<le> n"
  shows "\<exists>r. rand_String rounds n s = Ret r \<and>
    map_option fst r =
      (let ds = accepted (src_words s) (src_pos s) 0 rounds
       in if nat n \<le> length ds then Some (rev (map ((!) letterBytes) (take (nat n) ds))) else None)"
  using rand_string_spec [OF assms] .


text \<open>A source whose words hold the indices 1, 60, 2, 0, 0, \<dots>; index 60 is rejected.\<close>

definition example_src :: safeSrc where
  "example_src = \<lparr>src_words = (\<lambda>_. 1 + 64 * (60 + 64 * 2)), src_pos = 0\<rparr>"

theorem rand_string_reference_witness:
  "map_option fst (case rand_String 3 2 example_src of Ret r \<Rightarrow> r | Panic _ \<Rightarrow> None) = Some ''cb''
   \<and> map_option fst (case rand_String 2 2 example_src of Ret r \<Rightarrow> r | Panic _ \<Rightarrow> None) = None"
proof -
  have acc: "accepted (src_words example_src) (src_pos example_src) 0 3 = [1, 2]"
    "accepted (src_words example_src) (src_pos example_src) 0 2 = [1]"
    by code_simp+
  show ?thesis
    using rand_string_reference [of 2 3 example_src] rand_string_reference [of 2 2 example_src]
    by (auto simp: acc letterBytes_def)
qed

end
