(* ===== verification/Worker_Amqp.thy ===== *)
theory Worker_Amqp
  imports Go_Errors Rand_String
begin

text \<open>
  The background worker (\<^verbatim>\<open>src/worker\<close>) and its AMQP adapter (\<^verbatim>\<open>src/worker/amqpw\<close>): enqueuing
  jobs, delayed jobs through a temporary queue, and the goroutine of a registered handler with its
  semaphore. The AMQP client is a parameter: its calls act on a world \<open>'w\<close> (the broker) and answer
  with an error or a result. The text form of job arguments (\<open>encoding/json\<close> on a map of interface
  values) is a pair of functions of the definitions that use it.
\<close>

section \<open>Jobs\<close>

record 'a Job =
  job_Handler :: string
  job_Queue :: string
  job_Args :: 'a

text \<open>\<open>Args.String\<close> drops the error of the encoder, which then gives no bytes.\<close>

definition Args_String :: "('a \<Rightarrow> string result) \<Rightarrow> 'a \<Rightarrow> string" where
  "Args_String json_Marshal a = (case json_Marshal a of Inl _ \<Rightarrow> [] | Inr b \<Rightarrow> b)"

section \<open>The AMQP client\<close>

datatype table_value = TInt int | TString string

record queue_decl =
  qd_name :: string
  qd_durable :: bool
  qd_autoDelete :: bool
  qd_exclusive :: bool
  qd_noWait :: bool
  qd_args :: "(string \<times> table_value) list"

text \<open>
  The flags of the calls are, in order: durable, auto-deleted, internal and no-wait of an exchange,
  mandatory and immediate of a publication, auto-ack, exclusive, no-local and no-wait of a consumer.
\<close>

record publishing =
  pb_ContentType :: string
  pb_DeliveryMode :: nat
  pb_Body :: string

abbreviation amqp_Persistent :: nat where "amqp_Persistent \<equiv> 2"

record ('w, 'conn, 'ch, 'msgs) amqp_api =
  api_Dial :: "string \<Rightarrow> 'w \<Rightarrow> ('conn option \<times> go_error option) \<times> 'w"
  api_Channel :: "'conn \<Rightarrow> 'w \<Rightarrow> 'ch result \<times> 'w"
  api_ExchangeDeclare :: "'ch \<Rightarrow> string \<Rightarrow> string \<Rightarrow> bool \<Rightarrow> bool \<Rightarrow> bool \<Rightarrow> bool \<Rightarrow> 'w \<Rightarrow> go_error option \<times> 'w"
  api_QueueDeclare :: "'ch \<Rightarrow> queue_decl \<Rightarrow> 'w \<Rightarrow> string result \<times> 'w"
  api_Publish :: "'ch \<Rightarrow> string \<Rightarrow> string \<Rightarrow> bool \<Rightarrow> bool \<Rightarrow> publishing \<Rightarrow> 'w \<Rightarrow> go_error option \<times> 'w"
  api_Consume :: "'ch \<Rightarrow> string \<Rightarrow> string \<Rightarrow> bool \<Rightarrow> bool \<Rightarrow> bool \<Rightarrow> bool \<Rightarrow> 'w \<Rightarrow> 'msgs result \<times> 'w"
  api_ChannelClose :: "'ch \<Rightarrow> 'w \<Rightarrow> go_error option \<times> 'w"
  api_ConnClose :: "'conn \<Rightarrow> 'w \<Rightarrow> go_error option \<times> 'w"

section \<open>The adapter\<close>

record 'conn Options =
  opt_Connection :: "'conn option"
  opt_Name :: string
  opt_Exchange :: string
  opt_MaxConcurrency :: int

record ('conn, 'ch) Adapter =
  ad_Connection :: "'conn option"
  ad_Channel :: "'ch option"
  consumerName :: string
  exchange :: string
  maxConcurrency :: int

abbreviation ErrInvalidConnection :: go_error where "ErrInvalidConnection \<equiv> ErrNew ''invalid connection''"

text \<open>The exchange of the options is not copied, as in the source.\<close>

definition New_Adapter :: "'conn Options \<Rightarrow> ('conn, 'ch) Adapter" where
  "New_Adapter opts =
     (let opts = (if opt_Name opts = [] then opts\<lparr>opt_Name := ''win''\<rparr> else opts);
          opts = (if opt_MaxConcurrency opts = 0 then opts\<lparr>opt_MaxConcurrency := 25\<rparr> else opts)
      in \<lparr>ad_Connection = opt_Connection opts, ad_Channel = None, consumerName = opt_Name opts,
          exchange = [], maxConcurrency = opt_MaxConcurrency opts\<rparr>)"

definition Start ::
  "('w, 'conn, 'ch, 'msgs) amqp_api \<Rightarrow> ('conn, 'ch) Adapter \<Rightarrow> 'w \<Rightarrow> go_error option \<times> ('conn, 'ch) Adapter \<times> 'w" where
  "Start api q w =
     (case ad_Connection q of
        None \<Rightarrow> (Some ErrInvalidConnection, q, w)
      | Some conn \<Rightarrow>
          (case api_Channel api conn w of
             (Inl err, w1) \<Rightarrow> (Some (wrap_with ''could not start a new broker channel'' err), q, w1)
           | (Inr c, w1) \<Rightarrow>
               (let q1 = q\<lparr>ad_Channel := Some c\<rparr> in
                if exchange q1 \<noteq> [] then
                  (case api_ExchangeDeclare api c (exchange q1) ''direct'' True False False False w1 of
                     (Some err, w2) \<Rightarrow> (Some (wrap_with ''unable to declare exchange'' err), q1, w2)
                   | (None, w2) \<Rightarrow> (None, q1, w2))
                else (None, q1, w1))))"

text \<open>
  \<open>Stop\<close>, also called by the goroutine of \<open>Start\<close> when the context ends. A connection that is not
  there panics.
\<close>

definition Stop :: "('w, 'conn, 'ch, 'msgs) amqp_api \<Rightarrow> ('conn, 'ch) Adapter \<Rightarrow> 'w \<Rightarrow> (go_error option \<times> 'w) go" where
  "Stop api q w =
     (case ad_Channel q of
        None \<Rightarrow> Ret (None, w)
      | Some c \<Rightarrow>
          (case api_ChannelClose api c w of
             (Some err, w1) \<Rightarrow> Ret (Some err, w1)
           | (None, w1) \<Rightarrow>
               (case ad_Connection q of
                  None \<Rightarrow> Panic ''invalid memory address or nil pointer dereference''
                | Some conn \<Rightarrow> Ret (api_ConnClose api conn w1))))"

definition job_publishing :: "('a \<Rightarrow> string result) \<Rightarrow> 'a Job \<Rightarrow> publishing" where
  "job_publishing json_Marshal job =
     \<lparr>pb_ContentType = ''application/json'', pb_DeliveryMode = amqp_Persistent,
      pb_Body = Args_String json_Marshal (job_Args job)\<rparr>"

text \<open>The channel of an adapter that was not started is nil, and its methods panic.\<close>

definition with_channel :: "('conn, 'ch) Adapter \<Rightarrow> ('ch \<Rightarrow> 'b go) \<Rightarrow> 'b go" where
  "with_channel q f =
     (case ad_Channel q of None \<Rightarrow> Panic ''invalid memory address or nil pointer dereference'' | Some c \<Rightarrow> f c)"

definition Perform ::
  "('w, 'conn, 'ch, 'msgs) amqp_api \<Rightarrow> ('a \<Rightarrow> string result) \<Rightarrow> ('conn, 'ch) Adapter \<Rightarrow> 'a Job \<Rightarrow> 'w
   \<Rightarrow> (go_error option \<times> 'w) go" where
  "Perform api json_Marshal q job w =
     with_channel q (\<lambda>c.
       case api_Publish api c (exchange q) (job_Handler job) True False (job_publishing json_Marshal job) w of
         (Some err, w1) \<Rightarrow> Ret (Some (wrap_with ''error enqueuing job'' err), w1)
       | (None, w1) \<Rightarrow> Ret (None, w1))"

text \<open>\<open>int64(t / time.Second)\<close>: Go's integer division truncates towards zero.\<close>

definition go_quot :: "int \<Rightarrow> int \<Rightarrow> int" where
  "go_quot a b = sgn a * sgn b * (\<bar>a\<bar> div \<bar>b\<bar>)"

abbreviation time_Second :: int where "time_Second \<equiv> 1000000000"

definition delayed_queue :: "'a Job \<Rightarrow> int \<Rightarrow> queue_decl" where
  "delayed_queue job d =
     \<lparr>qd_name = job_Handler job @ ''_delayed_'' @ dec_int d, qd_durable = True, qd_autoDelete = True,
      qd_exclusive = False, qd_noWait = True,
      qd_args = [(''x-message-ttl'', TInt d), (''x-dead-letter-exchange'', TString []),
                 (''x-dead-letter-routing-key'', TString (job_Handler job))]\<rparr>"

definition PerformIn ::
  "('w, 'conn, 'ch, 'msgs) amqp_api \<Rightarrow> ('a \<Rightarrow> string result) \<Rightarrow> ('conn, 'ch) Adapter \<Rightarrow> 'a Job \<Rightarrow> int \<Rightarrow> 'w
   \<Rightarrow> (go_error option \<times> 'w) go" where
  "PerformIn api json_Marshal q job t w =
     (let d = go_quot t time_Second in
      with_channel q (\<lambda>c.
        case api_QueueDeclare api c (delayed_queue job d) w of
          (Inl err, w1) \<Rightarrow> Ret (Some err, w1)
        | (Inr dq_Name, w1) \<Rightarrow> Ret (api_Publish api c (exchange q) dq_Name True False (job_publishing json_Marshal job) w1)))"

text \<open>\<open>time.Until\<close>: the difference in nanoseconds, saturated at the range of \<open>int64\<close>.\<close>

definition time_Until :: "int \<Rightarrow> int \<Rightarrow> int" where
  "time_Until now t = max (- (2 ^ 63)) (min (2 ^ 63 - 1) (t - now))"

definition PerformAt ::
  "('w, 'conn, 'ch, 'msgs) amqp_api \<Rightarrow> ('a \<Rightarrow> string result) \<Rightarrow> ('conn, 'ch) Adapter \<Rightarrow> int \<Rightarrow> 'a Job \<Rightarrow> int \<Rightarrow> 'w
   \<Rightarrow> (go_error option \<times> 'w) go" where
  "PerformAt api json_Marshal q now job t w = PerformIn api json_Marshal q job (time_Until now t) w"

section \<open>Registered handlers\<close>

text \<open>
  A delivery is its tag and body. The goroutine's trace: what it logs, runs and acknowledges; it ends
  its range loop when the deliveries end, and blocks for ever where a send on the semaphore finds it
  full, since nothing receives from the semaphore.
\<close>

record delivery =
  dl_tag :: nat
  dl_Body :: string

datatype 'a consumer_event = Undecodable nat | Ran nat 'a | HandlerFailed nat | Acked nat | AckFailed nat

datatype consumer_end = Finished | BlockedOnSem

definition process_delivery ::
  "(string \<Rightarrow> 'a result) \<Rightarrow> ('a \<Rightarrow> go_error option) \<Rightarrow> (nat \<Rightarrow> go_error option) \<Rightarrow> delivery \<Rightarrow> 'a consumer_event list" where
  "process_delivery json_Unmarshal h ack d =
     (case json_Unmarshal (dl_Body d) of
        Inl err \<Rightarrow> [Undecodable (dl_tag d)]
      | Inr args \<Rightarrow>
          (case h args of
             Some err \<Rightarrow> [Ran (dl_tag d) args, HandlerFailed (dl_tag d)]
           | None \<Rightarrow>
               (case ack (dl_tag d) of
                  None \<Rightarrow> [Ran (dl_tag d) args, Acked (dl_tag d)]
                | Some err \<Rightarrow> [Ran (dl_tag d) args, AckFailed (dl_tag d)])))"

fun fill_sem :: "nat \<Rightarrow> bool chan \<Rightarrow> consumer_end" where
  "fill_sem 0 sem = Finished"
| "fill_sem (Suc i) sem = (case try_send True sem of Sent sem' \<Rightarrow> fill_sem i sem' | _ \<Rightarrow> BlockedOnSem)"

fun consumer_loop ::
  "(string \<Rightarrow> 'a result) \<Rightarrow> ('a \<Rightarrow> go_error option) \<Rightarrow> (nat \<Rightarrow> go_error option) \<Rightarrow> delivery list \<Rightarrow> bool chan
   \<Rightarrow> 'a consumer_event list \<times> consumer_end" where
  "consumer_loop json_Unmarshal h ack [] sem = ([], fill_sem (chan_cap sem) sem)"
| "consumer_loop json_Unmarshal h ack (d # ds) sem =
     (case try_send True sem of
        Sent sem' \<Rightarrow>
          (let (evs, e) = consumer_loop json_Unmarshal h ack ds sem'
           in (process_delivery json_Unmarshal h ack d @ evs, e))
      | _ \<Rightarrow> ([], BlockedOnSem))"

definition job_queue :: "string \<Rightarrow> queue_decl" where
  "job_queue name = \<lparr>qd_name = name, qd_durable = True, qd_autoDelete = False, qd_exclusive = False,
     qd_noWait = False, qd_args = []\<rparr>"

text \<open>
  \<open>Register\<close> returns the deliveries and the semaphore its goroutine works with. The random part of the
  consumer's name comes from the string generator, whose rounds may not be enough (\<open>None\<close>).
\<close>

definition Register ::
  "('w, 'conn, 'ch, 'msgs) amqp_api \<Rightarrow> nat \<Rightarrow> safeSrc \<Rightarrow> ('conn, 'ch) Adapter \<Rightarrow> string \<Rightarrow> 'w
   \<Rightarrow> (('msgs \<times> bool chan) result \<times> 'w \<times> safeSrc) option go" where
  "Register api rounds s q name w =
     with_channel q (\<lambda>c.
       case api_QueueDeclare api c (job_queue name) w of
         (Inl err, w1) \<Rightarrow> Ret (Some (Inl (wrap_with ''unable to create queue'' err), w1, s))
       | (Inr _, w1) \<Rightarrow>
           go_bind (rand_String rounds 20 s) (\<lambda>r. case r of
             None \<Rightarrow> Ret None
           | Some (rnd, s1) \<Rightarrow>
               (case api_Consume api c name (consumerName q @ ''_'' @ name @ ''_'' @ rnd) False False False False w1 of
                  (Inl err, w2) \<Rightarrow> Ret (Some (Inl (wrap_with ''could not consume queue'' err), w2, s1))
                | (Inr msgs, w2) \<Rightarrow>
                    if maxConcurrency q < 0 then Panic ''makechan: size out of range''
                    else Ret (Some (Inr (msgs, make_chan (nat (maxConcurrency q))), w2, s1)))))"

section \<open>Dialling\<close>

text \<open>
  The operation retried: it keeps the connection of the last attempt. \<open>backoff.Retry\<close> is a parameter
  with the number of retries; what is documented of it is that it repeats the operation until it
  succeeds, at most that many times after the first, and gives the last error.
\<close>

definition dial_operation ::
  "('w, 'conn, 'ch, 'msgs) amqp_api \<Rightarrow> string \<Rightarrow> 'conn option \<times> 'w \<Rightarrow> go_error option \<times> 'conn option \<times> 'w" where
  "dial_operation api url = (\<lambda>(rabbit, w).
     (case api_Dial api url w of
        ((conn, Some err), w1) \<Rightarrow> (Some (wrap_with ''could not establish rabbitmq connection'' err), conn, w1)
      | ((conn, None), w1) \<Rightarrow> (None, conn, w1)))"

type_synonym 's retrier = "nat \<Rightarrow> ('s \<Rightarrow> go_error option \<times> 's) \<Rightarrow> 's \<Rightarrow> go_error option \<times> 's"

definition Dial ::
  "('conn option \<times> 'w) retrier \<Rightarrow> ('w, 'conn, 'ch, 'msgs) amqp_api \<Rightarrow> string \<Rightarrow> 'w \<Rightarrow> ('conn option) result \<times> 'w" where
  "Dial retry api url w =
     (case retry 5 (dial_operation api url) (None, w) of
        (Some err, rabbit, w1) \<Rightarrow> (Inl err, w1)
      | (None, rabbit, w1) \<Rightarrow> (Inr rabbit, w1))"

fun retry_ref :: "'s retrier" where
  "retry_ref n op s =
     (case op s of
        (None, t) \<Rightarrow> (None, t)
      | (Some err, t) \<Rightarrow> (case n of 0 \<Rightarrow> (Some err, t) | Suc n' \<Rightarrow> retry_ref n' op t))"

declare retry_ref.simps [simp del]

section \<open>Lemmas\<close>

lemma fill_sem_blocks: "chan_cap sem < n + length (chan_buf sem) \<Longrightarrow> fill_sem n sem = BlockedOnSem
    \<or> chan_cap sem < length (chan_buf sem) \<and> n = 0"
proof (induction n arbitrary: sem)
  case (Suc n)
  then show ?case
    by (cases "try_send True sem") (auto simp: try_send_def split: if_splits)
qed simp

lemma fill_sem_finishes:
  "\<not> chan_closed sem \<Longrightarrow> n + length (chan_buf sem) \<le> chan_cap sem \<Longrightarrow> fill_sem n sem = Finished"
  by (induction n arbitrary: sem) (auto simp: try_send_def)

text \<open>The loop with a semaphore that has \<open>k\<close> free places left.\<close>

lemma consumer_loop_spec:
  assumes "\<not> chan_closed sem" and "length (chan_buf sem) + k = chan_cap sem"
  shows "consumer_loop U h ack ds sem =
    (concat (map (process_delivery U h ack) (take k ds)),
     if ds = [] \<and> chan_buf sem = [] then Finished else BlockedOnSem)"
  using assms
proof (induction ds arbitrary: sem k)
  case Nil
  then show ?case
    using fill_sem_blocks [of sem "chan_cap sem"] fill_sem_finishes [of sem "chan_cap sem"]
    by (cases "chan_buf sem") auto
next
  case (Cons d ds)
  show ?case
  proof (cases k)
    case 0
    with Cons.prems show ?thesis by (simp add: try_send_def)
  next
    case (Suc k')
    with Cons.IH [of "sem\<lparr>chan_buf := chan_buf sem @ [True]\<rparr>" k'] Cons.prems
    show ?thesis by (simp add: try_send_def)
  qed
qed

text \<open>The semaphore of a registration, by the branches of \<open>Register\<close>.\<close>

lemma register_sem:
  assumes "Register api rounds s q name w = Ret (Some (Inr (msgs, sem), w', s'))"
  shows "sem = make_chan (nat (maxConcurrency q))"
proof -
  obtain c where c: "ad_Channel q = Some c"
    using assms by (cases "ad_Channel q") (auto simp: Register_def with_channel_def)
  obtain dq w1 where dq: "api_QueueDeclare api c (job_queue name) w = (Inr dq, w1)"
    using assms by (cases "api_QueueDeclare api c (job_queue name) w"; cases "fst (api_QueueDeclare api c (job_queue name) w)")
      (auto simp: Register_def with_channel_def c)
  obtain rnd s1 where r: "rand_String rounds 20 s = Ret (Some (rnd, s1))"
    using assms by (auto simp: Register_def with_channel_def c dq go_bind_eq_Ret split: option.splits)
  let ?consume = "api_Consume api c name (consumerName q @ ''_'' @ name @ ''_'' @ rnd) False False False False w1"
  show ?thesis
    using assms by (cases ?consume; cases "fst ?consume")
      (auto simp: Register_def with_channel_def c dq r split: if_splits)
qed

lemma go_quot_seconds: "0 \<le> t \<Longrightarrow> go_quot t time_Second = t div time_Second"
  by (cases "t = 0") (auto simp: go_quot_def sgn_if)

lemma retry_ref_until:
  fixes op :: "'s \<Rightarrow> go_error option \<times> 's" and st :: "nat \<Rightarrow> 's"
  assumes "\<And>i. st (Suc i) = snd (op (st i))" and "\<And>i. i < k \<Longrightarrow> fst (op (st i)) \<noteq> None"
    and "k \<le> n" and "fst (op (st k)) = None \<or> k = n"
  shows "retry_ref n op (st 0) = (fst (op (st k)), st (Suc k))"
  using assms
proof (induction k arbitrary: n st)
  case 0
  then show ?case by (cases "op (st 0)") (auto simp: retry_ref.simps split: option.splits nat.splits)
next
  case (Suc k)
  obtain n' where n: "n = Suc n'" using Suc.prems(3) by (cases n) auto
  obtain err where err: "op (st 0) = (Some err, st (Suc 0))"
    using Suc.prems(1) [of 0] Suc.prems(2) [of 0] by (cases "op (st 0)") auto
  have "retry_ref n' op (st (Suc 0)) = (fst (op (st (Suc k))), st (Suc (Suc k)))"
    by (rule Suc.IH [of "\<lambda>i. st (Suc i)" n']) (use Suc.prems(2-4) n in \<open>auto simp: Suc.prems(1) [symmetric]\<close>)
  then show ?case by (subst retry_ref.simps) (simp add: err n)
qed

section \<open>Properties\<close>

text \<open>
  C27. A registered handler is given exactly the first \<open>maxConcurrency\<close> deliveries, in order, and
  acknowledges those it handled without an error; then its goroutine is blocked for ever, because the
  semaphore is never released: also when fewer deliveries came and the broker ended them. It ends only
  when nothing was delivered at all.
\<close>

theorem worker_consumer_stalls:
  assumes "Register api rounds s q name w = Ret (Some (Inr (msgs, sem), w', s'))"
  shows "consumer_loop U h ack ds sem =
    (concat (map (process_delivery U h ack) (take (nat (maxConcurrency q)) ds)),
     if ds = [] then Finished else BlockedOnSem)"
proof -
  have "sem = make_chan (nat (maxConcurrency q))"
    using register_sem [OF assms] .
  then show ?thesis
    using consumer_loop_spec [of sem "nat (maxConcurrency q)" U h ack ds] by (simp add: make_chan_def)
qed

text \<open>A broker of durable queues, for examples: the world maps queue names to the bodies they hold.\<close>

definition example_amqp :: "(string \<rightharpoonup> string list, unit, unit, string) amqp_api" where
  "example_amqp = \<lparr>api_Dial = (\<lambda>_ w. ((Some (), None), w)), api_Channel = (\<lambda>_ w. (Inr (), w)),
     api_ExchangeDeclare = (\<lambda>_ _ _ _ _ _ _ w. (None, w)),
     api_QueueDeclare = (\<lambda>_ d w. (Inr (qd_name d), if w (qd_name d) = None then w(qd_name d \<mapsto> []) else w)),
     api_Publish = (\<lambda>_ _ k _ _ p w. (None, case w k of None \<Rightarrow> w | Some bs \<Rightarrow> w(k \<mapsto> bs @ [pb_Body p]))),
     api_Consume = (\<lambda>_ k _ _ _ _ _ w. (Inr k, w)),
     api_ChannelClose = (\<lambda>_ w. (None, w)), api_ConnClose = (\<lambda>_ w. (None, w))\<rparr>"

definition example_options :: "unit Options" where
  "example_options = \<lparr>opt_Connection = Some (), opt_Name = [], opt_Exchange = ''jobs'', opt_MaxConcurrency = 2\<rparr>"

definition example_adapter :: "(unit, unit) Adapter" where
  "example_adapter = (New_Adapter example_options)\<lparr>ad_Channel := Some ()\<rparr>"

lemma example_registered:
  "\<exists>s'. Register example_amqp 30 example_src example_adapter ''mail'' Map.empty
     = Ret (Some (Inr (''mail'', make_chan 2), [''mail'' \<mapsto> []], s'))"
proof -
  have "length (accepted (src_words example_src) (src_pos example_src) 0 30) = 27"
    by code_simp
  then obtain rnd s1 where "rand_String 30 20 example_src = Ret (Some (rnd, s1))"
    using rand_string_spec [of 20 30 example_src] by (auto simp: Let_def)
  then show ?thesis
    by (simp add: Register_def with_channel_def example_adapter_def example_amqp_def New_Adapter_def example_options_def
        job_queue_def)
qed

theorem worker_consumer_stalls_witness:
  "consumer_loop Inr (\<lambda>_. None) (\<lambda>_. None)
     [\<lparr>dl_tag = 1, dl_Body = ''a''\<rparr>, \<lparr>dl_tag = 2, dl_Body = ''b''\<rparr>, \<lparr>dl_tag = 3, dl_Body = ''c''\<rparr>] (make_chan 2)
   = ([Ran 1 ''a'', Acked 1, Ran 2 ''b'', Acked 2], BlockedOnSem)"
proof -
  obtain s' where "Register example_amqp 30 example_src example_adapter ''mail'' Map.empty
     = Ret (Some (Inr (''mail'', make_chan 2), [''mail'' \<mapsto> []], s'))"
    using example_registered by blast
  from worker_consumer_stalls [OF this, of Inr "\<lambda>_. None" "\<lambda>_. None"
      "[\<lparr>dl_tag = 1, dl_Body = ''a''\<rparr>, \<lparr>dl_tag = 2, dl_Body = ''b''\<rparr>, \<lparr>dl_tag = 3, dl_Body = ''c''\<rparr>]"]
  show ?thesis
    by (simp add: example_adapter_def New_Adapter_def example_options_def process_delivery_def)
qed

text \<open>
  The broker's default exchange, as AMQP documents it: a message published with the empty exchange name
  is appended to the queue named by its routing key. \<open>queue w k\<close> are the bodies that were put into the
  queue \<open>k\<close>, in order, the delivered ones too.
\<close>

definition default_exchange :: "('w, 'conn, 'ch, 'msgs) amqp_api \<Rightarrow> ('w \<Rightarrow> string \<Rightarrow> string list option) \<Rightarrow> bool" where
  "default_exchange api queue \<longleftrightarrow>
     (\<forall>c k m i p w bodies. queue w k = Some bodies \<longrightarrow>
        (\<exists>w'. api_Publish api c [] k m i p w = (None, w') \<and> queue w' k = Some (bodies @ [pb_Body p])))"

text \<open>Jobs performed one after the other; the arguments a trace ran its handler on, and those a body has.\<close>

fun perform_all ::
  "('w, 'conn, 'ch, 'msgs) amqp_api \<Rightarrow> ('a \<Rightarrow> string result) \<Rightarrow> ('conn, 'ch) Adapter \<Rightarrow> 'a Job list \<Rightarrow> 'w
   \<Rightarrow> (go_error option \<times> 'w) go" where
  "perform_all api json_Marshal q [] w = Ret (None, w)"
| "perform_all api json_Marshal q (job # jobs) w =
     go_bind (Perform api json_Marshal q job w) (\<lambda>(e, w1).
       case e of Some err \<Rightarrow> Ret (Some err, w1) | None \<Rightarrow> perform_all api json_Marshal q jobs w1)"

definition handler_runs :: "'a consumer_event list \<Rightarrow> 'a list" where
  "handler_runs evs = concat (map (\<lambda>ev. case ev of Ran _ a \<Rightarrow> [a] | _ \<Rightarrow> []) evs)"

definition decoded :: "(string \<Rightarrow> 'a result) \<Rightarrow> string \<Rightarrow> 'a list" where
  "decoded U b = (case U b of Inl _ \<Rightarrow> [] | Inr a \<Rightarrow> [a])"

lemma runs_process_delivery: "handler_runs (process_delivery U h ack d) = decoded U (dl_Body d)"
  by (auto simp: handler_runs_def process_delivery_def decoded_def split: sum.split option.split)

lemma runs_concat: "handler_runs (concat evss) = concat (map handler_runs evss)"
  by (induction evss) (simp_all add: handler_runs_def)

lemma runs_consumer_loop:
  assumes "Register api rounds s q name w = Ret (Some (Inr (msgs, sem), w', s'))"
  shows "handler_runs (fst (consumer_loop U h ack ds sem))
    = concat (map (decoded U) (take (nat (maxConcurrency q)) (map dl_Body ds)))"
proof -
  let ?n = "nat (maxConcurrency q)"
  have "fst (consumer_loop U h ack ds sem) = concat (map (process_delivery U h ack) (take ?n ds))"
    using consumer_loop_spec [of sem ?n U h ack ds] register_sem [OF assms] by (simp add: make_chan_def)
  then show ?thesis by (simp add: runs_concat take_map o_def runs_process_delivery)
qed

lemma perform_appends:
  assumes "default_exchange api queue" and "ad_Channel q = Some c" and "exchange q = []"
    and "queue w (job_Handler job) = Some bodies"
  shows "\<exists>w'. Perform api json_Marshal q job w = Ret (None, w')
    \<and> queue w' (job_Handler job) = Some (bodies @ [Args_String json_Marshal (job_Args job)])"
proof -
  obtain w' where "api_Publish api c [] (job_Handler job) True False (job_publishing json_Marshal job) w = (None, w')"
      "queue w' (job_Handler job) = Some (bodies @ [pb_Body (job_publishing json_Marshal job)])"
    using assms(1,4) unfolding default_exchange_def by meson
  then show ?thesis
    using assms(2,3) by (auto simp: Perform_def with_channel_def job_publishing_def)
qed

lemma perform_all_appends:
  assumes "default_exchange api queue" and "ad_Channel q = Some c" and "exchange q = []"
    and "queue w name = Some bodies" and "\<And>job. job \<in> set jobs \<Longrightarrow> job_Handler job = name"
  shows "\<exists>w'. perform_all api json_Marshal q jobs w = Ret (None, w')
    \<and> queue w' name = Some (bodies @ map (\<lambda>job. Args_String json_Marshal (job_Args job)) jobs)"
  using assms(4,5)
proof (induction jobs arbitrary: w bodies)
  case (Cons job jobs)
  obtain w1 where w1: "Perform api json_Marshal q job w = Ret (None, w1)"
      "queue w1 name = Some (bodies @ [Args_String json_Marshal (job_Args job)])"
    using perform_appends [OF assms(1-3), of w job bodies json_Marshal] Cons.prems by auto
  from Cons.IH [OF w1(2)] Cons.prems(2) show ?case by (simp add: w1(1))
qed simp

text \<open>
  C28. Jobs of one handler, performed after the handler was registered on an adapter that \<open>New\<close> made and
  \<open>Start\<close> started: each is accepted and put into the handler's queue, behind what the queue held, in order;
  and when the broker delivers the queue in its order to the goroutine of \<open>Register\<close>, the handler is run
  on the arguments of the jobs, in order, but only of those among the first \<open>maxConcurrency\<close> deliveries,
  counting those that were in the queue before (which are run too, where they decode). The later jobs
  stay in the queue: nothing releases the semaphore. The arguments of the jobs must survive their JSON form.
\<close>

theorem worker_perform_delivers:
  assumes "default_exchange api queue"
    and "Start api (New_Adapter opts) w0 = (None, q, w1)"
    and "Register api rounds s q name w1 = Ret (Some (Inr (msgs, sem), w2, s'))"
    and "queue w2 name = Some bodies"
    and "\<And>job. job \<in> set jobs \<Longrightarrow> job_Handler job = name
           \<and> U (Args_String json_Marshal (job_Args job)) = Inr (job_Args job)"
  shows "\<exists>w' sent. perform_all api json_Marshal q jobs w2 = Ret (None, w')
    \<and> queue w' name = Some (bodies @ sent) \<and> length sent = length jobs
    \<and> (\<forall>h ack ds. map dl_Body ds = bodies @ sent \<longrightarrow>
         handler_runs (fst (consumer_loop U h ack ds sem))
         = concat (map (decoded U) (take (nat (maxConcurrency q)) bodies))
           @ take (nat (maxConcurrency q) - length bodies) (map job_Args jobs))"
proof -
  let ?sent = "map (\<lambda>job. Args_String json_Marshal (job_Args job)) jobs"
  obtain c where q: "ad_Channel q = Some c" "exchange q = []"
    using assms(2) by (auto simp: Start_def New_Adapter_def Let_def split: option.splits prod.splits sum.splits if_splits)
  obtain w' where w': "perform_all api json_Marshal q jobs w2 = Ret (None, w')" "queue w' name = Some (bodies @ ?sent)"
    using perform_all_appends [OF assms(1) q assms(4)] assms(5) by blast
  have "concat (map (decoded U) (take n ?sent)) = take n (map job_Args jobs)" for n
    using assms(5)
  proof (induction jobs arbitrary: n)
    case (Cons job jobs)
    then show ?case by (cases n) (simp_all add: decoded_def)
  qed simp
  then have "handler_runs (fst (consumer_loop U h ack ds sem))
      = concat (map (decoded U) (take (nat (maxConcurrency q)) bodies))
        @ take (nat (maxConcurrency q) - length bodies) (map job_Args jobs)"
    if "map dl_Body ds = bodies @ ?sent" for h ack ds
    by (simp add: runs_consumer_loop [OF assms(3)] that)
  with w' show ?thesis by (intro exI [of _ w'] exI [of _ ?sent]) simp
qed

text \<open>Three jobs on an adapter with room for two: the third is not run.\<close>

theorem worker_perform_delivers_witness:
  "\<exists>w' sent. perform_all example_amqp Inr example_adapter
        [\<lparr>job_Handler = ''mail'', job_Queue = [], job_Args = ''x''\<rparr>, \<lparr>job_Handler = ''mail'', job_Queue = [], job_Args = ''y''\<rparr>,
         \<lparr>job_Handler = ''mail'', job_Queue = [], job_Args = ''z''\<rparr>] [''mail'' \<mapsto> []] = Ret (None, w')
     \<and> w' ''mail'' = Some sent
     \<and> handler_runs (fst (consumer_loop Inr (\<lambda>_. None) (\<lambda>_. None) (map (\<lambda>b. \<lparr>dl_tag = 0, dl_Body = b\<rparr>) sent) (make_chan 2)))
       = [''x'', ''y'']"
proof -
  let ?job = "\<lambda>a. \<lparr>job_Handler = ''mail'', job_Queue = [], job_Args = a\<rparr>"
  have exchange: "default_exchange example_amqp (\<lambda>w. w)"
    by (simp add: default_exchange_def example_amqp_def)
  have start: "Start example_amqp (New_Adapter example_options) Map.empty = (None, example_adapter, Map.empty)"
    by (simp add: Start_def example_amqp_def example_adapter_def New_Adapter_def example_options_def)
  obtain s' where reg: "Register example_amqp 30 example_src example_adapter ''mail'' Map.empty
     = Ret (Some (Inr (''mail'', make_chan 2), [''mail'' \<mapsto> []], s'))"
    using example_registered by blast
  let ?jobs = "[?job ''x'', ?job ''y'', ?job ''z'']"
  have held: "[''mail'' \<mapsto> []] ''mail'' = Some []" by simp
  have jobs: "job_Handler job = ''mail'' \<and> Inr (Args_String Inr (job_Args job)) = Inr (job_Args job)"
    if "job \<in> set ?jobs" for job
    using that by (auto simp: Args_String_def)
  obtain w' sent where run: "perform_all example_amqp Inr example_adapter ?jobs [''mail'' \<mapsto> []] = Ret (None, w')"
      "w' ''mail'' = Some ([] @ sent)"
      "\<And>h ack ds. map dl_Body ds = [] @ sent \<Longrightarrow>
         handler_runs (fst (consumer_loop Inr h ack ds (make_chan 2)))
         = concat (map (decoded Inr) (take (nat (maxConcurrency example_adapter)) []))
           @ take (nat (maxConcurrency example_adapter) - length ([] :: string list)) (map job_Args ?jobs)"
    using worker_perform_delivers [where queue = "\<lambda>w. w" and bodies = "[]" and jobs = ?jobs and U = Inr and json_Marshal = Inr,
        OF exchange start reg held jobs] by blast
  have "maxConcurrency example_adapter = 2"
    by (simp add: example_adapter_def New_Adapter_def example_options_def)
  then show ?thesis
    using run(1,2) run(3) [of "map (\<lambda>b. \<lparr>dl_tag = 0, dl_Body = b\<rparr>) sent" "\<lambda>_. None" "\<lambda>_. None"] by (simp add: o_def)
qed

text \<open>
  RabbitMQ reads \<open>x-message-ttl\<close> in milliseconds: the time a delayed job waits in its temporary queue.
\<close>

definition delay_of :: "queue_decl \<Rightarrow> int option" where
  "delay_of d = (case map_of (qd_args d) ''x-message-ttl'' of Some (TInt ms) \<Rightarrow> Some (ms * 1000000) | _ \<Rightarrow> None)"

text \<open>
  The delay of a job that should run after a duration is the whole number of its seconds, taken as
  milliseconds: at most a thousandth of the duration.
\<close>

theorem perform_in_too_early:
  assumes "0 \<le> t"
  shows "\<exists>delay. delay_of (delayed_queue job (go_quot t time_Second)) = Some delay \<and> 1000 * delay \<le> t"
  using assms by (simp add: delay_of_def delayed_queue_def go_quot_seconds)

theorem perform_in_too_early_witness:
  "\<exists>delay. delay_of (delayed_queue \<lparr>job_Handler = ''h'', job_Queue = [], job_Args = ()\<rparr> (go_quot 5000000000 time_Second))
     = Some delay \<and> 1000 * delay \<le> 5000000000"
  by (rule perform_in_too_early) simp

text \<open>
  \<open>Dial\<close>, with a retrier that does what is documented: the result of the first attempt that succeeds, among at most six,
  or else the error of the sixth.
\<close>

theorem dial_six_attempts:
  assumes "\<And>i. st (Suc i) = snd (dial_operation api url (st i))" and "st 0 = (None, w)"
    and "k \<le> 5" and "\<And>i. i < k \<Longrightarrow> fst (dial_operation api url (st i)) \<noteq> None"
    and "fst (dial_operation api url (st k)) = None \<or> k = 5"
  shows "Dial retry_ref api url w =
    (case fst (dial_operation api url (st k)) of None \<Rightarrow> Inr (fst (st (Suc k))) | Some err \<Rightarrow> Inl err, snd (st (Suc k)))"
  using retry_ref_until [of st "dial_operation api url" k 5] assms
  by (simp add: Dial_def split: option.split prod.split)

end
