(* ===== verification/Http_Server.thy ===== *)
theory Http_Server
  imports Go_Errors
begin

text \<open>
  The HTTP server (\<^verbatim>\<open>src/httpserver/server.go\<close>, \<^verbatim>\<open>options.go\<close>): its construction from options, and its
  life cycle as a machine of concurrent calls. Of \<open>net/http\<close> the machine has what the source relies on:
  \<open>Serve\<close> ends with \<open>ErrServerClosed\<close> once \<open>Shutdown\<close> was called, \<open>Shutdown\<close> starts the registered
  functions, each in a goroutine, closes the listeners, waits for the calls serving them, and polls until
  no connection is left (it closes the idle ones) or its context ends. Times are in nanoseconds.
\<close>

section \<open>Construction\<close>

text \<open>A context derived by \<open>WithCancel\<close> names the cancel function that ends it.\<close>

datatype hctx = BackgroundCtx | UserCtx nat | CancelCtx hctx nat

text \<open>
  The fields of \<open>http.Server\<close> that are set, and the server's own. \<open>BaseContext\<close> is a constant function:
  \<open>None\<close> when unset, \<open>Some None\<close> when it returns a nil context.
\<close>

record HTTPServer =
  hs_Addr :: string
  hs_ReadTimeout :: int
  hs_ReadHeaderTimeout :: int
  hs_WriteTimeout :: int
  hs_IdleTimeout :: int
  hs_HandlerTimeout :: int
  hs_BaseContext :: "hctx option option"
  hs_onShutdown :: "nat list"
  info_Addr :: string
  hs_signals :: "string list list"

datatype Option =
  addressOption string
| serverTimeoutsOption int int int int
| baseContextOption "hctx option" bool
| shutdownSignalsOption "string list"

definition addressOption_apply :: "string \<Rightarrow> HTTPServer \<Rightarrow> HTTPServer" where
  "addressOption_apply a s = s\<lparr>hs_Addr := a, info_Addr := a\<rparr>"

definition serverTimeoutsOption_apply :: "int \<Rightarrow> int \<Rightarrow> int \<Rightarrow> int \<Rightarrow> HTTPServer \<Rightarrow> HTTPServer" where
  "serverTimeoutsOption_apply write read idle readHeader s =
     s\<lparr>hs_WriteTimeout := write, hs_ReadTimeout := read, hs_IdleTimeout := idle, hs_ReadHeaderTimeout := readHeader\<rparr>"

text \<open>
  The local variable \<open>ctx\<close> is nil at first; \<open>context.WithCancel\<close> is given the option's context, not the
  local one, and panics on nil.
\<close>

definition baseContextOption_apply :: "hctx option \<Rightarrow> bool \<Rightarrow> HTTPServer \<Rightarrow> HTTPServer go" where
  "baseContextOption_apply o_ctx cancelOnShutdown s =
     (if o_ctx = None \<and> \<not> cancelOnShutdown then Ret s
      else let ctx = (if o_ctx = None then Some BackgroundCtx else None) in
           if cancelOnShutdown then
             (case o_ctx of
                None \<Rightarrow> Panic ''cannot create context from nil parent''
              | Some parent \<Rightarrow>
                  (let cancel = length (hs_onShutdown s) in
                   Ret (s\<lparr>hs_onShutdown := hs_onShutdown s @ [cancel],
                          hs_BaseContext := Some (Some (CancelCtx parent cancel))\<rparr>)))
           else Ret (s\<lparr>hs_BaseContext := Some ctx\<rparr>))"

text \<open>The goroutine that waits for one of the signals.\<close>

definition shutdownSignalsOption_apply :: "string list \<Rightarrow> HTTPServer \<Rightarrow> HTTPServer" where
  "shutdownSignalsOption_apply sigs s = (if length sigs = 0 then s else s\<lparr>hs_signals := hs_signals s @ [sigs]\<rparr>)"

fun Option_apply :: "Option \<Rightarrow> HTTPServer \<Rightarrow> HTTPServer go" where
  "Option_apply (addressOption a) s = Ret (addressOption_apply a s)"
| "Option_apply (serverTimeoutsOption w r i h) s = Ret (serverTimeoutsOption_apply w r i h s)"
| "Option_apply (baseContextOption c b) s = baseContextOption_apply c b s"
| "Option_apply (shutdownSignalsOption sigs) s = Ret (shutdownSignalsOption_apply sigs s)"

text \<open>The texts of the options; the base context's prints the context and is left out.\<close>

definition addressOption_String :: "string \<Rightarrow> string" where
  "addressOption_String a = ''server.Address: '' @ a"

definition serverTimeoutsOption_String :: "int \<Rightarrow> int \<Rightarrow> int \<Rightarrow> int \<Rightarrow> string" where
  "serverTimeoutsOption_String write read idle readHeader =
     ''server.WriteTimeout: '' @ dec_int write @ [CHR 0x0A] @ ''server.ReadTimeout: '' @ dec_int read @ [CHR 0x0A]
     @ ''server.IdleTimeout: '' @ dec_int idle @ [CHR 0x0A] @ ''server.ReadHeaderTimeout: '' @ dec_int readHeader @ [CHR 0x0A]"

fun join_spaces :: "string list \<Rightarrow> string" where
  "join_spaces [] = []"
| "join_spaces [x] = x"
| "join_spaces (x # y # xs) = x @ '' '' @ join_spaces (y # xs)"

definition shutdownSignalsOption_String :: "string list \<Rightarrow> string" where
  "shutdownSignalsOption_String sigs = ''server.ShutdownSignals: ['' @ join_spaces sigs @ '']''"

definition http_WithAddress :: "string \<Rightarrow> Option" where
  "http_WithAddress a = addressOption a"

definition WithServerTimeouts :: "int \<Rightarrow> int \<Rightarrow> int \<Rightarrow> int \<Rightarrow> Option" where
  "WithServerTimeouts w r i h = serverTimeoutsOption w r i h"

definition WithBaseContext :: "hctx option \<Rightarrow> bool \<Rightarrow> Option" where
  "WithBaseContext c b = baseContextOption c b"

definition WithShutdownSignalsOption :: "string list \<Rightarrow> Option" where
  "WithShutdownSignalsOption sigs = shutdownSignalsOption sigs"

abbreviation defaultAddr :: string where "defaultAddr \<equiv> '':80''"
abbreviation sec :: int where "sec \<equiv> 1000000000"
abbreviation millisec :: int where "millisec \<equiv> 1000000"

definition default_server :: HTTPServer where
  "default_server =
     (let handlerTimeout = 120 * sec; readHeaderTimeout = 5 * sec; wiggleRoom = 200 * millisec
      in \<lparr>hs_Addr = defaultAddr, hs_ReadTimeout = handlerTimeout + readHeaderTimeout + wiggleRoom,
          hs_ReadHeaderTimeout = readHeaderTimeout, hs_WriteTimeout = handlerTimeout + wiggleRoom,
          hs_IdleTimeout = 2 * 60 * sec, hs_HandlerTimeout = handlerTimeout, hs_BaseContext = None,
          hs_onShutdown = [], info_Addr = [], hs_signals = []\<rparr>)"

fun apply_options :: "Option list \<Rightarrow> HTTPServer \<Rightarrow> HTTPServer go" where
  "apply_options [] s = Ret s"
| "apply_options (op # ops) s = go_bind (Option_apply op s) (apply_options ops)"

definition New_Server :: "Option list \<Rightarrow> HTTPServer go" where
  "New_Server options = apply_options options default_server"

section \<open>The life cycle\<close>

abbreviation http_ErrServerClosed :: go_error where "http_ErrServerClosed \<equiv> ErrNew ''http: Server closed''"
abbreviation context_DeadlineExceeded :: go_error where "context_DeadlineExceeded \<equiv> ErrNew ''context deadline exceeded''"

text \<open>\<open>handleShutdown\<close> behind its wait, and what \<open>Shutdown\<close> makes of the error of \<open>net/http\<close>.\<close>

definition handleShutdown :: "go_error \<Rightarrow> go_error option" where
  "handleShutdown err = (if \<not> errors_Is err http_ErrServerClosed then Some err else None)"

definition shutdown_result :: "go_error option \<Rightarrow> go_error option" where
  "shutdown_result err =
     (case err of None \<Rightarrow> None | Some e \<Rightarrow> if \<not> errors_Is e http_ErrServerClosed then Some e else None)"

text \<open>
  A call of \<open>Serve\<close> or \<open>ListenAndServe\<close>: serving, waiting in \<open>handleShutdown\<close> with the error that
  ended it, returned, or panicked. A call of the server's \<open>Shutdown\<close>: inside the \<open>Shutdown\<close> of
  \<open>net/http\<close>; behind it, with the result computed and the deferred calls to come; behind the deferred
  \<open>closeDoneOnce.Do\<close>; returned to its caller. The machine also has the flag of \<open>net/http\<close>, the open
  connections (the closing of an idle one by \<open>Shutdown\<close> is a step of its own), the functions to run on
  shutdown that were started and those that have run, how often \<open>done\<close> was closed, the \<open>sync.Once\<close>,
  and the signal goroutines that still wait.
\<close>

datatype serve_pc = Serving | WaitDone go_error | ServeReturned "go_error option" | ServePanic

datatype shutdown_pc =
  Polling | Deferred "go_error option" | DoneClosed "go_error option" | ShutdownReturned "go_error option"

fun closed_done :: "shutdown_pc \<Rightarrow> bool" where
  "closed_done (DoneClosed r) \<longleftrightarrow> True"
| "closed_done (ShutdownReturned r) \<longleftrightarrow> True"
| "closed_done p \<longleftrightarrow> False"

fun shutdown_outcome :: "shutdown_pc \<Rightarrow> go_error option option" where
  "shutdown_outcome Polling = None"
| "shutdown_outcome (Deferred r) = Some r"
| "shutdown_outcome (DoneClosed r) = Some r"
| "shutdown_outcome (ShutdownReturned r) = Some r"

record machine =
  m_server :: HTTPServer
  m_inShutdown :: bool
  m_conns :: nat
  m_started :: "nat list"
  m_cancelled :: "nat set"
  m_doneClosed :: nat
  m_once :: bool
  m_serves :: "serve_pc list"
  m_shutdowns :: "shutdown_pc list"
  m_waiting :: "string list list"

definition machine_init :: "HTTPServer \<Rightarrow> machine" where
  "machine_init s = \<lparr>m_server = s, m_inShutdown = False, m_conns = 0, m_started = [], m_cancelled = {},
     m_doneClosed = 0, m_once = False, m_serves = [], m_shutdowns = [], m_waiting = hs_signals s\<rparr>"

text \<open>
  \<open>Serve\<close> of \<open>net/http\<close> refuses when the server was shut down; only then it asks for the base context,
  and panics on nil.
\<close>

definition serve_start :: "machine \<Rightarrow> serve_pc" where
  "serve_start s =
     (if m_inShutdown s then WaitDone http_ErrServerClosed
      else if hs_BaseContext (m_server s) = Some None then ServePanic else Serving)"

definition begin_shutdown :: "machine \<Rightarrow> machine" where
  "begin_shutdown s = s\<lparr>m_inShutdown := True, m_started := m_started s @ hs_onShutdown (m_server s),
     m_shutdowns := m_shutdowns s @ [Polling]\<rparr>"

definition close_done :: "machine \<Rightarrow> machine" where
  "close_done s = (if m_once s then s else s\<lparr>m_once := True, m_doneClosed := Suc (m_doneClosed s)\<rparr>)"

datatype server_op =
  Serve | ListenFails go_error | AcceptFails nat go_error | ListenerClosed nat | ServeEnds nat
| ConnOpens | ConnCloses | Shutdown | ShutdownIdle nat "go_error option" | ShutdownTimeout nat
| ClosesDone nat | ShutdownReturns nat | RunsOnShutdown nat | Signal nat

inductive server_step :: "machine \<Rightarrow> server_op \<Rightarrow> machine \<Rightarrow> bool" where
  sv_serve: "server_step s Serve (s\<lparr>m_serves := m_serves s @ [serve_start s]\<rparr>)"
| sv_listen_fails: "server_step s (ListenFails e)
    (s\<lparr>m_serves := m_serves s @ [WaitDone (if m_inShutdown s then http_ErrServerClosed else e)]\<rparr>)"
| sv_accept_fails: "k < length (m_serves s) \<Longrightarrow> m_serves s ! k = Serving \<Longrightarrow> \<not> m_inShutdown s \<Longrightarrow>
    server_step s (AcceptFails k e) (s\<lparr>m_serves := (m_serves s)[k := WaitDone e]\<rparr>)"
| sv_closed: "k < length (m_serves s) \<Longrightarrow> m_serves s ! k = Serving \<Longrightarrow> m_inShutdown s \<Longrightarrow>
    server_step s (ListenerClosed k) (s\<lparr>m_serves := (m_serves s)[k := WaitDone http_ErrServerClosed]\<rparr>)"
| sv_ends: "k < length (m_serves s) \<Longrightarrow> m_serves s ! k = WaitDone e \<Longrightarrow> 0 < m_doneClosed s \<Longrightarrow>
    server_step s (ServeEnds k) (s\<lparr>m_serves := (m_serves s)[k := ServeReturned (handleShutdown e)]\<rparr>)"
| sv_conn_opens: "Serving \<in> set (m_serves s) \<Longrightarrow>
    server_step s ConnOpens (s\<lparr>m_conns := Suc (m_conns s)\<rparr>)"
| sv_conn_closes: "0 < m_conns s \<Longrightarrow> server_step s ConnCloses (s\<lparr>m_conns := m_conns s - 1\<rparr>)"
| sv_shutdown: "server_step s Shutdown (begin_shutdown s)"
| sv_idle: "j < length (m_shutdowns s) \<Longrightarrow> m_shutdowns s ! j = Polling \<Longrightarrow> Serving \<notin> set (m_serves s) \<Longrightarrow>
    m_conns s = 0 \<Longrightarrow>
    server_step s (ShutdownIdle j lnerr) (s\<lparr>m_shutdowns := (m_shutdowns s)[j := Deferred (shutdown_result lnerr)]\<rparr>)"
| sv_timeout: "j < length (m_shutdowns s) \<Longrightarrow> m_shutdowns s ! j = Polling \<Longrightarrow> Serving \<notin> set (m_serves s) \<Longrightarrow>
    server_step s (ShutdownTimeout j)
      (s\<lparr>m_shutdowns := (m_shutdowns s)[j := Deferred (shutdown_result (Some context_DeadlineExceeded))]\<rparr>)"
| sv_closes_done: "j < length (m_shutdowns s) \<Longrightarrow> m_shutdowns s ! j = Deferred r \<Longrightarrow>
    server_step s (ClosesDone j) (close_done (s\<lparr>m_shutdowns := (m_shutdowns s)[j := DoneClosed r]\<rparr>))"
| sv_shutdown_returns: "j < length (m_shutdowns s) \<Longrightarrow> m_shutdowns s ! j = DoneClosed r \<Longrightarrow>
    server_step s (ShutdownReturns j) (s\<lparr>m_shutdowns := (m_shutdowns s)[j := ShutdownReturned r]\<rparr>)"
| sv_on_shutdown: "c \<in> set (m_started s) \<Longrightarrow>
    server_step s (RunsOnShutdown c) (s\<lparr>m_started := remove1 c (m_started s), m_cancelled := insert c (m_cancelled s)\<rparr>)"
| sv_signal: "i < length (m_waiting s) \<Longrightarrow>
    server_step s (Signal i) (begin_shutdown (s\<lparr>m_waiting := take i (m_waiting s) @ drop (Suc i) (m_waiting s)\<rparr>))"

inductive_cases server_stepE: "server_step s a t"

section \<open>Invariant\<close>

definition server_inv :: "HTTPServer \<Rightarrow> machine \<Rightarrow> bool" where
  "server_inv s0 s \<longleftrightarrow>
     m_server s = s0
   \<and> m_doneClosed s = (if m_once s then 1 else 0)
   \<and> (m_once s \<longleftrightarrow> (\<exists>p\<in>set (m_shutdowns s). closed_done p))
   \<and> (m_shutdowns s \<noteq> [] \<longrightarrow> m_inShutdown s \<and> set (hs_onShutdown s0) \<subseteq> set (m_started s) \<union> m_cancelled s)
   \<and> (\<forall>r. ServeReturned r \<in> set (m_serves s) \<longrightarrow> m_once s)
   \<and> ((\<exists>p\<in>set (m_shutdowns s). shutdown_outcome p = Some None) \<longrightarrow> m_conns s = 0)
   \<and> ((\<exists>p\<in>set (m_shutdowns s). p \<noteq> Polling) \<longrightarrow> Serving \<notin> set (m_serves s))
   \<and> (hs_BaseContext s0 = Some None \<longrightarrow> Serving \<notin> set (m_serves s))"

lemma timeout_not_closed [simp]: "shutdown_result (Some context_DeadlineExceeded) = Some context_DeadlineExceeded"
  by (simp add: shutdown_result_def errors_Is_def)

lemma bex_update_elim: "\<exists>p\<in>set (xs[j := y]). P p \<Longrightarrow> P y \<or> (\<exists>p\<in>set xs. P p)"
  using set_update_subset_insert [of xs j y] by blast

lemma bex_update_keep:
  assumes "j < length xs" and "P (xs ! j) \<Longrightarrow> P y" and "\<exists>p\<in>set xs. P p"
  shows "\<exists>p\<in>set (xs[j := y]). P p"
proof -
  obtain i where i: "i < length xs" "P (xs ! i)"
    using assms(3) by (auto simp: in_set_conv_nth)
  have "P (xs[j := y] ! i)" using i assms(1,2) by (cases "i = j") simp_all
  moreover have "xs[j := y] ! i \<in> set (xs[j := y])" using i(1) by (intro nth_mem) simp
  ultimately show ?thesis by blast
qed

text \<open>The steps of a call of \<open>Shutdown\<close> that do not close \<open>done\<close>.\<close>

lemma inv_shutdown_moves:
  assumes inv: "server_inv s0 s" and j: "j < length (m_shutdowns s)"
    and same: "closed_done (m_shutdowns s ! j) = closed_done p" and p: "p \<noteq> Polling"
    and outcome: "shutdown_outcome (m_shutdowns s ! j) \<noteq> Some None \<Longrightarrow> shutdown_outcome p = Some None \<Longrightarrow> m_conns s = 0"
    and first: "m_shutdowns s ! j = Polling \<Longrightarrow> Serving \<notin> set (m_serves s)"
  shows "server_inv s0 (s\<lparr>m_shutdowns := (m_shutdowns s)[j := p]\<rparr>)"
proof -
  let ?xs = "m_shutdowns s"
  have mem: "?xs ! j \<in> set ?xs" using j by simp
  have once: "(\<exists>q\<in>set (?xs[j := p]). closed_done q) \<longleftrightarrow> (\<exists>q\<in>set ?xs. closed_done q)"
    using bex_update_elim [of ?xs j p closed_done] bex_update_keep [OF j, of closed_done p] same mem by metis
  have conns: "m_conns s = 0" if "\<exists>q\<in>set (?xs[j := p]). shutdown_outcome q = Some None"
  proof -
    have "m_conns s = 0" if "\<exists>q\<in>set ?xs. shutdown_outcome q = Some None"
      using inv that by (simp add: server_inv_def)
    then show ?thesis
      using bex_update_elim [OF that] outcome mem by metis
  qed
  have serving: "Serving \<notin> set (m_serves s)"
    using first inv mem by (cases "?xs ! j = Polling") (auto simp: server_inv_def)
  show ?thesis
    using inv j once conns serving by (auto simp: server_inv_def)
qed

text \<open>The deferred call that closes \<open>done\<close>, unless it is closed.\<close>

lemma inv_closes_done:
  assumes inv: "server_inv s0 s" and j: "j < length (m_shutdowns s)" "m_shutdowns s ! j = Deferred r"
  shows "server_inv s0 (close_done (s\<lparr>m_shutdowns := (m_shutdowns s)[j := DoneClosed r]\<rparr>))"
proof -
  let ?xs = "m_shutdowns s"
  have mem: "Deferred r \<in> set ?xs" using j nth_mem by metis
  have once: "\<exists>q\<in>set (?xs[j := DoneClosed r]). closed_done q"
    using set_update_memI [OF j(1), of "DoneClosed r"] by force
  have conns: "m_conns s = 0" if "\<exists>q\<in>set (?xs[j := DoneClosed r]). shutdown_outcome q = Some None"
  proof -
    have "shutdown_outcome (Deferred r) = shutdown_outcome (DoneClosed r)" by simp
    then have "\<exists>q\<in>set ?xs. shutdown_outcome q = Some None"
      using bex_update_elim [OF that] mem by metis
    then show ?thesis using inv by (simp add: server_inv_def)
  qed
  have serving: "Serving \<notin> set (m_serves s)" using inv mem by (auto simp: server_inv_def)
  show ?thesis
    using inv j once conns serving by (auto simp: server_inv_def close_done_def)
qed

lemma inv_begin_shutdown:
  assumes "server_inv s0 s"
  shows "server_inv s0 (begin_shutdown s)"
  using assms by (auto simp: server_inv_def begin_shutdown_def)

lemma inv_serves:
  assumes "server_inv s0 s" and "set ps \<subseteq> insert p (set (m_serves s))"
    and "\<And>r. p = ServeReturned r \<Longrightarrow> m_once s"
    and "p = Serving \<Longrightarrow> hs_BaseContext s0 \<noteq> Some None \<and> m_shutdowns s = []"
  shows "server_inv s0 (s\<lparr>m_serves := ps\<rparr>)"
  using assms by (auto simp: server_inv_def)

lemma server_inv_step:
  assumes inv: "server_inv s0 s" and step: "server_step s a t"
  shows "server_inv s0 t"
  using step
proof (cases rule: server_step.cases)
  case sv_serve
  with inv show ?thesis
    by (auto intro!: inv_serves [where p = "serve_start s"] simp: serve_start_def server_inv_def split: if_splits)
next
  case (sv_listen_fails e)
  with inv show ?thesis by (auto intro!: inv_serves)
next
  case (sv_accept_fails k e)
  with inv show ?thesis by (auto intro!: inv_serves [OF _ set_update_subset_insert])
next
  case (sv_closed k)
  with inv show ?thesis by (auto intro!: inv_serves [OF _ set_update_subset_insert])
next
  case (sv_ends k e)
  moreover have "m_once s" using inv sv_ends by (auto simp: server_inv_def split: if_splits)
  ultimately show ?thesis using inv by (auto intro!: inv_serves [OF _ set_update_subset_insert])
next
  case (sv_idle j lnerr)
  then show ?thesis using inv_shutdown_moves [OF inv, of j "Deferred (shutdown_result lnerr)"] by simp
next
  case (sv_timeout j)
  then show ?thesis using inv_shutdown_moves [OF inv, of j "Deferred (Some context_DeadlineExceeded)"] by simp
next
  case (sv_closes_done j r)
  then show ?thesis using inv_closes_done [OF inv] by simp
next
  case (sv_shutdown_returns j r)
  then show ?thesis using inv_shutdown_moves [OF inv, of j "ShutdownReturned r"] by simp
next
  case sv_shutdown
  with inv show ?thesis by (simp add: inv_begin_shutdown)
next
  case (sv_signal i)
  have "server_inv s0 (s\<lparr>m_waiting := take i (m_waiting s) @ drop (Suc i) (m_waiting s)\<rparr>)"
    using inv by (auto simp: server_inv_def)
  with sv_signal show ?thesis by (simp add: inv_begin_shutdown)
next
  case sv_conn_opens
  with inv show ?thesis by (auto simp: server_inv_def)
next
  case sv_conn_closes
  with inv show ?thesis by (auto simp: server_inv_def)
next
  case (sv_on_shutdown c)
  with inv show ?thesis by (auto simp: server_inv_def dest: in_set_remove1 [THEN iffD2, rotated])
qed

interpretation http_server: invariant_machine "machine_init s0" server_step "server_inv s0" for s0
proof (unfold_locales, goal_cases)
  case 1
  show ?case by (simp add: server_inv_def machine_init_def)
next
  case (2 s a t)
  then show ?case by (rule server_inv_step)
qed

section \<open>Properties\<close>

text \<open>
  C29. In every state of the server, under every interleaving of its calls: the \<open>done\<close> channel was closed
  at most once; no call of \<open>Serve\<close> or \<open>ListenAndServe\<close> has returned, whatever error ended it, unless some
  call of \<open>Shutdown\<close> has run its deferred \<open>close(s.done)\<close>, behind the shutdown of \<open>net/http\<close>, and by then
  no call serves any more; when the shutdown of \<open>net/http\<close> ended without an error no connection is left
  open; and once \<open>done\<close> was closed every call still waiting can return at once, with nil when it ended
  because the server was closed and with its own error otherwise. The order of the two returns is not
  fixed: a \<open>Serve\<close> may return before the \<open>Shutdown\<close> that released it does.
\<close>

theorem server_serve_ends_with_shutdown:
  assumes "reachable (machine_init s0) server_step s"
  shows "m_doneClosed s \<le> 1
    \<and> (\<forall>r. ServeReturned r \<in> set (m_serves s) \<longrightarrow>
         (\<exists>p\<in>set (m_shutdowns s). closed_done p) \<and> Serving \<notin> set (m_serves s))
    \<and> (\<forall>p\<in>set (m_shutdowns s). shutdown_outcome p = Some None \<longrightarrow> m_conns s = 0)
    \<and> (\<forall>p k e. p \<in> set (m_shutdowns s) \<longrightarrow> closed_done p \<longrightarrow> k < length (m_serves s) \<longrightarrow> m_serves s ! k = WaitDone e
        \<longrightarrow> (\<exists>t. server_step s (ServeEnds k) t
              \<and> m_serves t ! k = ServeReturned (if errors_Is e http_ErrServerClosed then None else Some e)))"
proof -
  have inv: "server_inv s0 s" using http_server.inv_reachable [OF assms] .
  have once: "m_once s \<longleftrightarrow> (\<exists>p\<in>set (m_shutdowns s). closed_done p)"
    using inv by (simp add: server_inv_def)
  have returned: "m_once s \<and> Serving \<notin> set (m_serves s)" if "ServeReturned r \<in> set (m_serves s)" for r
  proof -
    have "m_once s" using inv that by (auto simp: server_inv_def)
    moreover obtain p where "p \<in> set (m_shutdowns s)" "closed_done p"
      using once \<open>m_once s\<close> by blast
    moreover then have "p \<noteq> Polling" by auto
    ultimately show ?thesis using inv by (auto simp: server_inv_def)
  qed
  have ends: "\<exists>t. server_step s (ServeEnds k) t
      \<and> m_serves t ! k = ServeReturned (if errors_Is e http_ErrServerClosed then None else Some e)"
    if "m_once s" "k < length (m_serves s)" "m_serves s ! k = WaitDone e" for k e
    using sv_ends [of k s e] that inv by (auto simp: server_inv_def handleShutdown_def)
  have "m_doneClosed s \<le> 1" using inv by (auto simp: server_inv_def)
  moreover have "\<forall>p\<in>set (m_shutdowns s). shutdown_outcome p = Some None \<longrightarrow> m_conns s = 0"
    using inv by (simp add: server_inv_def)
  ultimately show ?thesis using returned ends once by blast
qed

lemmas server_reach = reachable_step [where step = server_step]

text \<open>A run in which \<open>done\<close> is closed and \<open>Shutdown\<close> has not returned yet.\<close>

lemma example_shutdown_run:
  "reachable (machine_init default_server) server_step
     ((machine_init default_server)\<lparr>m_inShutdown := True, m_once := True, m_doneClosed := 1,
        m_serves := [WaitDone http_ErrServerClosed], m_shutdowns := [DoneClosed None]\<rparr>)"
proof -
  let ?i = "machine_init default_server"
  have "reachable ?i server_step (?i\<lparr>m_serves := [Serving]\<rparr>)"
    using server_reach [OF reachable_init sv_serve [of ?i]]
    by (simp add: serve_start_def machine_init_def default_server_def Let_def)
  from server_reach [OF this sv_shutdown]
  have "reachable ?i server_step (?i\<lparr>m_serves := [Serving], m_inShutdown := True, m_shutdowns := [Polling]\<rparr>)"
    by (simp add: begin_shutdown_def machine_init_def default_server_def Let_def)
  from server_reach [OF this sv_closed [of 0]]
  have "reachable ?i server_step (?i\<lparr>m_serves := [WaitDone http_ErrServerClosed], m_inShutdown := True, m_shutdowns := [Polling]\<rparr>)"
    by (simp add: machine_init_def)
  from server_reach [OF this sv_idle [of 0 _ None]]
  have "reachable ?i server_step (?i\<lparr>m_serves := [WaitDone http_ErrServerClosed], m_inShutdown := True, m_shutdowns := [Deferred None]\<rparr>)"
    by (simp add: shutdown_result_def machine_init_def)
  from server_reach [OF this sv_closes_done [of 0 _ None]]
  show ?thesis
    by (simp add: close_done_def machine_init_def)
qed

text \<open>In that state \<open>Serve\<close> returns nil, and it is the only call of the two that has returned.\<close>

theorem server_serve_ends_with_shutdown_witness:
  "\<exists>s t. reachable (machine_init default_server) server_step s \<and> server_step s (ServeEnds 0) t
     \<and> m_serves t ! 0 = ServeReturned None \<and> m_shutdowns s = [DoneClosed None] \<and> m_conns s = 0"
proof -
  let ?s = "(machine_init default_server)\<lparr>m_inShutdown := True, m_once := True, m_doneClosed := 1,
        m_serves := [WaitDone http_ErrServerClosed], m_shutdowns := [DoneClosed None]\<rparr>"
  have "m_conns ?s = 0 \<and> (\<exists>t. server_step ?s (ServeEnds 0) t \<and> m_serves t ! 0 = ServeReturned None)"
    using server_serve_ends_with_shutdown [OF example_shutdown_run] by simp
  then obtain t where "m_conns ?s = 0" "server_step ?s (ServeEnds 0) t" "m_serves t ! 0 = ServeReturned None" by blast
  moreover have "m_shutdowns ?s = [DoneClosed None]" by simp
  ultimately show ?thesis using example_shutdown_run by blast
qed

text \<open>Whether a context has ended, given the cancel functions that have run.\<close>

fun hctx_done :: "nat set \<Rightarrow> hctx \<Rightarrow> bool" where
  "hctx_done cancelled (CancelCtx parent c) \<longleftrightarrow> c \<in> cancelled \<or> hctx_done cancelled parent"
| "hctx_done cancelled c \<longleftrightarrow> False"

text \<open>
  What \<open>WithBaseContext\<close> does to a server: with no context and no cancelling, nothing; with no context
  and cancelling, it panics; with a context and no cancelling, the base context is nil, so that no call
  of \<open>Serve\<close> ever serves; with a context and cancelling, requests get a context derived from the given
  one, which has ended whenever a \<open>Shutdown\<close> was called and the functions it started have run.
\<close>

theorem base_context_option:
  "Option_apply (WithBaseContext None False) s = Ret s
   \<and> Option_apply (WithBaseContext None True) s = Panic ''cannot create context from nil parent''
   \<and> (\<exists>s'. Option_apply (WithBaseContext (Some c) False) s = Ret s'
        \<and> (\<forall>m. reachable (machine_init s') server_step m \<longrightarrow> Serving \<notin> set (m_serves m)))
   \<and> (\<exists>s' cancel. Option_apply (WithBaseContext (Some c) True) s = Ret s'
        \<and> hs_BaseContext s' = Some (Some (CancelCtx c cancel))
        \<and> (\<forall>m. reachable (machine_init s') server_step m \<longrightarrow> m_shutdowns m \<noteq> [] \<longrightarrow> m_started m = []
             \<longrightarrow> hctx_done (m_cancelled m) (CancelCtx c cancel)))"
proof -
  have nil_base: "Serving \<notin> set (m_serves m)"
    if "reachable (machine_init (s\<lparr>hs_BaseContext := Some None\<rparr>)) server_step m" for m
    using http_server.inv_reachable [OF that] by (simp add: server_inv_def)
  define cancel where "cancel = length (hs_onShutdown s)"
  define s' where "s' = s\<lparr>hs_onShutdown := hs_onShutdown s @ [cancel], hs_BaseContext := Some (Some (CancelCtx c cancel))\<rparr>"
  have cancelled: "cancel \<in> m_cancelled m"
    if "reachable (machine_init s') server_step m" "m_shutdowns m \<noteq> []" "m_started m = []" for m
    using http_server.inv_reachable [OF that(1)] that(2,3) by (simp add: server_inv_def s'_def)
  show ?thesis
  proof (intro conjI)
    show "\<exists>s' cancel. Option_apply (WithBaseContext (Some c) True) s = Ret s'
        \<and> hs_BaseContext s' = Some (Some (CancelCtx c cancel))
        \<and> (\<forall>m. reachable (machine_init s') server_step m \<longrightarrow> m_shutdowns m \<noteq> [] \<longrightarrow> m_started m = []
             \<longrightarrow> hctx_done (m_cancelled m) (CancelCtx c cancel))"
      by (intro exI [of _ s'] exI [of _ cancel])
        (use cancelled in \<open>simp add: WithBaseContext_def baseContextOption_apply_def s'_def cancel_def Let_def\<close>)
  qed (use nil_base in \<open>simp_all add: WithBaseContext_def baseContextOption_apply_def\<close>)
qed

theorem base_context_option_witness:
  "\<exists>s'. Option_apply (WithBaseContext (Some BackgroundCtx) False) default_server = Ret s'
     \<and> reachable (machine_init s') server_step ((machine_init s')\<lparr>m_serves := [ServePanic]\<rparr>)
     \<and> Serving \<notin> set (m_serves ((machine_init s')\<lparr>m_serves := [ServePanic]\<rparr>))"
proof -
  obtain s' where s': "Option_apply (WithBaseContext (Some BackgroundCtx) False) default_server = Ret s'"
    "\<And>m. reachable (machine_init s') server_step m \<Longrightarrow> Serving \<notin> set (m_serves m)"
    using base_context_option [of default_server BackgroundCtx] by blast
  have "hs_BaseContext s' = Some None"
    using s'(1) by (auto simp: WithBaseContext_def baseContextOption_apply_def)
  then have "reachable (machine_init s') server_step ((machine_init s')\<lparr>m_serves := [ServePanic]\<rparr>)"
    using server_reach [OF reachable_init sv_serve [of "machine_init s'"]] by (simp add: serve_start_def machine_init_def)
  then show ?thesis using s' by blast
qed

text \<open>
  The timeouts of a server built without the timeout option: a request may be read and handled to its end
  before the connection's deadlines, and the address is the default unless an option sets it.
\<close>

theorem new_server_defaults:
  assumes "New_Server [http_WithAddress a] = Ret s"
  shows "hs_Addr s = a \<and> info_Addr s = a
    \<and> hs_HandlerTimeout s < hs_WriteTimeout s \<and> hs_HandlerTimeout s + hs_ReadHeaderTimeout s < hs_ReadTimeout s"
  using assms by (auto simp: New_Server_def http_WithAddress_def addressOption_apply_def default_server_def Let_def)

end
