(* ===== verification/Go_Json.thy ===== *)
theory Go_Json
  imports Go_Prelude
begin

text \<open>
  What the HTTP components use of \<open>encoding/json\<close>: the text of a Go string as a JSON string, with the
  escapes of the encoder (HTML characters, control characters, line separators, the replacement of
  bytes that are not UTF-8), and objects of such fields. A string is a list of bytes. A reader of JSON
  strings after RFC 8259 states what the text means.
\<close>

section \<open>UTF-8\<close>

abbreviation byte :: "char \<Rightarrow> nat" where "byte c \<equiv> of_char c"

definition in_range :: "nat \<Rightarrow> nat \<Rightarrow> string \<Rightarrow> bool" where
  "in_range lo hi cs = (case cs of [] \<Rightarrow> False | c # _ \<Rightarrow> lo \<le> byte c \<and> byte c \<le> hi)"

text \<open>The length of the encoding a string starts with, as \<open>utf8.DecodeRune\<close> accepts it; 0 when it is invalid.\<close>

definition rune_len :: "string \<Rightarrow> nat" where
  "rune_len cs =
     (let tail = (\<lambda>n. in_range 128 191 (drop n cs)) in
      if in_range 0 127 cs then 1
      else if in_range 194 223 cs then (if tail 1 then 2 else 0)
      else if in_range 224 239 cs then
        (let lo = (if in_range 224 224 cs then 160 else 128); hi = (if in_range 237 237 cs then 159 else 191)
         in if in_range lo hi (drop 1 cs) \<and> tail 2 then 3 else 0)
      else if in_range 240 244 cs then
        (let lo = (if in_range 240 240 cs then 144 else 128); hi = (if in_range 244 244 cs then 143 else 191)
         in if in_range lo hi (drop 1 cs) \<and> tail 2 \<and> tail 3 then 4 else 0)
      else 0)"

section \<open>The encoder\<close>

definition hex_char :: "nat \<Rightarrow> char" where
  "hex_char n = (if n < 10 then char_of (48 + n) else char_of (87 + n))"

definition u00 :: "nat \<Rightarrow> string" where
  "u00 b = CHR 0x5C # ''u00'' @ [hex_char (b div 16), hex_char (b mod 16)]"

definition escape_ascii :: "char \<Rightarrow> string" where
  "escape_ascii c =
     (if c = CHR 0x22 \<or> c = CHR 0x5C then [CHR 0x5C, c]
      else if c = CHR 0x08 then [CHR 0x5C, CHR ''b'']
      else if c = CHR 0x0C then [CHR 0x5C, CHR ''f'']
      else if c = CHR 0x0A then [CHR 0x5C, CHR ''n'']
      else if c = CHR 0x0D then [CHR 0x5C, CHR ''r'']
      else if c = CHR 0x09 then [CHR 0x5C, CHR ''t'']
      else if byte c < 32 \<or> c = CHR ''<'' \<or> c = CHR ''>'' \<or> c = CHR ''&'' then u00 (byte c)
      else [c])"

definition line_separator :: "string \<Rightarrow> bool" where
  "line_separator cs = (take 3 cs = [char_of (226 :: nat), char_of (128 :: nat), char_of (168 :: nat)]
     \<or> take 3 cs = [char_of (226 :: nat), char_of (128 :: nat), char_of (169 :: nat)])"

function json_escape :: "string \<Rightarrow> string" where
  "json_escape cs =
     (case cs of
        [] \<Rightarrow> []
      | c # ds \<Rightarrow>
          if byte c < 128 then escape_ascii c @ json_escape ds
          else if rune_len cs = 0 then CHR 0x5C # ''ufffd'' @ json_escape ds
          else if line_separator cs then CHR 0x5C # ''u202'' @ [hex_char (byte (cs ! 2) mod 16)] @ json_escape (drop 3 cs)
          else take (rune_len cs) cs @ json_escape (drop (rune_len cs) cs))"
  by pat_completeness auto
termination
  by (relation "measure length") auto

declare json_escape.simps [simp del]

definition json_string :: "string \<Rightarrow> string" where
  "json_string s = CHR 0x22 # json_escape s @ [CHR 0x22]"

text \<open>An object: its fields with their encoded values, in the order of the struct.\<close>

fun json_fields :: "(string \<times> string) list \<Rightarrow> string" where
  "json_fields [] = []"
| "json_fields [(k, v)] = json_string k @ '':'' @ v"
| "json_fields ((k, v) # f # fs) = json_string k @ '':'' @ v @ '','' @ json_fields (f # fs)"

definition json_object :: "(string \<times> string) list \<Rightarrow> string" where
  "json_object fs = ''{'' @ json_fields fs @ ''}''"

fun json_items :: "string list \<Rightarrow> string" where
  "json_items [] = []"
| "json_items [v] = v"
| "json_items (v # w # vs) = v @ '','' @ json_items (w # vs)"

definition json_array :: "string list \<Rightarrow> string" where
  "json_array vs = ''['' @ json_items vs @ '']''"

section \<open>Reading\<close>

definition hex_digit :: "char \<Rightarrow> nat option" where
  "hex_digit c =
     (let b = byte c in
      if 48 \<le> b \<and> b \<le> 57 then Some (b - 48)
      else if 97 \<le> b \<and> b \<le> 102 then Some (b - 87)
      else if 65 \<le> b \<and> b \<le> 70 then Some (b - 55)
      else None)"

fun hex4 :: "string \<Rightarrow> nat option" where
  "hex4 [a, b, c, d] =
     (case (hex_digit a, hex_digit b, hex_digit c, hex_digit d) of
        (Some w, Some x, Some y, Some z) \<Rightarrow> Some (((w * 16 + x) * 16 + y) * 16 + z)
      | _ \<Rightarrow> None)"
| "hex4 _ = None"

text \<open>The UTF-8 encoding of a code point of the basic plane that is no surrogate.\<close>

definition utf8_bmp :: "nat \<Rightarrow> string option" where
  "utf8_bmp n =
     (if n < 128 then Some [char_of n]
      else if n < 2048 then Some [char_of (192 + n div 64), char_of (128 + n mod 64)]
      else if 55296 \<le> n \<and> n \<le> 57343 \<or> 65536 \<le> n then None
      else Some [char_of (224 + n div 4096), char_of (128 + n div 64 mod 64), char_of (128 + n mod 64)])"

definition short_escape :: "char \<Rightarrow> char option" where
  "short_escape c = map_of
     [(CHR 0x22, CHR 0x22), (CHR 0x5C, CHR 0x5C), (CHR ''/'', CHR ''/''), (CHR ''b'', CHR 0x08),
      (CHR ''f'', CHR 0x0C), (CHR ''n'', CHR 0x0A), (CHR ''r'', CHR 0x0D), (CHR ''t'', CHR 0x09)] c"

abbreviation prepend :: "string \<Rightarrow> (string \<times> string) option \<Rightarrow> (string \<times> string) option" where
  "prepend p r \<equiv> map_option (\<lambda>(s, rest). (p @ s, rest)) r"

text \<open>The string up to the closing quote, and what follows it.\<close>

function json_read :: "string \<Rightarrow> (string \<times> string) option" where
  "json_read cs =
     (case cs of
        [] \<Rightarrow> None
      | c # ds \<Rightarrow>
          if c = CHR 0x22 then Some ([], ds)
          else if c = CHR 0x5C then
            (case ds of
               [] \<Rightarrow> None
             | e # es \<Rightarrow>
                 if e = CHR ''u'' then
                   (case Option.bind (hex4 (take 4 es)) utf8_bmp of
                      None \<Rightarrow> None
                    | Some p \<Rightarrow> prepend p (json_read (drop 4 es)))
                 else (case short_escape e of None \<Rightarrow> None | Some x \<Rightarrow> prepend [x] (json_read es)))
          else if byte c < 32 then None
          else prepend [c] (json_read ds))"
  by pat_completeness auto
termination
  by (relation "measure length") auto

declare json_read.simps [simp del]

function utf8_valid :: "string \<Rightarrow> bool" where
  "utf8_valid cs = (if cs = [] then True else if rune_len cs = 0 then False else utf8_valid (drop (rune_len cs) cs))"
  by pat_completeness auto
termination
  by (relation "measure length") auto

declare utf8_valid.simps [simp del]

section \<open>Lemmas\<close>

lemma json_read_quote [simp]: "json_read (CHR 0x22 # t) = Some ([], t)"
  by (simp add: json_read.simps)

definition plain :: "char \<Rightarrow> bool" where
  "plain c \<longleftrightarrow> 32 \<le> byte c \<and> c \<noteq> CHR 0x22 \<and> c \<noteq> CHR 0x5C"

lemma json_read_plain: "list_all plain p \<Longrightarrow> json_read (p @ t) = prepend p (json_read t)"
proof (induction p)
  case (Cons c p)
  then have "json_read ((c # p) @ t) = prepend [c] (json_read (p @ t))"
    by (subst json_read.simps) (simp add: plain_def)
  with Cons show ?case by (simp add: option.map_comp comp_def case_prod_beta)
qed (simp add: option.map_id0)

lemma json_read_u:
  "Option.bind (hex4 [a, b, c, d]) utf8_bmp = Some p \<Longrightarrow>
   json_read (CHR 0x5C # CHR ''u'' # a # b # c # d # t) = prepend p (json_read t)"
  by (subst json_read.simps) (simp del: hex4.simps)

lemma json_read_short:
  "short_escape e = Some x \<Longrightarrow> json_read (CHR 0x5C # e # t) = prepend [x] (json_read t)"
  by (subst json_read.simps) (auto simp: short_escape_def split: if_splits)

lemma hex_digit_char: "n < 16 \<Longrightarrow> hex_digit (hex_char n) = Some n"
  by (auto simp: hex_digit_def hex_char_def Let_def)

lemma hex_digit_0 [simp]: "hex_digit (CHR ''0'') = Some 0"
  by (simp add: hex_digit_def)

lemma read_u00:
  assumes "b < 128"
  shows "json_read (u00 b @ t) = prepend [char_of b] (json_read t)"
proof -
  have "hex_digit (hex_char (b div 16)) = Some (b div 16)" "hex_digit (hex_char (b mod 16)) = Some (b mod 16)"
    using assms by (simp_all add: hex_digit_char)
  then have "Option.bind (hex4 [CHR ''0'', CHR ''0'', hex_char (b div 16), hex_char (b mod 16)]) utf8_bmp
      = Some [char_of b]"
    using assms by (simp add: utf8_bmp_def)
  from json_read_u [OF this] show ?thesis by (simp add: u00_def)
qed

lemma read_escape_ascii:
  assumes "byte c < 128"
  shows "json_read (escape_ascii c @ t) = prepend [c] (json_read t)"
proof -
  have "json_read (u00 (byte c) @ t) = prepend [c] (json_read t)"
    using read_u00 [OF assms] by simp
  moreover have "json_read ([c] @ t) = prepend [c] (json_read t)" if "plain c"
    using json_read_plain [of "[c]"] that by simp
  ultimately show ?thesis
    by (auto simp: escape_ascii_def plain_def json_read_short short_escape_def)
qed

lemma in_range_nth: "in_range lo hi (drop n cs) \<longleftrightarrow> n < length cs \<and> lo \<le> byte (cs ! n) \<and> byte (cs ! n) \<le> hi"
proof (cases "n < length cs")
  case True
  then have "drop n cs = cs ! n # drop (Suc n) cs" by (simp add: Cons_nth_drop_Suc)
  with True show ?thesis by (simp add: in_range_def)
qed (simp add: in_range_def)

lemmas in_range_hd = in_range_nth [where n = 0, simplified]

lemma in_range_mono: "in_range lo hi cs \<Longrightarrow> lo' \<le> lo \<Longrightarrow> hi \<le> hi' \<Longrightarrow> in_range lo' hi' cs"
  by (auto simp: in_range_def split: list.splits)

text \<open>The bytes of an encoding longer than one byte are all above ASCII.\<close>

lemmas in_range_tail = in_range_mono [where lo' = 128 and hi' = 191]

lemma rune_tail1: "2 \<le> rune_len cs \<Longrightarrow> in_range 128 191 (drop 1 cs)"
  by (rule ccontr) (auto simp: rune_len_def Let_def dest: in_range_tail split: if_splits)

lemma rune_tail2: "3 \<le> rune_len cs \<Longrightarrow> in_range 128 191 (drop 2 cs)"
  by (rule ccontr) (simp add: rune_len_def Let_def split: if_splits)

lemma rune_tail3: "4 \<le> rune_len cs \<Longrightarrow> in_range 128 191 (drop 3 cs)"
  by (rule ccontr) (simp add: rune_len_def Let_def split: if_splits)

lemma rune_len_max: "rune_len cs \<le> 4"
  by (simp add: rune_len_def Let_def)

lemma rune_bytes:
  assumes "128 \<le> byte (hd cs)" and "i < rune_len cs"
  shows "i < length cs \<and> 128 \<le> byte (cs ! i)"
proof -
  consider "i = 0" | "i = 1" | "i = 2" | "i = 3"
    using assms rune_len_max [of cs] by linarith
  then show ?thesis
  proof cases
    case 1
    have "cs \<noteq> []" using assms by (auto simp: rune_len_def in_range_def)
    with 1 assms show ?thesis by (simp add: hd_conv_nth)
  next
    case 2
    with assms rune_tail1 [of cs] show ?thesis by (simp add: in_range_nth)
  next
    case 3
    with assms rune_tail2 [of cs] show ?thesis by (simp add: in_range_nth)
  next
    case 4
    with assms rune_tail3 [of cs] show ?thesis by (simp add: in_range_nth)
  qed
qed

lemma rune_len_le: "128 \<le> byte (hd cs) \<Longrightarrow> rune_len cs \<le> length cs"
  using rune_bytes [of cs "rune_len cs - 1"] by (cases "rune_len cs") auto

lemma rune_plain:
  assumes "128 \<le> byte (hd cs)"
  shows "list_all plain (take (rune_len cs) cs)"
proof -
  have "plain (cs ! i)" if "i < rune_len cs" for i
  proof -
    have "128 \<le> byte (cs ! i)" using rune_bytes [OF assms that] by simp
    then show ?thesis by (auto simp: plain_def)
  qed
  then show ?thesis using rune_len_le [of cs] assms by (simp add: list_all_length)
qed

lemma rune_len_ascii: "byte c < 128 \<Longrightarrow> rune_len (c # cs) = 1"
  by (simp add: rune_len_def in_range_def)

lemma line_separator_cases:
  assumes "line_separator cs"
  obtains b t where "b = 168 \<or> b = 169" "cs = char_of (226 :: nat) # char_of (128 :: nat) # char_of (b :: nat) # t"
proof -
  obtain b where b: "b = 168 \<or> b = 169" "take 3 cs = [char_of (226 :: nat), char_of (128 :: nat), char_of (b :: nat)]"
    using assms by (auto simp: line_separator_def)
  then have "cs = [char_of (226 :: nat), char_of (128 :: nat), char_of (b :: nat)] @ drop 3 cs"
    by (metis append_take_drop_id)
  with b that show ?thesis by simp
qed

lemma read_separator:
  assumes "b = 168 \<or> b = 169"
  shows "json_read (CHR 0x5C # ''u202'' @ [hex_char (b mod 16)] @ t)
    = prepend [char_of (226 :: nat), char_of (128 :: nat), char_of b] (json_read t)"
proof -
  have "Option.bind (hex4 [CHR ''2'', CHR ''0'', CHR ''2'', hex_char (b mod 16)]) utf8_bmp
      = Some [char_of (226 :: nat), char_of (128 :: nat), char_of b]"
    using assms by (auto simp: hex_digit_char utf8_bmp_def) (simp_all add: hex_digit_def utf8_bmp_def)
  from json_read_u [OF this] show ?thesis by simp
qed

lemma rune_len_separator:
  "b = 168 \<or> b = 169 \<Longrightarrow> rune_len (char_of (226 :: nat) # char_of (128 :: nat) # char_of (b :: nat) # t) = 3"
  by (auto simp: rune_len_def in_range_def)

text \<open>A reader gets back what the encoder was given, when it was UTF-8, and stops at the closing quote.\<close>

lemma json_read_escape:
  "utf8_valid s \<Longrightarrow> json_read (json_escape s @ CHR 0x22 # t) = Some (s, t)"
proof (induction s rule: utf8_valid.induct)
  case (1 cs)
  show ?case
  proof (cases cs)
    case Nil
    then show ?thesis by (simp add: json_escape.simps)
  next
    case (Cons c ds)
    then have len: "rune_len cs \<noteq> 0" and valid: "utf8_valid (drop (rune_len cs) cs)"
      using "1.prems" by (simp_all add: utf8_valid.simps [of "c # ds"] split: if_splits)
    have IH: "json_read (json_escape (drop (rune_len cs) cs) @ CHR 0x22 # t) = Some (drop (rune_len cs) cs, t)"
      using "1.IH" Cons len valid by simp
    show ?thesis
    proof (cases "byte c < 128")
      case True
      with IH Cons show ?thesis
        by (subst json_escape.simps) (simp add: rune_len_ascii read_escape_ascii)
    next
      case high: False
      show ?thesis
      proof (cases "line_separator cs")
        case True
        then obtain b :: nat and u where b: "b = 168 \<or> b = 169" and cs: "cs = char_of (226 :: nat) # char_of (128 :: nat) # char_of b # u"
          by (rule line_separator_cases)
        have three: "rune_len cs = 3" using rune_len_separator [OF b] cs by simp
        have "json_escape cs = CHR 0x5C # ''u202'' @ [hex_char (b mod 16)] @ json_escape u"
          using high Cons True cs b by (subst json_escape.simps) (auto simp: rune_len_separator)
        then show ?thesis
          using read_separator [OF b, of "json_escape u @ CHR 0x22 # t"] IH cs three by simp
      next
        case False
        have "json_escape cs = take (rune_len cs) cs @ json_escape (drop (rune_len cs) cs)"
          using high Cons False len by (subst json_escape.simps) simp
        moreover have "list_all plain (take (rune_len cs) cs)"
          using rune_plain [of cs] high Cons by simp
        ultimately show ?thesis
          using IH by (simp add: json_read_plain)
      qed
    qed
  qed
qed

interpretation json_strings: codec json_string
  "\<lambda>cs. case cs of c # ds \<Rightarrow> (case json_read ds of Some (s, []) \<Rightarrow> Some s | _ \<Rightarrow> None) | [] \<Rightarrow> None" utf8_valid
  by unfold_locales (simp add: json_string_def json_read_escape)

end
