(* ===== verification/Http_Error.thy ===== *)
theory Http_Error
  imports Go_Json Go_Errors
begin

text \<open>
  Error responses of HTTP handlers (\<^verbatim>\<open>src/http/error.go\<close>, \<^verbatim>\<open>src/http/render/render.go\<close>): HTTP and
  OAuth errors, the JSON rendering, and \<open>HandleError\<close>, which logs an error and answers the request. A
  response writer of \<open>net/http\<close> is the state of its response; \<open>rw_writeErr\<close> is the error its
  connection gives to every write, if it is broken; \<open>rw_Header\<close> holds the headers other than the content type. The messages are those after formatting.
\<close>

section \<open>Response writers\<close>

record response =
  rw_ContentType :: "string option"
  rw_status :: "int option"
  rw_body :: string
  rw_writeErr :: "go_error option"
  rw_Header :: "(string \<times> string) list"

abbreviation ErrBodyNotAllowed :: go_error where
  "ErrBodyNotAllowed \<equiv> ErrNew ''http: request method or response status code does not allow body''"

definition set_ContentType :: "string \<Rightarrow> response \<Rightarrow> response" where
  "set_ContentType t w = w\<lparr>rw_ContentType := Some t\<rparr>"

text \<open>A second header is ignored; a code of other than three digits panics; a 1xx header is not the final one.\<close>

definition WriteHeader :: "int \<Rightarrow> response \<Rightarrow> response go" where
  "WriteHeader code w =
     (if rw_status w \<noteq> None then Ret w
      else if code < 100 \<or> 999 < code then Panic (''invalid WriteHeader code '' @ dec_int code)
      else if code \<le> 199 \<and> code \<noteq> 101 then Ret w
      else Ret (w\<lparr>rw_status := Some code\<rparr>))"

definition body_allowed :: "int \<Rightarrow> bool" where
  "body_allowed code \<longleftrightarrow> \<not> (100 \<le> code \<and> code \<le> 199) \<and> code \<noteq> 204 \<and> code \<noteq> 304"

definition rw_Write :: "string \<Rightarrow> response \<Rightarrow> go_error option \<times> response" where
  "rw_Write b w =
     (let code = (case rw_status w of None \<Rightarrow> 200 | Some c \<Rightarrow> c); w1 = w\<lparr>rw_status := Some code\<rparr> in
      if \<not> body_allowed code then (Some ErrBodyNotAllowed, w1)
      else case rw_writeErr w of
             Some e \<Rightarrow> (Some e, w1)
           | None \<Rightarrow> (None, w1\<lparr>rw_body := rw_body w1 @ b\<rparr>))"

text \<open>\<open>SendJSON\<close>, given the text of the object and what the encoder made of it.\<close>

definition SendJSON :: "response \<Rightarrow> int \<Rightarrow> string \<Rightarrow> string result \<Rightarrow> (go_error option \<times> response) go" where
  "SendJSON w status obj_text marshalled =
     (let w1 = set_ContentType ''application/json'' w in
      case marshalled of
        Inl err \<Rightarrow> Ret (Some (wrap_with (''error encoding json response: '' @ obj_text) err), w1)
      | Inr b \<Rightarrow> go_bind (WriteHeader status w1) (\<lambda>w2. Ret (rw_Write b w2)))"

section \<open>HTTP errors\<close>

record HTTPError =
  he_Code :: int
  he_Message :: string
  he_InternalError :: "go_error option"
  he_InternalMessage :: string
  he_ErrorID :: string

definition of_HTTPError :: "HTTPError \<Rightarrow> go_error" where
  "of_HTTPError e = ErrHTTP (he_Code e) (he_Message e) (he_InternalError e) (he_InternalMessage e) (he_ErrorID e)"

fun as_http :: "go_error \<Rightarrow> HTTPError option" where
  "as_http (ErrHTTP c m i im eid) =
     Some \<lparr>he_Code = c, he_Message = m, he_InternalError = i, he_InternalMessage = im, he_ErrorID = eid\<rparr>"
| "as_http _ = None"

definition httpError :: "int \<Rightarrow> string \<Rightarrow> HTTPError" where
  "httpError code msg = \<lparr>he_Code = code, he_Message = msg, he_InternalError = None, he_InternalMessage = [], he_ErrorID = []\<rparr>"

definition BadRequestError :: "string \<Rightarrow> HTTPError" where "BadRequestError msg = httpError 400 msg"
definition InternalServerError :: "string \<Rightarrow> HTTPError" where "InternalServerError msg = httpError 500 msg"
definition NotFoundError :: "string \<Rightarrow> HTTPError" where "NotFoundError msg = httpError 404 msg"
definition UnauthorizedError :: "string \<Rightarrow> HTTPError" where "UnauthorizedError msg = httpError 401 msg"
definition ForbiddenError :: "string \<Rightarrow> HTTPError" where "ForbiddenError msg = httpError 403 msg"
definition UnprocessableEntityError :: "string \<Rightarrow> HTTPError" where "UnprocessableEntityError msg = httpError 422 msg"

definition HTTPError_Error :: "HTTPError \<Rightarrow> string" where
  "HTTPError_Error e =
     (if he_InternalMessage e \<noteq> [] then he_InternalMessage e else dec_int (he_Code e) @ '': '' @ he_Message e)"

definition HTTPError_Cause :: "HTTPError \<Rightarrow> go_error" where
  "HTTPError_Cause e = (case he_InternalError e of Some c \<Rightarrow> c | None \<Rightarrow> of_HTTPError e)"

definition HTTPError_WithInternalError :: "HTTPError \<Rightarrow> go_error \<Rightarrow> HTTPError" where
  "HTTPError_WithInternalError e err = e\<lparr>he_InternalError := Some err\<rparr>"

definition HTTPError_WithInternalMessage :: "HTTPError \<Rightarrow> string \<Rightarrow> HTTPError" where
  "HTTPError_WithInternalMessage e msg = e\<lparr>he_InternalMessage := msg\<rparr>"

definition marshal_HTTPError :: "HTTPError \<Rightarrow> string" where
  "marshal_HTTPError e =
     json_object ([(''code'', dec_int (he_Code e)), (''msg'', json_string (he_Message e))]
       @ (if he_ErrorID e = [] then [] else [(''error_id'', json_string (he_ErrorID e))]))"

section \<open>OAuth errors\<close>

definition oauthErrorMap :: "int \<rightharpoonup> string" where
  "oauthErrorMap = map_of
     [(400, ''invalid_request''), (401, ''unauthorized_client''), (403, ''access_denied''),
      (500, ''server_error''), (503, ''temporarily_unavailable'')]"

record OAuthError =
  oe_Err :: string
  oe_Description :: string
  oe_InternalError :: "go_error option"
  oe_InternalMessage :: string

definition OauthError :: "string \<Rightarrow> string \<Rightarrow> OAuthError" where
  "OauthError err description = \<lparr>oe_Err = err, oe_Description = description, oe_InternalError = None, oe_InternalMessage = []\<rparr>"

definition OAuthError_Error :: "OAuthError \<Rightarrow> string" where
  "OAuthError_Error e =
     (if oe_InternalMessage e \<noteq> [] then oe_InternalMessage e else oe_Err e @ '': '' @ oe_Description e)"

definition OAuthError_Cause :: "OAuthError \<Rightarrow> go_error" where
  "OAuthError_Cause e =
     (case oe_InternalError e of Some c \<Rightarrow> c | None \<Rightarrow> ErrOther ''*http.OAuthError'' (OAuthError_Error e))"

definition OAuthError_WithInternalError :: "OAuthError \<Rightarrow> go_error \<Rightarrow> OAuthError" where
  "OAuthError_WithInternalError e err = e\<lparr>oe_InternalError := Some err\<rparr>"

definition OAuthError_WithInternalMessage :: "OAuthError \<Rightarrow> string \<Rightarrow> OAuthError" where
  "OAuthError_WithInternalMessage e msg = e\<lparr>oe_InternalMessage := msg\<rparr>"

section \<open>HandleError\<close>

datatype http_log = LogError go_error string | LogWarn go_error string

definition hidden_body :: "string \<Rightarrow> string" where
  "hidden_body errorID =
     [CHR ''{'', CHR 0x22] @ ''code'' @ [CHR 0x22] @ '':500,'' @ [CHR 0x22] @ ''msg'' @ [CHR 0x22, CHR '':'', CHR 0x22]
     @ ''Internal server error'' @ [CHR 0x22, CHR '','', CHR 0x22] @ ''error_id'' @ [CHR 0x22, CHR '':'', CHR 0x22]
     @ errorID @ [CHR 0x22, CHR ''}'']"

definition log_HTTPError :: "string \<Rightarrow> HTTPError \<Rightarrow> HTTPError \<times> http_log" where
  "log_HTTPError errorID e =
     (if 500 \<le> he_Code e then
        (let e1 = e\<lparr>he_ErrorID := errorID\<rparr> in (e1, LogError (HTTPError_Cause e1) (HTTPError_Error e1)))
      else (e, LogWarn (HTTPError_Cause e) (HTTPError_Error e)))"

definition handle_other :: "go_error \<Rightarrow> string \<Rightarrow> response \<Rightarrow> (http_log list \<times> response) go" where
  "handle_other err errorID w =
     go_bind (WriteHeader 500 w) (\<lambda>w1.
       let (r, w2) = rw_Write (hidden_body errorID) w1
       in Ret (LogError err (error_text err) #
               (case r of None \<Rightarrow> [] | Some writeErr \<Rightarrow> [LogError writeErr (error_text err)]), w2))"

text \<open>
  \<open>HandleError\<close> calls itself when the rendering fails: the first argument bounds the depth of the calls,
  and \<open>None\<close> says that it was not enough.
\<close>

fun http_HandleError :: "nat \<Rightarrow> go_error option \<Rightarrow> string \<Rightarrow> response \<Rightarrow> (http_log list \<times> response) option go" where
  "http_HandleError depth httpErr errorID w =
     (case httpErr of
        None \<Rightarrow> Ret (Some ([], w))
      | Some err \<Rightarrow>
          (case depth of
             0 \<Rightarrow> Ret None
           | Suc depth' \<Rightarrow>
               (case errors_As as_http err of
                  Some e0 \<Rightarrow>
                    (let (e, l) = log_HTTPError errorID e0 in
                     go_bind (SendJSON w (he_Code e) (HTTPError_Error e) (Inr (marshal_HTTPError e))) (\<lambda>(r, w1).
                       case r of
                         None \<Rightarrow> Ret (Some ([l], w1))
                       | Some err1 \<Rightarrow>
                           go_bind (http_HandleError depth' (Some err1) errorID w1) (\<lambda>x.
                             Ret (map_option (\<lambda>(ls, w2). (l # ls, w2)) x))))
                | None \<Rightarrow> go_bind (handle_other err errorID w) (\<lambda>x. Ret (Some x)))))"

declare http_HandleError.simps [simp del]

section \<open>Lemmas\<close>

definition code_ok :: "int \<Rightarrow> bool" where
  "code_ok code \<longleftrightarrow> 100 \<le> code \<and> code \<le> 999"

lemma write_header_ok: "code_ok code \<Longrightarrow> \<exists>w1. WriteHeader code w = Ret w1"
  by (auto simp: WriteHeader_def code_ok_def)

text \<open>The status under which a rendering is sent: a header written before stays, and one of a 1xx code is not the final one.\<close>

definition final_code :: "response \<Rightarrow> int \<Rightarrow> int" where
  "final_code w code = (case rw_status w of Some c \<Rightarrow> c | None \<Rightarrow> if code \<le> 199 \<and> code \<noteq> 101 then 200 else code)"

lemma send_json_ok:
  assumes "rw_status w \<noteq> None \<or> code_ok code"
  obtains w' where "rw_writeErr w' = rw_writeErr w" "rw_status w' = Some (final_code w code)"
    "SendJSON w code t (Inr b) = Ret (if body_allowed (final_code w code) then rw_writeErr w else Some ErrBodyNotAllowed, w')"
proof -
  define w2 where "w2 = (set_ContentType ''application/json'' w)\<lparr>rw_status := Some (final_code w code)\<rparr>"
  define w' where "w' = (if body_allowed (final_code w code) \<and> rw_writeErr w = None then w2\<lparr>rw_body := rw_body w2 @ b\<rparr> else w2)"
  have "SendJSON w code t (Inr b) = Ret (if body_allowed (final_code w code) then rw_writeErr w else Some ErrBodyNotAllowed, w')"
    using assms
    by (cases "rw_status w"; cases "rw_writeErr w")
      (auto simp: SendJSON_def WriteHeader_def rw_Write_def set_ContentType_def code_ok_def final_code_def w2_def w'_def Let_def)
  then show ?thesis using that [of w'] by (simp add: w2_def w'_def set_ContentType_def)
qed

lemma log_HTTPError_public:
  "log_HTTPError errorID e = (e', l) \<Longrightarrow>
     he_Code e' = he_Code e \<and> he_Message e' = he_Message e \<and> HTTPError_Error e' = HTTPError_Error e
   \<and> he_ErrorID e' = (if 500 \<le> he_Code e then errorID else he_ErrorID e)"
  by (auto simp: log_HTTPError_def HTTPError_Error_def Let_def split: if_splits)

lemma handle_other_returns: "\<exists>logs w'. handle_other err errorID w = Ret (logs, w')"
proof -
  obtain w1 where "WriteHeader 500 w = Ret w1" using write_header_ok [of 500 w] by (auto simp: code_ok_def)
  then show ?thesis by (simp add: handle_other_def split: prod.split)
qed

lemma handle_unclassified:
  "errors_As as_http err = None \<Longrightarrow> \<exists>logs w'. \<forall>n\<ge>1. http_HandleError n (Some err) errorID w = Ret (Some (logs, w'))"
proof -
  assume err: "errors_As as_http err = None"
  obtain logs w' where "handle_other err errorID w = Ret (logs, w')" using handle_other_returns by blast
  then have "http_HandleError n (Some err) errorID w = Ret (Some (logs, w'))" if "1 \<le> n" for n
    using that err by (cases n) (simp_all add: http_HandleError.simps)
  then show ?thesis by blast
qed

section \<open>Properties\<close>

definition fresh_response :: response where
  "fresh_response = \<lparr>rw_ContentType = None, rw_status = None, rw_body = [], rw_writeErr = None, rw_Header = []\<rparr>"

text \<open>A write error that is an HTTP error itself: the rendering of it fails again, under any header already sent, and so on.\<close>

lemma http_write_error_loops:
  assumes "errors_As as_http err \<noteq> None" and "rw_writeErr w = Some err" and "rw_status w = Some c" and "body_allowed c"
  shows "http_HandleError depth (Some err) errorID w = Ret None"
  using assms
proof (induction depth arbitrary: w)
  case 0
  then show ?case by (simp add: http_HandleError.simps)
next
  case (Suc depth)
  obtain e0 where e0: "errors_As as_http err = Some e0" using Suc.prems(1) by blast
  obtain e l where e: "log_HTTPError errorID e0 = (e, l)" by fastforce
  have fc: "final_code w (he_Code e) = c" using Suc.prems(3) by (simp add: final_code_def)
  obtain w1 where w1: "rw_writeErr w1 = rw_writeErr w" "rw_status w1 = Some (final_code w (he_Code e))"
      "SendJSON w (he_Code e) (HTTPError_Error e) (Inr (marshal_HTTPError e))
         = Ret (if body_allowed (final_code w (he_Code e)) then rw_writeErr w else Some ErrBodyNotAllowed, w1)"
    by (rule send_json_ok [of w]) (simp add: Suc.prems(3))
  have "http_HandleError depth (Some err) errorID w1 = Ret None"
    using Suc.IH [OF Suc.prems(1)] w1(1,2) fc Suc.prems(2,4) by simp
  with w1(3) Suc.prems(2,4) e0 e fc show ?case by (subst http_HandleError.simps) simp
qed

text \<open>
  C30. How a call of \<open>HandleError\<close> ends, for every error and every writer. It panics exactly when the error is an HTTP error whose code
  does not have three digits and no header was sent yet. It never returns, however deep the calls may go, when the writer's connection
  fails with an error that is an HTTP error itself and the rendering is allowed a body. In all other cases it returns, after at most
  one call of itself.
\<close>

theorem handle_error_terminates:
  "let panics = (\<exists>e. errors_As as_http err = Some e \<and> rw_status w = None \<and> \<not> (100 \<le> he_Code e \<and> he_Code e \<le> 999));
       loops = (\<exists>e we. errors_As as_http err = Some e \<and> rw_writeErr w = Some we \<and> errors_As as_http we \<noteq> None
         \<and> body_allowed (final_code w (he_Code e)))
   in (panics \<longrightarrow> (\<forall>depth \<ge> 1. \<not> is_ret (http_HandleError depth (Some err) errorID w)))
    \<and> (\<not> panics \<and> loops \<longrightarrow> (\<forall>depth. http_HandleError depth (Some err) errorID w = Ret None))
    \<and> (\<not> panics \<and> \<not> loops \<longrightarrow>
        (\<exists>logs w'. \<forall>depth \<ge> 2. http_HandleError depth (Some err) errorID w = Ret (Some (logs, w'))))"
proof (cases "errors_As as_http err")
  case None
  then show ?thesis using handle_unclassified [of err errorID w] by (auto simp: Let_def)
next
  case (Some e0)
  obtain e l where e: "log_HTTPError errorID e0 = (e, l)" by fastforce
  have code: "he_Code e = he_Code e0" using log_HTTPError_public [OF e] by simp
  let ?send = "SendJSON w (he_Code e) (HTTPError_Error e) (Inr (marshal_HTTPError e))"
  have unfold: "http_HandleError (Suc d) (Some err) errorID w = go_bind ?send (\<lambda>(r, w1). case r of
        None \<Rightarrow> Ret (Some ([l], w1))
      | Some err1 \<Rightarrow> go_bind (http_HandleError d (Some err1) errorID w1) (\<lambda>x. Ret (map_option (\<lambda>(ls, w2). (l # ls, w2)) x)))" for d
    using Some e by (subst http_HandleError.simps) simp
  show ?thesis
  proof (cases "rw_status w \<noteq> None \<or> code_ok (he_Code e)")
    case False
    then have "\<not> is_ret ?send" by (auto simp: SendJSON_def set_ContentType_def WriteHeader_def code_ok_def)
    then obtain m where "?send = Panic m" by (cases ?send) auto
    then have "\<not> is_ret (http_HandleError depth (Some err) errorID w)" if "1 \<le> depth" for depth
      using that unfold [of "depth - 1"] by (cases depth) simp_all
    with False Some show ?thesis by (auto simp: code_ok_def code)
  next
    case True
    obtain w1 where w1: "rw_writeErr w1 = rw_writeErr w" "rw_status w1 = Some (final_code w (he_Code e))"
        "?send = Ret (if body_allowed (final_code w (he_Code e)) then rw_writeErr w else Some ErrBodyNotAllowed, w1)"
      by (rule send_json_ok [OF True])
    have no_panic: "\<not> (\<exists>e. errors_As as_http err = Some e \<and> rw_status w = None \<and> \<not> (100 \<le> he_Code e \<and> he_Code e \<le> 999))"
      using True Some by (auto simp: code_ok_def code)
    define r where "r = (if body_allowed (final_code w (he_Code e)) then rw_writeErr w else Some ErrBodyNotAllowed)"
    have loops: "(\<exists>e we. errors_As as_http err = Some e \<and> rw_writeErr w = Some we \<and> errors_As as_http we \<noteq> None
         \<and> body_allowed (final_code w (he_Code e))) = (\<exists>err1. r = Some err1 \<and> errors_As as_http err1 \<noteq> None)"
      using Some by (auto simp: r_def code)
    show ?thesis
    proof (cases r)
      case None
      then have "http_HandleError depth (Some err) errorID w = Ret (Some ([l], w1))" if "2 \<le> depth" for depth
        using that unfold [of "depth - 1"] w1(3) by (cases depth) (simp_all add: r_def [symmetric])
      with no_panic loops None show ?thesis unfolding Let_def by blast
    next
      case (Some err1)
      show ?thesis
      proof (cases "errors_As as_http err1")
        case None
        then obtain logs w' where inner: "\<forall>n\<ge>1. http_HandleError n (Some err1) errorID w1 = Ret (Some (logs, w'))"
          using handle_unclassified by blast
        have "http_HandleError depth (Some err) errorID w = Ret (Some (l # logs, w'))" if deep: "2 \<le> depth" for depth
          using deep unfold [of "depth - 1"] inner w1(3) Some by (cases depth) (simp_all add: r_def [symmetric])
        with no_panic loops None Some show ?thesis unfolding Let_def by auto
      next
        case (Some e1)
        then have err1: "body_allowed (final_code w (he_Code e))" "rw_writeErr w = Some err1"
          using \<open>r = Some err1\<close> by (auto simp: r_def split: if_splits)
        have "http_HandleError d (Some err1) errorID w1 = Ret None" for d
          using http_write_error_loops [of err1 w1 "final_code w (he_Code e)" d errorID] Some w1(1,2) err1 by simp
        then have "http_HandleError depth (Some err) errorID w = Ret None" for depth
          using unfold [of "depth - 1"] w1(3) err1 by (cases depth) (simp_all add: http_HandleError.simps [of 0])
        with no_panic loops Some \<open>r = Some err1\<close> show ?thesis unfolding Let_def by auto
      qed
    qed
  qed
qed

text \<open>A rendering on a broken connection returns; a code of two digits panics.\<close>

theorem handle_error_terminates_witness:
  "(\<exists>logs w'. \<forall>depth \<ge> 2. http_HandleError depth (Some (of_HTTPError (NotFoundError ''no'')))
     ''id'' (fresh_response\<lparr>rw_writeErr := Some (ErrNew ''broken pipe'')\<rparr>) = Ret (Some (logs, w')))
   \<and> \<not> is_ret (http_HandleError 2 (Some (of_HTTPError (httpError 42 ''no''))) ''id'' fresh_response)"
  using handle_error_terminates [of "of_HTTPError (NotFoundError ''no'')" "fresh_response\<lparr>rw_writeErr := Some (ErrNew ''broken pipe'')\<rparr>" "''id''"]
    handle_error_terminates [of "of_HTTPError (httpError 42 ''no'')" fresh_response "''id''"]
  by (simp add: of_HTTPError_def NotFoundError_def httpError_def fresh_response_def)

text \<open>What an answer may show of an error: the code and the message of an HTTP error, and the request's id.\<close>

definition public_part :: "string \<Rightarrow> go_error \<Rightarrow> (int \<times> string \<times> string) option" where
  "public_part errorID err =
     (case errors_As as_http err of
        None \<Rightarrow> None
      | Some e \<Rightarrow> Some (he_Code e, he_Message e, if 500 \<le> he_Code e then errorID else he_ErrorID e))"

fun answer :: "(http_log list \<times> response) option go \<Rightarrow> response option go" where
  "answer (Ret r) = Ret (map_option snd r)"
| "answer (Panic m) = Panic m"

lemma marshal_public:
  "he_Code e = he_Code f \<Longrightarrow> he_Message e = he_Message f \<Longrightarrow> he_ErrorID e = he_ErrorID f \<Longrightarrow>
   marshal_HTTPError e = marshal_HTTPError f"
  by (simp add: marshal_HTTPError_def)

lemma send_json_text: "SendJSON w code t (Inr b) = SendJSON w code t' (Inr b)"
  by (simp add: SendJSON_def)

lemma answer_bind_send:
  "answer (go_bind x (\<lambda>(r, w1). case r of
       None \<Rightarrow> Ret (Some ([l], w1))
     | Some err1 \<Rightarrow> go_bind (H err1 w1) (\<lambda>y. Ret (map_option (\<lambda>(ls, w2). (l # ls, w2)) y))))
   = go_bind x (\<lambda>(r, w1). case r of None \<Rightarrow> Ret (Some w1) | Some err1 \<Rightarrow> answer (H err1 w1))"
proof (cases x)
  case (Ret y)
  have "answer (go_bind h (\<lambda>y. Ret (map_option (\<lambda>(ls, w2). (l # ls, w2)) y))) = answer h" for h
    by (cases h) (simp_all add: option.map_comp comp_def case_prod_beta)
  with Ret show ?thesis by (simp split: prod.split option.split)
qed simp

lemma answer_other: "answer (go_bind (handle_other err errorID w) (\<lambda>x. Ret (Some x)))
    = go_bind (WriteHeader 500 w) (\<lambda>w1. Ret (Some (snd (rw_Write (hidden_body errorID) w1))))"
  by (cases "WriteHeader 500 w") (simp_all add: handle_other_def split: prod.split)

text \<open>
  C31. An answer reveals nothing but the public part: two errors with the same public part are answered with the
  same response, however their internal errors, internal messages and wrappers differ; in particular all
  errors that are no HTTP errors are answered alike.
\<close>

theorem handle_error_hides_internals:
  assumes "public_part errorID err = public_part errorID err'"
  shows "answer (http_HandleError depth (Some err) errorID w) = answer (http_HandleError depth (Some err') errorID w)"
proof (cases depth)
  case 0
  then show ?thesis by (simp add: http_HandleError.simps)
next
  case (Suc d)
  show ?thesis
  proof (cases "errors_As as_http err")
    case None
    then have "errors_As as_http err' = None"
      using assms by (auto simp: public_part_def split: option.splits)
    then show ?thesis
      using None Suc by (simp add: http_HandleError.simps answer_other)
  next
    case (Some e0)
    then obtain f0 where f0: "errors_As as_http err' = Some f0"
      using assms by (auto simp: public_part_def split: option.splits)
    obtain e l where e: "log_HTTPError errorID e0 = (e, l)" by fastforce
    obtain f k where f: "log_HTTPError errorID f0 = (f, k)" by fastforce
    have pub: "he_Code e = he_Code f" "he_Message e = he_Message f" "he_ErrorID e = he_ErrorID f"
      using assms Some f0 log_HTTPError_public [OF e] log_HTTPError_public [OF f]
      by (auto simp: public_part_def split: if_splits)
    have "SendJSON w (he_Code e) (HTTPError_Error e) (Inr (marshal_HTTPError e))
        = SendJSON w (he_Code f) (HTTPError_Error f) (Inr (marshal_HTTPError f))"
      using pub marshal_public [OF pub] send_json_text by metis
    then show ?thesis
      using Some f0 e f Suc by (simp add: http_HandleError.simps answer_bind_send)
  qed
qed

theorem handle_error_hides_internals_witness:
  "answer (http_HandleError 2 (Some (ErrNew ''sql: no rows'')) ''id'' fresh_response)
   = answer (http_HandleError 2 (Some (ErrPQ ''23505'' ''duplicate key'')) ''id'' fresh_response)"
  by (rule handle_error_hides_internals) (simp add: public_part_def)

text \<open>
  C32. On a fresh, working writer an HTTP error with a final status code is answered with that status, JSON
  content, and an object whose message field a JSON reader decodes to the error's message.
\<close>

theorem handle_error_renders:
  assumes "errors_As as_http err = Some e" and "200 \<le> he_Code e" and "he_Code e \<le> 999"
    and "body_allowed (he_Code e)" and "utf8_valid (he_Message e)"
  shows "\<exists>logs w' msg rest. http_HandleError 2 (Some err) errorID fresh_response = Ret (Some (logs, w'))
    \<and> rw_status w' = Some (he_Code e) \<and> rw_ContentType w' = Some ''application/json''
    \<and> rw_body w' = ''{'' @ json_string ''code'' @ '':'' @ dec_int (he_Code e) @ '','' @ json_string ''msg'' @ '':'' @ CHR 0x22 # msg
    \<and> json_read msg = Some (he_Message e, rest)"
proof -
  obtain f l where f: "log_HTTPError errorID e = (f, l)" by fastforce
  note pub = log_HTTPError_public [OF f]
  define more where "more = (if he_ErrorID f = [] then [] else '','' @ json_string ''error_id'' @ '':'' @ json_string (he_ErrorID f))"
  have body: "marshal_HTTPError f = ''{'' @ json_string ''code'' @ '':'' @ dec_int (he_Code e) @ '','' @ json_string ''msg'' @ '':''
      @ CHR 0x22 # json_escape (he_Message e) @ CHR 0x22 # more @ ''}''"
    using pub by (simp add: marshal_HTTPError_def json_object_def more_def json_string_def)
  have "http_HandleError 2 (Some err) errorID fresh_response
      = Ret (Some ([l], fresh_response\<lparr>rw_ContentType := Some ''application/json'', rw_status := Some (he_Code e),
                                      rw_body := marshal_HTTPError f\<rparr>))"
    using assms pub f
    by (subst http_HandleError.simps)
      (simp add: SendJSON_def WriteHeader_def rw_Write_def set_ContentType_def fresh_response_def numeral_2_eq_2)
  then show ?thesis
    using json_read_escape [OF assms(5)] body by auto
qed

theorem handle_error_renders_witness:
  "\<exists>logs w'. http_HandleError 2 (Some (ErrWrap ''x'' (of_HTTPError (NotFoundError ''no <b>'')))) ''id'' fresh_response
     = Ret (Some (logs, w')) \<and> rw_status w' = Some 404"
proof -
  have "utf8_valid ''no <b>''" by code_simp
  then show ?thesis
    using handle_error_renders [of "ErrWrap ''x'' (of_HTTPError (NotFoundError ''no <b>''))" "NotFoundError ''no <b>''" "''id''"]
    by (auto simp: of_HTTPError_def NotFoundError_def httpError_def body_allowed_def)
qed

end
