(* ===== verification/Http_Router.thy ===== *)
theory Http_Router
  imports Http_Error
begin

text \<open>
  The HTTP router (\<^verbatim>\<open>src/http/router\<close>) and the request logger (\<^verbatim>\<open>src/http/structuredlog.go\<close>): the
  wrapper of the chi router with its options, the recovering middleware, and handlers that return
  errors. chi, its middlewares and cors are parameters; what is documented of them is stated as the
  hypotheses \<open>chi_documented\<close>, \<open>logs_requests\<close>, \<open>passes_on\<close> and \<open>cors_documented\<close>.
\<close>

section \<open>Requests and handlers\<close>

text \<open>
  The parts of a request that are read, with the request id and whether a log entry is in its context.
\<close>

record request =
  rq_Method :: string
  rq_Path :: string
  rq_TLS :: bool
  rq_Proto :: string
  rq_RemoteAddr :: string
  rq_UserAgent :: string
  rq_Host :: string
  rq_RequestURI :: string
  rq_reqID :: string
  rq_hasEntry :: bool

datatype router_log =
  RHttp http_log | RStarted "(string \<times> string) list" | RComplete "int option" nat
| RPanicRecovered string | RStderrPanic string | RSentryCaptured string | RSentryFlushError

text \<open>A run of a handler: its log, the response, and the value it panicked with, if it did.\<close>

type_synonym run = "router_log list \<times> response \<times> string option"
type_synonym handler = "request \<Rightarrow> response \<Rightarrow> run"
type_synonym Middleware = "handler \<Rightarrow> handler"

definition MiddlewareFunc :: "(handler \<Rightarrow> request \<Rightarrow> response \<Rightarrow> run) \<Rightarrow> Middleware" where
  "MiddlewareFunc f next_handler = f next_handler"

text \<open>A call of \<open>HandleError\<close>; a depth of calls that is not enough exhausts the stack.\<close>

definition run_HandleError :: "nat \<Rightarrow> go_error option \<Rightarrow> request \<Rightarrow> response \<Rightarrow> run" where
  "run_HandleError depth err req w =
     (case http_HandleError depth err (rq_reqID req) w of
        Ret (Some (ls, w')) \<Rightarrow> (map RHttp ls, w', None)
      | Ret None \<Rightarrow> ([], w, Some ''stack overflow'')
      | Panic m \<Rightarrow> ([], w, Some m))"

abbreviation InternalServerErrorText :: string where "InternalServerErrorText \<equiv> ''Internal Server Error''"

definition Recoverer :: "nat \<Rightarrow> Middleware" where
  "Recoverer depth = MiddlewareFunc (\<lambda>next_handler req w.
     (case next_handler req w of
        (ls, w1, None) \<Rightarrow> (ls, w1, None)
      | (ls, w1, Some rvr) \<Rightarrow>
          (let l = (if rq_hasEntry req then RPanicRecovered rvr else RStderrPanic rvr);
               (ls2, w2, p) = run_HandleError depth (Some (of_HTTPError (httpError 500 InternalServerErrorText))) req w1
           in (ls @ [l] @ ls2, w2, p))))"

text \<open>A handler that returns an error.\<close>

type_synonym error_handler = "request \<Rightarrow> response \<Rightarrow> router_log list \<times> response \<times> go_error option go"

definition HandlerErrorFunc_ServeHTTP :: "nat \<Rightarrow> error_handler \<Rightarrow> handler" where
  "HandlerErrorFunc_ServeHTTP depth fn req w =
     (case fn req w of
        (ls, w1, Panic m) \<Rightarrow> (ls, w1, Some m)
      | (ls, w1, Ret None) \<Rightarrow> (ls, w1, None)
      | (ls, w1, Ret (Some err)) \<Rightarrow>
          (let (ls2, w2, p) = run_HandleError depth (Some err) req w1 in (ls @ ls2, w2, p)))"

definition Healthcheck :: handler where
  "Healthcheck req w = (case WriteHeader 200 w of Ret w' \<Rightarrow> ([], w', None) | Panic m \<Rightarrow> ([], w, Some m))"

section \<open>Request logging\<close>

definition NewLogEntry :: "request \<Rightarrow> (string \<times> string) list" where
  "NewLogEntry req =
     (let scheme = (if rq_TLS req then ''https'' else ''http'') in
      [(''component'', ''api''), (''method'', rq_Method req), (''path'', rq_Path req), (''http.scheme'', scheme),
       (''http.proto'', rq_Proto req), (''http.method'', rq_Method req), (''remote_addr'', rq_RemoteAddr req),
       (''user_agent'', rq_UserAgent req), (''uri'', scheme @ ''://'' @ rq_Host req @ rq_RequestURI req)]
      @ (if rq_reqID req \<noteq> [] then [(''req.id'', rq_reqID req)] else []))"

text \<open>\<open>Write\<close> of the entry: the status and the length of the body are added and the end is logged.\<close>

definition entry_Write :: "response \<Rightarrow> router_log" where
  "entry_Write w = RComplete (rw_status w) (length (rw_body w))"

definition NewStructuredLogger ::
  "((request \<Rightarrow> router_log) \<Rightarrow> (response \<Rightarrow> router_log) \<Rightarrow> Middleware) \<Rightarrow> Middleware" where
  "NewStructuredLogger requestLogger = requestLogger (\<lambda>req. RStarted (NewLogEntry req)) entry_Write"

text \<open>
  The entry of a request keeps the attributes of its logger; a panic and an error add theirs, and what is logged through the
  entry afterwards carries them.
\<close>

record StructuredLoggerEntry =
  le_attrs :: "(string \<times> string) list"

definition entry_Panic :: "string \<Rightarrow> string \<Rightarrow> StructuredLoggerEntry \<Rightarrow> StructuredLoggerEntry" where
  "entry_Panic v stack l = l\<lparr>le_attrs := le_attrs l @ [(''stack'', stack), (''panic'', v)]\<rparr>"

definition entry_WithError :: "go_error \<Rightarrow> StructuredLoggerEntry \<Rightarrow> StructuredLoggerEntry" where
  "entry_WithError err l = l\<lparr>le_attrs := le_attrs l @ [(''error'', error_text err)]\<rparr>"

definition GetLogEntry :: "request \<Rightarrow> bool" where
  "GetLogEntry req = rq_hasEntry req"

section \<open>The router\<close>

record 'chi chi_api =
  chi_NewRouter :: 'chi
  chi_Use :: "'chi \<Rightarrow> Middleware \<Rightarrow> 'chi"
  chi_With :: "'chi \<Rightarrow> Middleware \<Rightarrow> 'chi"
  chi_Method :: "'chi \<Rightarrow> string \<Rightarrow> string \<Rightarrow> handler \<Rightarrow> 'chi"
  chi_Mount :: "'chi \<Rightarrow> string \<Rightarrow> handler \<Rightarrow> 'chi"
  chi_Route :: "'chi \<Rightarrow> string \<Rightarrow> ('chi \<Rightarrow> 'chi) \<Rightarrow> 'chi"
  chi_Group :: "'chi \<Rightarrow> ('chi \<Rightarrow> 'chi) \<Rightarrow> 'chi"
  chi_ServeHTTP :: "'chi \<Rightarrow> handler"

record 'chi chiRouter =
  cr_chi :: 'chi

type_synonym 'chi router_option = "'chi chiRouter \<Rightarrow> 'chi chiRouter"

definition Router_Use :: "'chi chi_api \<Rightarrow> Middleware \<Rightarrow> 'chi chiRouter \<Rightarrow> 'chi chiRouter" where
  "Router_Use api fn r = r\<lparr>cr_chi := chi_Use api (cr_chi r) fn\<rparr>"

text \<open>\<open>With\<close> replaces the router inside its receiver and returns the receiver.\<close>

definition Router_With :: "'chi chi_api \<Rightarrow> Middleware \<Rightarrow> 'chi chiRouter \<Rightarrow> 'chi chiRouter" where
  "Router_With api fn r = r\<lparr>cr_chi := chi_With api (cr_chi r) fn\<rparr>"

definition Router_Method :: "'chi chi_api \<Rightarrow> string \<Rightarrow> string \<Rightarrow> handler \<Rightarrow> 'chi chiRouter \<Rightarrow> 'chi chiRouter" where
  "Router_Method api meth pattern h r = r\<lparr>cr_chi := chi_Method api (cr_chi r) meth pattern h\<rparr>"

definition Router_Get :: "'chi chi_api \<Rightarrow> string \<Rightarrow> handler \<Rightarrow> 'chi chiRouter \<Rightarrow> 'chi chiRouter" where
  "Router_Get api pattern h r = r\<lparr>cr_chi := chi_Method api (cr_chi r) ''GET'' pattern h\<rparr>"

definition Router_Post :: "'chi chi_api \<Rightarrow> string \<Rightarrow> handler \<Rightarrow> 'chi chiRouter \<Rightarrow> 'chi chiRouter" where
  "Router_Post api pattern h r = r\<lparr>cr_chi := chi_Method api (cr_chi r) ''POST'' pattern h\<rparr>"

definition Router_Put :: "'chi chi_api \<Rightarrow> string \<Rightarrow> handler \<Rightarrow> 'chi chiRouter \<Rightarrow> 'chi chiRouter" where
  "Router_Put api pattern h r = r\<lparr>cr_chi := chi_Method api (cr_chi r) ''PUT'' pattern h\<rparr>"

definition Router_Delete :: "'chi chi_api \<Rightarrow> string \<Rightarrow> handler \<Rightarrow> 'chi chiRouter \<Rightarrow> 'chi chiRouter" where
  "Router_Delete api pattern h r = r\<lparr>cr_chi := chi_Method api (cr_chi r) ''DELETE'' pattern h\<rparr>"

definition Router_Mount :: "'chi chi_api \<Rightarrow> string \<Rightarrow> handler \<Rightarrow> 'chi chiRouter \<Rightarrow> 'chi chiRouter" where
  "Router_Mount api pattern h r = r\<lparr>cr_chi := chi_Mount api (cr_chi r) pattern h\<rparr>"

text \<open>
  \<open>Route\<close> and \<open>Group\<close> hand a copy of the wrapper around the sub-router to the callback, which returns it as it
  leaves it.
\<close>

definition Router_Route ::
  "'chi chi_api \<Rightarrow> string \<Rightarrow> ('chi chiRouter \<Rightarrow> 'chi chiRouter) \<Rightarrow> 'chi chiRouter \<Rightarrow> 'chi chiRouter" where
  "Router_Route api pattern fn r = r\<lparr>cr_chi := chi_Route api (cr_chi r) pattern (\<lambda>c. cr_chi (fn (r\<lparr>cr_chi := c\<rparr>)))\<rparr>"

definition Router_Group :: "'chi chi_api \<Rightarrow> ('chi chiRouter \<Rightarrow> 'chi chiRouter) \<Rightarrow> 'chi chiRouter \<Rightarrow> 'chi chiRouter" where
  "Router_Group api fn r = r\<lparr>cr_chi := chi_Group api (cr_chi r) (\<lambda>c. cr_chi (fn (r\<lparr>cr_chi := c\<rparr>)))\<rparr>"

definition Router_ServeHTTP :: "'chi chi_api \<Rightarrow> 'chi chiRouter \<Rightarrow> handler" where
  "Router_ServeHTTP api r = chi_ServeHTTP api (cr_chi r)"

text \<open>The middlewares of other packages that the options install.\<close>

record 'opts foreign =
  fm_cors :: "'opts \<Rightarrow> Middleware"
  fm_RequestID :: Middleware
  fm_RealIP :: Middleware
  fm_RequestLogger :: "(request \<Rightarrow> router_log) \<Rightarrow> (response \<Rightarrow> router_log) \<Rightarrow> Middleware"

definition WithCors :: "'chi chi_api \<Rightarrow> 'opts foreign \<Rightarrow> 'opts \<Rightarrow> 'chi router_option" where
  "WithCors api fm opts = Router_Use api (fm_cors fm opts)"

definition WithHealthcheck :: "'chi chi_api \<Rightarrow> string \<Rightarrow> handler option \<Rightarrow> 'chi router_option" where
  "WithHealthcheck api path h = Router_Get api path (case h of None \<Rightarrow> Healthcheck | Some h \<Rightarrow> h)"

definition WithRecoverer :: "'chi chi_api \<Rightarrow> nat \<Rightarrow> 'chi router_option" where
  "WithRecoverer api depth = Router_Use api (Recoverer depth)"

definition WithRequestID :: "'chi chi_api \<Rightarrow> 'opts foreign \<Rightarrow> 'chi router_option" where
  "WithRequestID api fm = Router_Use api (fm_RequestID fm)"

definition WithRealIP :: "'chi chi_api \<Rightarrow> 'opts foreign \<Rightarrow> 'chi router_option" where
  "WithRealIP api fm = Router_Use api (fm_RealIP fm)"

definition WithLogger :: "'chi chi_api \<Rightarrow> 'opts foreign \<Rightarrow> 'chi router_option" where
  "WithLogger api fm = Router_Use api (NewStructuredLogger (fm_RequestLogger fm))"

definition New_Router :: "'chi chi_api \<Rightarrow> 'chi router_option list \<Rightarrow> 'chi chiRouter" where
  "New_Router api options = fold (\<lambda>opt r. opt r) options \<lparr>cr_chi = chi_NewRouter api\<rparr>"

definition NewDefaultRouter :: "'chi chi_api \<Rightarrow> 'opts foreign \<Rightarrow> 'opts \<Rightarrow> nat \<Rightarrow> 'chi chiRouter" where
  "NewDefaultRouter api fm defaultCorsOptions depth =
     New_Router api [WithRequestID api fm, WithRealIP api fm, WithRecoverer api depth, WithLogger api fm,
       WithCors api fm defaultCorsOptions, WithHealthcheck api ''/health'' None]"

section \<open>What is documented of the other packages\<close>

text \<open>
  chi: a router has middlewares, outermost first, and routes with their methods; \<open>Use\<close> is called before
  routes are added; a request for a registered route runs its latest handler inside the middlewares.
\<close>

type_synonym mux = "Middleware list \<times> ((string \<times> string) \<times> handler) list"

definition chi_documented :: "'chi chi_api \<Rightarrow> ('chi \<Rightarrow> mux) \<Rightarrow> bool" where
  "chi_documented api view \<longleftrightarrow>
     view (chi_NewRouter api) = ([], [])
   \<and> (\<forall>c m ms. view c = (ms, []) \<longrightarrow> view (chi_Use api c m) = (ms @ [m], []))
   \<and> (\<forall>c meth p h ms rs. view c = (ms, rs) \<longrightarrow> view (chi_Method api c meth p h) = (ms, ((meth, p), h) # rs))
   \<and> (\<forall>c ms rs h req w. view c = (ms, rs) \<longrightarrow> map_of rs (rq_Method req, rq_Path req) = Some h
        \<longrightarrow> chi_ServeHTTP api c req w = foldr (\<lambda>m h. m h) ms h req w)"

text \<open>The request logger logs the start, runs the rest with an entry in the context, and logs the end in any case.\<close>

definition logs_requests :: "((request \<Rightarrow> router_log) \<Rightarrow> (response \<Rightarrow> router_log) \<Rightarrow> Middleware) \<Rightarrow> bool" where
  "logs_requests rl \<longleftrightarrow> (\<forall>start complete next_handler req w.
     rl start complete next_handler req w =
       (case next_handler (req\<lparr>rq_hasEntry := True\<rparr>) w of
          (ls, w1, p) \<Rightarrow> (start req # ls @ [complete w1], w1, p)))"

text \<open>A middleware that passes the request on, perhaps with another id or address.\<close>

definition passes_on :: "Middleware \<Rightarrow> (request \<Rightarrow> request) \<Rightarrow> bool" where
  "passes_on m f \<longleftrightarrow> (\<forall>next_handler req w. m next_handler req w = next_handler (f req) w)
     \<and> (\<forall>req. rq_hasEntry (f req) = rq_hasEntry req \<and> rq_Method (f req) = rq_Method req \<and> rq_Path (f req) = rq_Path req)"

text \<open>
  The cors middleware: a preflight, which is an OPTIONS request, it answers itself with status 200; any other request it passes on.
  Both get its headers on the response.
\<close>

definition cors_documented :: "(request \<Rightarrow> bool) \<Rightarrow> (request \<Rightarrow> (string \<times> string) list) \<Rightarrow> Middleware \<Rightarrow> bool" where
  "cors_documented preflight headers m \<longleftrightarrow>
     (\<forall>req. preflight req \<longrightarrow> rq_Method req = ''OPTIONS'')
   \<and> (\<forall>next_handler req w. m next_handler req w =
        (let w1 = w\<lparr>rw_Header := rw_Header w @ headers req\<rparr> in
         if preflight req
         then (case WriteHeader 200 w1 of Ret w2 \<Rightarrow> ([], w2, None) | Panic e \<Rightarrow> ([], w1, Some e))
         else next_handler req w1))"

text \<open>
  chi's inline routers: \<open>With\<close> gives a router that shares the routes and wraps the handlers added through it in one more
  middleware; \<open>Group\<close> hands such a router to the callback and keeps the routes it adds. The second component of the view holds the
  inline middlewares.
\<close>

definition chi_inline :: "'chi chi_api \<Rightarrow> ('chi \<Rightarrow> Middleware list \<times> Middleware list \<times> ((string \<times> string) \<times> handler) list) \<Rightarrow> bool" where
  "chi_inline api view \<longleftrightarrow>
     (\<forall>c m ms is rs. view c = (ms, is, rs) \<longrightarrow> view (chi_With api c m) = (ms, is @ [m], rs))
   \<and> (\<forall>c meth p h ms is rs. view c = (ms, is, rs) \<longrightarrow>
        view (chi_Method api c meth p h) = (ms, is, ((meth, p), foldr (\<lambda>m h. m h) is h) # rs))
   \<and> (\<forall>c f ms is rs ms' is' rs'. view c = (ms, is, rs) \<longrightarrow> view (f c) = (ms', is', rs') \<longrightarrow> view (chi_Group api c f) = (ms, is, rs'))"

section \<open>Properties\<close>

text \<open>
  \<open>With\<close> is not limited to one endpoint: the middleware also wraps what is added to the same router afterwards. Inside a
  \<open>Group\<close> it is limited to the group.
\<close>

theorem with_leaks_unless_grouped:
  assumes "chi_inline api view" and "view (cr_chi r) = (ms, [], rs)"
  shows "view (cr_chi (Router_Get api p2 h2 (Router_Get api p1 h1 (Router_With api m r))))
      = (ms, [m], ((''GET'', p2), m h2) # ((''GET'', p1), m h1) # rs)
    \<and> view (cr_chi (Router_Get api p2 h2 (Router_Group api (\<lambda>w. Router_Get api p1 h1 (Router_With api m w)) r)))
      = (ms, [], ((''GET'', p2), h2) # ((''GET'', p1), m h1) # rs)"
proof -
  have chi: "view (chi_With api c m) = (ms, is @ [m], rs)"
    "view (chi_Method api c meth p h) = (ms, is, ((meth, p), foldr (\<lambda>m h. m h) is h) # rs)" if "view c = (ms, is, rs)"
    for c m ms "is" rs meth p h
    using assms(1) that unfolding chi_inline_def by blast+
  have group: "view (chi_Group api c f) = (ms, is, rs')" if "view c = (ms, is, rs)" "view (f c) = (ms', is', rs')"
    for c f ms "is" rs ms' is' rs'
    using assms(1) that unfolding chi_inline_def by blast
  have "view (cr_chi (Router_Group api (\<lambda>w. Router_Get api p1 h1 (Router_With api m w)) r)) = (ms, [], ((''GET'', p1), m h1) # rs)"
    unfolding Router_Group_def Router_Get_def Router_With_def
    by (simp, rule group [OF assms(2)]) (simp add: chi [OF chi(1) [OF assms(2)]])
  then show ?thesis
    by (simp add: Router_Get_def Router_With_def chi [OF chi(2) [OF chi(1) [OF assms(2)]]] chi(2))
qed

lemma default_router_view:
  assumes "chi_documented api view"
  shows "view (cr_chi (Router_Method api meth p h (NewDefaultRouter api fm opts depth)))
    = ([fm_RequestID fm, fm_RealIP fm, Recoverer depth, NewStructuredLogger (fm_RequestLogger fm), fm_cors fm opts],
       [((meth, p), h), ((''GET'', ''/health''), Healthcheck)])"
  using assms
  by (simp add: chi_documented_def NewDefaultRouter_def New_Router_def WithRequestID_def WithRealIP_def
      WithRecoverer_def WithLogger_def WithCors_def WithHealthcheck_def Router_Use_def Router_Get_def Router_Method_def)

text \<open>
  The answer to a recovered panic: status 500, unless the handler had sent a header, which then stays. An error of the connection ends
  it, as long as that is no HTTP error.
\<close>

lemma internal_error_answered:
  assumes "\<forall>e. rw_writeErr w = Some e \<longrightarrow> errors_As as_http e = None"
  shows "\<exists>ls w'. run_HandleError 2 (Some (of_HTTPError (httpError 500 InternalServerErrorText))) req w = (ls, w', None)
    \<and> rw_status w' = Some (case rw_status w of None \<Rightarrow> 500 | Some c \<Rightarrow> c)"
proof -
  let ?err = "of_HTTPError (httpError 500 InternalServerErrorText)"
  obtain e l where e: "log_HTTPError (rq_reqID req) (httpError 500 InternalServerErrorText) = (e, l)" by fastforce
  have code: "he_Code e = 500" using log_HTTPError_public [OF e] by (simp add: httpError_def)
  have as: "errors_As as_http ?err = Some (httpError 500 InternalServerErrorText)" by (simp add: of_HTTPError_def httpError_def)
  define c where "c = (case rw_status w of None \<Rightarrow> 500 | Some c \<Rightarrow> c)"
  have fc: "final_code w (he_Code e) = c" by (simp add: final_code_def c_def code split: option.splits)
  obtain w1 where w1: "rw_status w1 = Some c" "SendJSON w (he_Code e) (HTTPError_Error e) (Inr (marshal_HTTPError e))
      = Ret (if body_allowed c then rw_writeErr w else Some ErrBodyNotAllowed, w1)"
    by (rule send_json_ok [of w "he_Code e" "HTTPError_Error e" "marshal_HTTPError e"]) (simp_all add: code_ok_def code fc [unfolded code])
  define r where "r = (if body_allowed c then rw_writeErr w else Some ErrBodyNotAllowed)"
  have unfold: "http_HandleError 2 (Some ?err) (rq_reqID req) w = (case r of
        None \<Rightarrow> Ret (Some ([l], w1))
      | Some err1 \<Rightarrow> go_bind (http_HandleError (Suc 0) (Some err1) (rq_reqID req) w1) (\<lambda>x. Ret (map_option (\<lambda>(ls, w2). (l # ls, w2)) x)))"
    using as e w1(2) by (subst http_HandleError.simps) (simp add: numeral_2_eq_2 r_def)
  have other: "\<exists>ls w2. http_HandleError (Suc 0) (Some err1) (rq_reqID req) w1 = Ret (Some (ls, w2)) \<and> rw_status w2 = Some c"
    if "errors_As as_http err1 = None" for err1
    using that w1(1)
    by (subst http_HandleError.simps)
      (auto simp: handle_other_def WriteHeader_def rw_Write_def Let_def split: option.splits)
  show ?thesis
  proof (cases r)
    case None
    with unfold w1(1) show ?thesis by (simp add: run_HandleError_def c_def)
  next
    case (Some err1)
    then have "errors_As as_http err1 = None" using assms by (auto simp: r_def split: if_splits)
    from other [OF this] Some unfold show ?thesis by (auto simp: run_HandleError_def c_def)
  qed
qed

lemma handler_in_chain:
  assumes "passes_on m1 f1" "passes_on m2 f2" "cors_documented preflight headers m3" and "logs_requests rl"
    and "req' = (f2 (f1 req))\<lparr>rq_hasEntry := True\<rparr>" and "\<not> preflight req'"
    and "h req' (w\<lparr>rw_Header := rw_Header w @ headers req'\<rparr>) = (ls, w1, Some v)"
  shows "foldr (\<lambda>m h. m h) [m1, m2, Recoverer depth, NewStructuredLogger rl, m3] h req w
    = (let (ls2, w2, p) = run_HandleError depth (Some (of_HTTPError (httpError 500 InternalServerErrorText))) (f2 (f1 req)) w1;
           l = (if rq_hasEntry (f2 (f1 req)) then RPanicRecovered v else RStderrPanic v)
       in (RStarted (NewLogEntry (f2 (f1 req))) # ls @ [entry_Write w1] @ [l] @ ls2, w2, p))"
  using assms
  by (simp add: passes_on_def cors_documented_def logs_requests_def NewStructuredLogger_def Recoverer_def MiddlewareFunc_def Let_def
      split: prod.split)

text \<open>
  C33. Behind the default router no panic of a handler escapes, for a request that is not a preflight, which the cors middleware answers
  itself. The request is answered with status 500 when the handler had not sent a header before it panicked, and else keeps the
  status it was sent; the further conditions are that a broken connection does not fail with an HTTP error and that the request comes without a log entry. The log entry of the request
  is never used for it, since the recovering middleware is outside the logging one: the panic is only printed to the standard
  error stream.
\<close>

theorem default_router_recovers:
  assumes "chi_documented api view"
    and "passes_on (fm_RequestID fm) f1" and "passes_on (fm_RealIP fm) f2"
    and "cors_documented preflight headers (fm_cors fm opts)" and "logs_requests (fm_RequestLogger fm)"
    and "req' = (f2 (f1 req))\<lparr>rq_hasEntry := True\<rparr>" and "\<not> preflight req'"
    and "h req' (w\<lparr>rw_Header := rw_Header w @ headers req'\<rparr>) = (ls, w1, Some v)"
    and "\<forall>e. rw_writeErr w1 = Some e \<longrightarrow> errors_As as_http e = None" and "\<not> rq_hasEntry req"
  shows "\<exists>logs w'. Router_ServeHTTP api
      (Router_Method api (rq_Method req) (rq_Path req) h (NewDefaultRouter api fm opts 2)) req w = (logs, w', None)
    \<and> rw_status w' = Some (case rw_status w1 of None \<Rightarrow> 500 | Some c \<Rightarrow> c)
    \<and> RStderrPanic v \<in> set logs"
proof -
  define r where "r = Router_Method api (rq_Method req) (rq_Path req) h (NewDefaultRouter api fm opts 2)"
  have view: "view (cr_chi r) =
      ([fm_RequestID fm, fm_RealIP fm, Recoverer 2, NewStructuredLogger (fm_RequestLogger fm), fm_cors fm opts],
       [((rq_Method req, rq_Path req), h), ((''GET'', ''/health''), Healthcheck)])"
    using default_router_view [OF assms(1)] by (simp add: r_def)
  have serve: "Router_ServeHTTP api r req w
      = foldr (\<lambda>m h. m h) (fst (view (cr_chi r))) h req w"
    using assms(1) view unfolding chi_documented_def Router_ServeHTTP_def by simp
  have entry: "\<not> rq_hasEntry (f2 (f1 req))"
    using assms(2,3,10) by (simp add: passes_on_def)
  obtain ls2 w2 where "run_HandleError 2 (Some (of_HTTPError (httpError 500 InternalServerErrorText))) (f2 (f1 req)) w1
      = (ls2, w2, None)" "rw_status w2 = Some (case rw_status w1 of None \<Rightarrow> 500 | Some c \<Rightarrow> c)"
    using internal_error_answered [OF assms(9)] by blast
  then show ?thesis
    using serve view entry handler_in_chain [where h = h and req = req and w = w, OF assms(2-8)] by (simp add: r_def [symmetric])
qed

text \<open>A router for examples: its middlewares and routes as they are.\<close>

definition example_chi :: "mux chi_api" where
  "example_chi = \<lparr>chi_NewRouter = ([], []), chi_Use = (\<lambda>(ms, rs) m. (ms @ [m], rs)), chi_With = (\<lambda>(ms, rs) m. (ms @ [m], rs)),
     chi_Method = (\<lambda>(ms, rs) meth p h. (ms, ((meth, p), h) # rs)), chi_Mount = (\<lambda>c _ _. c), chi_Route = (\<lambda>c _ _. c), chi_Group = (\<lambda>c f. f c),
     chi_ServeHTTP = (\<lambda>(ms, rs) req w. case map_of rs (rq_Method req, rq_Path req) of
        Some h \<Rightarrow> foldr (\<lambda>m h. m h) ms h req w | None \<Rightarrow> ([], w, None))\<rparr>"

definition example_foreign :: "unit foreign" where
  "example_foreign = \<lparr>fm_cors = (\<lambda>_ h req w. let w1 = w\<lparr>rw_Header := rw_Header w @ [(''Vary'', ''Origin'')]\<rparr> in
       if rq_Method req = ''OPTIONS'' then (case WriteHeader 200 w1 of Ret w2 \<Rightarrow> ([], w2, None) | Panic e \<Rightarrow> ([], w1, Some e)) else h req w1),
      fm_RequestID = (\<lambda>h req. h (req\<lparr>rq_reqID := ''r1''\<rparr>)), fm_RealIP = (\<lambda>h. h),
     fm_RequestLogger = (\<lambda>start complete h req w. case h (req\<lparr>rq_hasEntry := True\<rparr>) w of
        (ls, w1, p) \<Rightarrow> (start req # ls @ [complete w1], w1, p))\<rparr>"

definition example_request :: request where
  "example_request = \<lparr>rq_Method = ''GET'', rq_Path = ''/x'', rq_TLS = False, rq_Proto = ''HTTP/1.1'', rq_RemoteAddr = [],
     rq_UserAgent = [], rq_Host = ''h'', rq_RequestURI = ''/x'', rq_reqID = [], rq_hasEntry = False\<rparr>"

theorem default_router_recovers_witness:
  "\<exists>logs w'. Router_ServeHTTP example_chi
      (Router_Method example_chi ''GET'' ''/x'' (\<lambda>_ w. ([], w, Some ''boom'')) (NewDefaultRouter example_chi example_foreign () 2))
      example_request fresh_response = (logs, w', None) \<and> rw_status w' = Some 500 \<and> RStderrPanic ''boom'' \<in> set logs"
proof -
  have chi: "chi_documented example_chi (\<lambda>c. c)"
    by (simp add: chi_documented_def example_chi_def)
  have foreign: "passes_on (fm_RequestID example_foreign) (\<lambda>req. req\<lparr>rq_reqID := ''r1''\<rparr>)"
    "passes_on (fm_RealIP example_foreign) id"
    "cors_documented (\<lambda>req. rq_Method req = ''OPTIONS'') (\<lambda>_. [(''Vary'', ''Origin'')]) (fm_cors example_foreign ())"
    "logs_requests (fm_RequestLogger example_foreign)"
    by (simp_all add: passes_on_def example_foreign_def logs_requests_def cors_documented_def)
  show ?thesis
    using default_router_recovers [OF chi foreign refl, of example_request "\<lambda>_ w. ([], w, Some ''boom'')" fresh_response "[]"
        "fresh_response\<lparr>rw_Header := [(''Vary'', ''Origin'')]\<rparr>" "''boom''"]
    by (simp add: example_request_def fresh_response_def)
qed

end
