(* ===== verification/Smartbear.thy ===== *)
theory Smartbear
  imports Http_Error
begin

text \<open>
  Problem details for OpenAPI services (\<^verbatim>\<open>src/smartbear\<close>): the classification of errors into
  problem responses and their JSON form. The concrete error types of the standard library, of the
  validator and of the OpenAPI filter are told apart by selectors on error values, parameters of the
  handler; the searches through wrapped errors are those of \<open>errors.As\<close>.
\<close>

section \<open>Problem details\<close>

record ProblemErrorDetail =
  ped_Code :: "string option"
  ped_Detail :: string
  ped_Header :: "string option"
  ped_Parameter :: "string option"
  ped_Pointer :: "string option"

definition zero_detail :: ProblemErrorDetail where
  "zero_detail = \<lparr>ped_Code = None, ped_Detail = [], ped_Header = None, ped_Parameter = None, ped_Pointer = None\<rparr>"

record ProblemDetails =
  pd_Code :: "string option"
  pd_Detail :: "string option"
  pd_Errors :: "ProblemErrorDetail list option"
  pd_Instance :: "string option"
  pd_Status :: "32 word"
  pd_Title :: string
  pd_Type :: "string option"

definition problem :: "string \<Rightarrow> 32 word \<Rightarrow> ProblemDetails" where
  "problem title status = \<lparr>pd_Code = None, pd_Detail = None, pd_Errors = None, pd_Instance = None,
     pd_Status = status, pd_Title = title, pd_Type = None\<rparr>"

text \<open>Fields with \<open>omitempty\<close> are left out when nil.\<close>

fun opt_field :: "string \<Rightarrow> string option \<Rightarrow> (string \<times> string) list" where
  "opt_field k None = []"
| "opt_field k (Some v) = [(k, json_string v)]"

definition marshal_detail :: "ProblemErrorDetail \<Rightarrow> string" where
  "marshal_detail d = json_object (opt_field ''code'' (ped_Code d) @ [(''detail'', json_string (ped_Detail d))]
     @ opt_field ''header'' (ped_Header d) @ opt_field ''parameter'' (ped_Parameter d) @ opt_field ''pointer'' (ped_Pointer d))"

definition marshal_problem :: "ProblemDetails \<Rightarrow> string" where
  "marshal_problem p = json_object (opt_field ''code'' (pd_Code p) @ opt_field ''detail'' (pd_Detail p)
     @ (case pd_Errors p of None \<Rightarrow> [] | Some ds \<Rightarrow> [(''errors'', json_array (map marshal_detail ds))])
     @ opt_field ''instance'' (pd_Instance p) @ [(''status'', dec_int (sint (pd_Status p)))]
     @ [(''title'', json_string (pd_Title p))] @ opt_field ''type'' (pd_Type p))"

text \<open>\<open>http.StatusText\<close> on the codes that occur; it is empty for a code that is not registered.\<close>

definition StatusText :: "int \<Rightarrow> string" where
  "StatusText code = (case map_of
     [(400, ''Bad Request''), (401, ''Unauthorized''), (404, ''Not Found''), (409, ''Conflict''),
      (422, ''Unprocessable Entity''), (500, ''Internal Server Error'')] code of Some t \<Rightarrow> t | None \<Rightarrow> [])"

abbreviation InvalidInput :: string where "InvalidInput \<equiv> ''INVALID_INPUT''"
abbreviation ValidationFailed :: string where "ValidationFailed \<equiv> ''VALIDATION_FAILED''"

definition newValidationErrorProblemDetails :: "ProblemErrorDetail list \<Rightarrow> ProblemDetails" where
  "newValidationErrorProblemDetails errs = (problem (StatusText 400) 400)
     \<lparr>pd_Code := Some ValidationFailed, pd_Detail := Some ''Request validation failed'', pd_Errors := Some errs\<rparr>"

section \<open>Classification\<close>

record request_error =
  re_Parameter :: "string option"
  re_Reason :: string
  re_Err :: "go_error option"

text \<open>
  The selectors: the value of a \<open>*time.ParseError\<close>, whether an error is one of the three errors of
  \<open>encoding/json\<close>, a request error of the filter, the fields of validation errors, the list of a
  multi-error, and the reason and pointer of a schema error.
\<close>

record error_types =
  et_time :: "go_error \<Rightarrow> string option"
  et_jsonSyntax :: "go_error \<Rightarrow> unit option"
  et_jsonUnmarshal :: "go_error \<Rightarrow> unit option"
  et_jsonInvalid :: "go_error \<Rightarrow> unit option"
  et_request :: "go_error \<Rightarrow> request_error option"
  et_validation :: "go_error \<Rightarrow> string list option"
  et_multi :: "go_error \<Rightarrow> go_error list option"
  et_schema :: "go_error \<Rightarrow> (string \<times> string list) option"

definition isJSONError :: "error_types \<Rightarrow> go_error \<Rightarrow> bool" where
  "isJSONError et err \<longleftrightarrow> errors_As (et_jsonSyntax et) err \<noteq> None \<or> errors_As (et_jsonUnmarshal et) err \<noteq> None
     \<or> errors_As (et_jsonInvalid et) err \<noteq> None"

fun strings_Join :: "string list \<Rightarrow> string \<Rightarrow> string" where
  "strings_Join [] sep = []"
| "strings_Join [x] sep = x"
| "strings_Join (x # y # xs) sep = x @ sep @ strings_Join (y # xs) sep"

definition schema_detail :: "error_types \<Rightarrow> go_error \<Rightarrow> ProblemErrorDetail" where
  "schema_detail et e =
     (case errors_As (et_schema et) e of
        None \<Rightarrow> zero_detail
      | Some (reason, pointer) \<Rightarrow>
          zero_detail\<lparr>ped_Code := Some InvalidInput, ped_Detail := reason, ped_Pointer := Some (strings_Join pointer ''/'')\<rparr>)"

definition handleOpenAPI3Err :: "error_types \<Rightarrow> request_error \<Rightarrow> ProblemDetails option" where
  "handleOpenAPI3Err et requestErr =
     (case re_Parameter requestErr of
        Some name \<Rightarrow> Some (newValidationErrorProblemDetails
          [zero_detail\<lparr>ped_Parameter := Some name, ped_Code := Some InvalidInput, ped_Detail := re_Reason requestErr\<rparr>])
      | None \<Rightarrow>
          (case Option.bind (re_Err requestErr) (errors_As (et_multi et)) of
             None \<Rightarrow> None
           | Some me \<Rightarrow> Some (newValidationErrorProblemDetails (map (schema_detail et) me))))"

definition internal_problem :: ProblemDetails where
  "internal_problem = problem ''Internal Server Error'' 500"

definition app_problem :: "Error \<Rightarrow> ProblemDetails" where
  "app_problem e = (problem (StatusText (HTTPStatus (Type e))) (HTTPStatusInt32Ptr (Type e)))
     \<lparr>pd_Code := Some (Code e), pd_Detail := Some (Message e),
      pd_Errors := Some (map (\<lambda>d. zero_detail\<lparr>ped_Code := Some (detail_Code d), ped_Detail := detail_Message d\<rparr>) (ErrorDetails e))\<rparr>"

definition problem_of :: "error_types \<Rightarrow> go_error \<Rightarrow> ProblemDetails" where
  "problem_of et targetErr =
     (case errors_As (et_time et) targetErr of
        Some val \<Rightarrow> (problem (StatusText 400) 400)
          \<lparr>pd_Code := Some ValidationFailed, pd_Detail := Some ''Invalid date'',
           pd_Errors := Some [zero_detail\<lparr>ped_Code := Some InvalidInput, ped_Detail := ''invalid date'', ped_Pointer := Some val\<rparr>]\<rparr>
      | None \<Rightarrow>
     if isJSONError et targetErr then (problem (StatusText 400) 400)
          \<lparr>pd_Code := Some ValidationFailed, pd_Detail := Some ''Invalid JSON'',
           pd_Errors := Some [zero_detail\<lparr>ped_Code := Some InvalidInput, ped_Detail := ''JSON error: '' @ error_text targetErr\<rparr>]\<rparr>
     else (case errors_As (et_request et) targetErr of
        Some requestError \<Rightarrow>
          (case handleOpenAPI3Err et requestError of None \<Rightarrow> internal_problem | Some r \<Rightarrow> r)
      | None \<Rightarrow>
     (case errors_As (et_validation et) targetErr of
        Some vfields \<Rightarrow> newValidationErrorProblemDetails
          (map (\<lambda>f. zero_detail\<lparr>ped_Pointer := Some f, ped_Detail := ''Validation failed''\<rparr>) vfields)
      | None \<Rightarrow>
     (case As_Error targetErr of
        Some appError \<Rightarrow> app_problem appError
      | None \<Rightarrow> internal_problem))))"

section \<open>The handler\<close>

datatype problem_event = PLogInternal string | PReport go_error | PLogEncode string

definition WriteErrorResponse :: "error_types \<Rightarrow> response \<Rightarrow> go_error \<Rightarrow> (problem_event list \<times> response) go" where
  "WriteErrorResponse et w targetErr =
     (let p = problem_of et targetErr;
          evs = (if pd_Status p = 500 then [PLogInternal (error_text targetErr), PReport targetErr] else []);
          w1 = set_ContentType ''application/problem+json'' w
      in go_bind (WriteHeader (sint (pd_Status p)) w1) (\<lambda>w2.
           case rw_Write (marshal_problem p @ [CHR 0x0A]) w2 of
             (None, w3) \<Rightarrow> Ret (evs, w3)
           | (Some encodeErr, w3) \<Rightarrow> Ret (evs @ [PLogEncode (error_text encodeErr), PReport targetErr], w3)))"

text \<open>
  The validator of the OpenAPI filter: the router made from the specification without its servers, the option
  to collect errors, and the handler as its callback. A router that cannot be made panics.
\<close>

definition NewValidator ::
  "('sw \<Rightarrow> 'sw) \<Rightarrow> ('sw \<Rightarrow> 'router result)
   \<Rightarrow> ('router \<Rightarrow> bool \<Rightarrow> (response \<Rightarrow> go_error \<Rightarrow> (problem_event list \<times> response) go) \<Rightarrow> 'validator)
   \<Rightarrow> error_types \<Rightarrow> 'sw \<Rightarrow> 'validator go" where
  "NewValidator clear_servers newRouter newFilter et swagger =
     (case newRouter (clear_servers swagger) of
        Inl err \<Rightarrow> Panic (error_text err)
      | Inr r \<Rightarrow> Ret (newFilter r True (WriteErrorResponse et)))"

section \<open>Lemmas\<close>

definition problem_codes :: "int set" where
  "problem_codes = {400, 401, 404, 409, 422, 500}"

definition app_declared :: "go_error \<Rightarrow> bool" where
  "app_declared err = (case As_Error err of None \<Rightarrow> True | Some e \<Rightarrow> Type e \<in> set declared_types)"

lemma problem_status [simp]: "pd_Status (problem t s) = s"
  "pd_Status (newValidationErrorProblemDetails ds) = 400"
  "pd_Status internal_problem = 500"
  "pd_Status (app_problem e) = HTTPStatusInt32Ptr (Type e)"
  by (simp_all add: problem_def newValidationErrorProblemDetails_def internal_problem_def app_problem_def)

lemma open_api_status: "handleOpenAPI3Err et re = Some p \<Longrightarrow> pd_Status p = 400"
  by (auto simp: handleOpenAPI3Err_def split: option.splits)

lemma status_word: "c \<in> problem_codes \<Longrightarrow> sint (word_of_int c :: 32 word) = c"
  by (auto simp: problem_codes_def)

lemma app_status:
  assumes "Type e \<in> set declared_types"
  shows "sint (pd_Status (app_problem e)) = HTTPStatus (Type e)" and "HTTPStatus (Type e) \<in> problem_codes"
proof -
  show c: "HTTPStatus (Type e) \<in> problem_codes"
    using HTTPStatus_declared [OF assms] by (auto simp: problem_codes_def)
  show "sint (pd_Status (app_problem e)) = HTTPStatus (Type e)"
    using status_word [OF c] by (simp add: HTTPStatusInt32Ptr_def)
qed

lemma problem_status_codes:
  assumes "app_declared err"
  shows "sint (pd_Status (problem_of et err)) \<in> problem_codes"
proof -
  have "sint (pd_Status (app_problem e)) \<in> problem_codes" if "As_Error err = Some e" for e
    using assms that app_status [of e] by (simp add: app_declared_def)
  then show ?thesis
    by (auto simp: problem_of_def problem_codes_def open_api_status split: option.split)
qed

lemma codes_writable: "c \<in> problem_codes \<Longrightarrow> 200 \<le> c \<and> c \<le> 999 \<and> body_allowed c"
  by (auto simp: problem_codes_def body_allowed_def)

text \<open>An application error that no earlier case of the classification claims.\<close>

definition only_app :: "error_types \<Rightarrow> go_error \<Rightarrow> Error \<Rightarrow> bool" where
  "only_app et err e \<longleftrightarrow> errors_As (et_time et) err = None \<and> \<not> isJSONError et err \<and> errors_As (et_request et) err = None
     \<and> errors_As (et_validation et) err = None \<and> As_Error err = Some e"

lemma problem_of_app: "only_app et err e \<Longrightarrow> problem_of et err = app_problem e"
  by (simp add: only_app_def problem_of_def)

lemma status_500: "(v :: 32 word) = 500 \<longleftrightarrow> sint v = 500"
  using signed_word_eqI [of v 500] by auto

lemma digit_one: "char_of (49 :: nat) = CHR ''1''"
  by code_simp

lemma write_header_minus_one: "rw_status w = None \<Longrightarrow> WriteHeader (-1) w = Panic ''invalid WriteHeader code -1''"
  by (simp add: WriteHeader_def dec_int_def dec_nat.simps digit_one)

text \<open>The whole answer to an error whose application type is declared.\<close>

lemma problem_written:
  assumes "rw_status w = None" and "rw_writeErr w = None" and "app_declared err"
    and "sint (pd_Status (problem_of et err)) = c"
  shows "WriteErrorResponse et w err =
    Ret (if c = 500 then [PLogInternal (error_text err), PReport err] else [],
         w\<lparr>rw_ContentType := Some ''application/problem+json'', rw_status := Some c,
           rw_body := rw_body w @ marshal_problem (problem_of et err) @ [CHR 0x0A]\<rparr>)"
proof -
  have "c \<in> problem_codes" using problem_status_codes [OF assms(3)] assms(4) by blast
  from codes_writable [OF this] show ?thesis
    using assms by (simp add: WriteErrorResponse_def status_500 WriteHeader_def rw_Write_def set_ContentType_def Let_def)
qed

section \<open>Properties\<close>

text \<open>
  C34. On a fresh, working writer every error whose application type is declared is answered: with a problem
  document as JSON, under one of the statuses 400, 401, 404, 409, 422 and 500, and it is reported exactly when
  the status is 500. An application error is answered with the status of its type, and with the same document
  whatever its internal message; one of an undeclared type makes the handler panic instead.
\<close>

theorem problem_response:
  assumes "rw_status w = None" and "rw_writeErr w = None"
  shows "(app_declared err \<longrightarrow> (\<exists>evs w' c. WriteErrorResponse et w err = Ret (evs, w')
            \<and> c \<in> problem_codes \<and> rw_status w' = Some c \<and> rw_ContentType w' = Some ''application/problem+json''
            \<and> rw_body w' = rw_body w @ marshal_problem (problem_of et err) @ [CHR 0x0A]
            \<and> (PReport err \<in> set evs \<longleftrightarrow> c = 500)
            \<and> (\<forall>e. only_app et err e \<longrightarrow> c = HTTPStatus (Type e))))
    \<and> (\<forall>e m. only_app et err e \<longrightarrow> marshal_problem (problem_of et err) = marshal_problem (app_problem (e\<lparr>InternalMessage := m\<rparr>)))
    \<and> (\<forall>e. only_app et err e \<longrightarrow> Type e \<notin> set declared_types \<longrightarrow>
         WriteErrorResponse et w err = Panic ''invalid WriteHeader code -1'')"
proof (intro conjI impI allI)
  assume decl: "app_declared err"
  define p where "p = problem_of et err"
  define c where "c = sint (pd_Status p)"
  have c: "c \<in> problem_codes" using problem_status_codes [OF decl] by (simp add: c_def p_def)
  let ?evs = "if c = 500 then [PLogInternal (error_text err), PReport err] else []"
  let ?w = "w\<lparr>rw_ContentType := Some ''application/problem+json'', rw_status := Some c,
      rw_body := rw_body w @ marshal_problem p @ [CHR 0x0A]\<rparr>"
  have "WriteErrorResponse et w err = Ret (?evs, ?w)"
    using problem_written [OF assms decl, of et c] by (simp add: p_def c_def)
  moreover have "c = HTTPStatus (Type e)" if "only_app et err e" for e
    using that decl app_status [of e] problem_of_app [OF that] by (simp add: c_def p_def app_declared_def only_app_def)
  ultimately show "\<exists>evs w' c. WriteErrorResponse et w err = Ret (evs, w')
            \<and> c \<in> problem_codes \<and> rw_status w' = Some c \<and> rw_ContentType w' = Some ''application/problem+json''
            \<and> rw_body w' = rw_body w @ marshal_problem (problem_of et err) @ [CHR 0x0A]
            \<and> (PReport err \<in> set evs \<longleftrightarrow> c = 500)
            \<and> (\<forall>e. only_app et err e \<longrightarrow> c = HTTPStatus (Type e))"
    by (intro exI [of _ ?evs] exI [of _ ?w] exI [of _ c]) (use c in \<open>auto simp: p_def\<close>)
next
  fix e m
  assume "only_app et err e"
  then show "marshal_problem (problem_of et err) = marshal_problem (app_problem (e\<lparr>InternalMessage := m\<rparr>))"
    by (simp add: problem_of_app app_problem_def)
next
  fix e
  assume app: "only_app et err e" and undeclared: "Type e \<notin> set declared_types"
  have "sint (pd_Status (problem_of et err)) = -1"
    using HTTPStatus_undeclared [OF undeclared] by (simp add: problem_of_app [OF app] HTTPStatusInt32Ptr_def)
  then show "WriteErrorResponse et w err = Panic ''invalid WriteHeader code -1''"
    using assms(1) by (simp add: WriteErrorResponse_def Let_def write_header_minus_one set_ContentType_def)
qed

text \<open>Selectors by type names, for examples.\<close>

definition example_types :: error_types where
  "example_types = \<lparr>et_time = (\<lambda>e. case e of ErrOther t v \<Rightarrow> if t = ''*time.ParseError'' then Some v else None | _ \<Rightarrow> None),
     et_jsonSyntax = (\<lambda>_. None), et_jsonUnmarshal = (\<lambda>_. None), et_jsonInvalid = (\<lambda>_. None),
     et_request = (\<lambda>_. None), et_validation = (\<lambda>_. None), et_multi = (\<lambda>_. None), et_schema = (\<lambda>_. None)\<rparr>"

definition example_app_error :: Error where
  "example_app_error = \<lparr>Type = ErrorTypeConflict, Code = ''DUPLICATE'', Message = ''taken'', InternalMessage = ''unique_violation'',
     ErrorDetails = []\<rparr>"

theorem problem_response_witness:
  "\<exists>evs w'. WriteErrorResponse example_types fresh_response (ErrWrap ''save'' (ErrApp example_app_error)) = Ret (evs, w')
     \<and> rw_status w' = Some 409"
proof -
  have app: "only_app example_types (ErrWrap ''save'' (ErrApp example_app_error)) example_app_error"
    by (simp add: only_app_def example_types_def isJSONError_def)
  have "app_declared (ErrWrap ''save'' (ErrApp example_app_error))"
    by (simp add: app_declared_def example_app_error_def declared_types_def)
  then show ?thesis
    using problem_response [of fresh_response "ErrWrap ''save'' (ErrApp example_app_error)" example_types] app
    by (auto simp: fresh_response_def example_app_error_def HTTPStatus_def)
qed

end
