(* ===== verification/Go_BigFloat.thy ===== *)
theory Go_BigFloat
  imports Complex_Main Go_BigInt
begin

text \<open>
  What the sources use of \<open>math/big.Float\<close>: the number scanner behind \<open>SetString\<close> (signs, base prefixes,
  separators, fractions, decimal and binary exponents, infinities), multiplication and division rounded to
  nearest even at a precision, conversion to an integer, and the fixed-point text. A finite value is a sign,
  a mantissa and a binary exponent.
\<close>

section \<open>Rounding\<close>

fun bitlen :: "nat \<Rightarrow> nat" where
  "bitlen n = (if n = 0 then 0 else Suc (bitlen (n div 2)))"

declare bitlen.simps [simp del]

text \<open>The quotient \<open>n / d\<close> rounded to the nearest natural number, ties to the even one.\<close>

definition half_even :: "nat \<Rightarrow> nat \<Rightarrow> nat" where
  "half_even n d =
     (let q = n div d; r = n mod d in if d < 2 * r \<or> 2 * r = d \<and> odd q then Suc q else q)"

text \<open>\<open>n / d\<close> divided by \<open>2\<^sup>e\<close>, as a fraction of natural numbers.\<close>

definition scaled :: "int \<Rightarrow> nat \<Rightarrow> nat \<Rightarrow> nat \<times> nat" where
  "scaled e n d = (if 0 \<le> e then (n, d * 2 ^ nat e) else (n * 2 ^ nat (- e), d))"

text \<open>The fraction rounded to \<open>p\<close> bits: a mantissa and its exponent.\<close>

definition round_ratio :: "nat \<Rightarrow> nat \<Rightarrow> nat \<Rightarrow> nat \<times> int" where
  "round_ratio p n d =
     (let e0 = int (bitlen n) - int (bitlen d) - int p;
          (a0, b0) = scaled e0 n d;
          e = (if 2 ^ p \<le> a0 div b0 then e0 + 1 else e0);
          (a, b) = scaled e n d
      in (half_even a b, e))"

section \<open>Values\<close>

datatype bval = Fin bool nat int | Inf bool

definition MaxExp :: int where "MaxExp = 2 ^ 31 - 1"
definition MinExp :: int where "MinExp = - (2 ^ 31)"

text \<open>A rounded result; an exponent out of range gives an infinity or zero.\<close>

definition make_float :: "bool \<Rightarrow> nat \<Rightarrow> nat \<Rightarrow> nat \<Rightarrow> int \<Rightarrow> bval" where
  "make_float neg p n d e =
     (if n = 0 then Fin neg 0 0
      else let (m, e') = round_ratio p n d; x = int (bitlen m) + e' + e
           in if MaxExp < x then Inf neg else if x < MinExp then Fin neg 0 0 else Fin neg m (e' + e))"

text \<open>\<open>Mul\<close> and \<open>Quo\<close> into a variable of precision \<open>p\<close>; an operation without a value panics.\<close>

fun float_Mul :: "nat \<Rightarrow> bval \<Rightarrow> bval \<Rightarrow> bval go" where
  "float_Mul p (Fin s m e) (Fin t n f) = Ret (make_float (s \<noteq> t) p (m * n) 1 (e + f))"
| "float_Mul p (Fin s m e) (Inf t) =
     (if m = 0 then Panic ''multiplication of zero with infinity'' else Ret (Inf (s \<noteq> t)))"
| "float_Mul p (Inf s) (Fin t n f) =
     (if n = 0 then Panic ''multiplication of zero with infinity'' else Ret (Inf (s \<noteq> t)))"
| "float_Mul p (Inf s) (Inf t) = Ret (Inf (s \<noteq> t))"

fun float_Quo :: "nat \<Rightarrow> bval \<Rightarrow> bval \<Rightarrow> bval go" where
  "float_Quo p (Fin s m e) (Fin t n f) =
     (if n = 0 then (if m = 0 then Panic ''division of zero by zero or infinity by infinity'' else Ret (Inf (s \<noteq> t)))
      else Ret (make_float (s \<noteq> t) p m n (e - f)))"
| "float_Quo p (Fin s m e) (Inf t) = Ret (Fin (s \<noteq> t) 0 0)"
| "float_Quo p (Inf s) (Fin t n f) = Ret (Inf (s \<noteq> t))"
| "float_Quo p (Inf s) (Inf t) = Panic ''division of zero by zero or infinity by infinity''"

text \<open>\<open>SetInt\<close> into a fresh variable is exact; its precision is the length of the integer, at least 64.\<close>

definition float_SetInt :: "int \<Rightarrow> nat \<times> bval" where
  "float_SetInt i = (max 64 (bitlen (nat \<bar>i\<bar>)), Fin (i < 0) (nat \<bar>i\<bar>) 0)"

text \<open>\<open>Int\<close>: truncation towards zero; an infinity has no integer.\<close>

fun float_Int :: "bval \<Rightarrow> int option" where
  "float_Int (Inf s) = None"
| "float_Int (Fin s m e) =
     (let a = (case scaled (- e) m 1 of (n, d) \<Rightarrow> n div d) in Some (if s then - int a else int a))"

section \<open>Text\<close>

definition zeros :: "nat \<Rightarrow> string" where "zeros n = replicate n (CHR ''0'')"

text \<open>The digits of \<open>n\<close> with a decimal point before the last \<open>k\<close>.\<close>

definition fixed_point :: "nat \<Rightarrow> nat \<Rightarrow> string" where
  "fixed_point k n =
     (let ds = dec_digits n; ds = zeros (Suc k - length ds) @ ds; i = length ds - k
      in take i ds @ (if k = 0 then [] else CHR ''.'' # drop i ds))"

fun float_Text_f :: "bval \<Rightarrow> nat \<Rightarrow> string" where
  "float_Text_f (Inf s) k = (if s then ''-Inf'' else ''+Inf'')"
| "float_Text_f (Fin s m e) k =
     (if s then ''-'' else []) @ fixed_point k (case scaled (- e) (m * 10 ^ k) 1 of (n, d) \<Rightarrow> half_even n d)"

section \<open>Scanning\<close>

text \<open>
  The loop over the digits of a mantissa: base, previous character class, misplaced separator, digits seen,
  digits seen at the radix point, value.
\<close>

fun frac_loop :: "nat \<Rightarrow> char \<Rightarrow> bool \<Rightarrow> nat \<Rightarrow> nat option \<Rightarrow> nat \<Rightarrow> string
    \<Rightarrow> char \<times> bool \<times> nat \<times> nat option \<times> nat \<times> string" where
  "frac_loop b prev bad cnt dp acc [] = (prev, bad, cnt, dp, acc, [])"
| "frac_loop b prev bad cnt dp acc (ch # cs) =
     (if ch = CHR ''.'' \<and> dp = None then
        frac_loop b CHR ''.'' (bad \<or> prev = CHR ''_'') cnt (Some cnt) acc cs
      else if ch = CHR ''_'' then frac_loop b CHR ''_'' (bad \<or> prev \<noteq> CHR ''0'') cnt dp acc cs
      else if b \<le> digit_value ch then (prev, bad, cnt, dp, acc, ch # cs)
      else frac_loop b CHR ''0'' bad (Suc cnt) dp (acc * b + digit_value ch) cs)"

definition base_prefix :: "char \<Rightarrow> nat option" where
  "base_prefix c = map_of [(CHR ''b'', 2), (CHR ''B'', 2), (CHR ''o'', 8), (CHR ''O'', 8), (CHR ''x'', 16), (CHR ''X'', 16)] c"

definition mantissa_start :: "string \<Rightarrow> nat \<times> (char \<times> bool \<times> nat \<times> nat option \<times> nat \<times> string)" where
  "mantissa_start cs =
     (case cs of
        c # ds \<Rightarrow>
          if c = CHR ''0'' then
            (case (case ds of [] \<Rightarrow> None | d # _ \<Rightarrow> base_prefix d) of
               Some b \<Rightarrow> (b, frac_loop b CHR ''0'' False 0 None 0 (tl ds))
             | None \<Rightarrow> (10, frac_loop 10 CHR ''0'' False 1 None 0 ds))
          else (10, frac_loop 10 CHR ''.'' False 0 None 0 cs)
      | [] \<Rightarrow> (10, frac_loop 10 CHR ''.'' False 0 None 0 []))"

text \<open>The base, the value of the digits, minus the number of digits behind the point, and the rest.\<close>

definition scan_mantissa :: "string \<Rightarrow> (nat \<times> nat \<times> int \<times> string) option" where
  "scan_mantissa cs =
     (case mantissa_start cs of (b, prev, bad, cnt, dp, acc, rest) \<Rightarrow>
        if bad \<or> prev = CHR ''_'' \<or> cnt = 0 then None
        else Some (b, acc, (case dp of None \<Rightarrow> 0 | Some i \<Rightarrow> int i - int cnt), rest))"

fun exp_loop :: "char \<Rightarrow> bool \<Rightarrow> nat \<Rightarrow> nat \<Rightarrow> string \<Rightarrow> char \<times> bool \<times> nat \<times> nat \<times> string" where
  "exp_loop prev bad cnt acc [] = (prev, bad, cnt, acc, [])"
| "exp_loop prev bad cnt acc (ch # cs) =
     (if digit_value ch < 10 then exp_loop CHR ''0'' bad (Suc cnt) (acc * 10 + digit_value ch) cs
      else if ch = CHR ''_'' then exp_loop CHR ''_'' (bad \<or> prev \<noteq> CHR ''0'') cnt acc cs
      else (prev, bad, cnt, acc, ch # cs))"

definition scan_sign :: "string \<Rightarrow> bool \<times> string" where
  "scan_sign cs = (case cs of c # ds \<Rightarrow> if c = CHR ''-'' then (True, ds) else if c = CHR ''+'' then (False, ds) else (False, cs)
                   | [] \<Rightarrow> (False, []))"

definition scan_exponent :: "string \<Rightarrow> (int \<times> nat \<times> string) option" where
  "scan_exponent cs =
     (case (case cs of [] \<Rightarrow> None | c # _ \<Rightarrow>
              map_of [(CHR ''e'', 10), (CHR ''E'', 10), (CHR ''p'', 2), (CHR ''P'', 2 :: nat)] c) of
        None \<Rightarrow> Some (0, 10, cs)
      | Some eb \<Rightarrow>
          (case scan_sign (tl cs) of (neg, ds) \<Rightarrow>
             (case exp_loop CHR ''.'' False 0 0 ds of (prev, bad, cnt, acc, rest) \<Rightarrow>
                let x = (if neg then - int acc else int acc) in
                if cnt = 0 \<or> x < - (2 ^ 63) \<or> 2 ^ 63 \<le> x \<or> bad \<or> prev = CHR ''_'' then None
                else Some (x, eb, rest))))"

text \<open>Powers of five at a precision, by squaring, the squares with 64 bits more.\<close>

definition umul :: "nat \<Rightarrow> nat \<times> int \<Rightarrow> nat \<times> int \<Rightarrow> nat \<times> int" where
  "umul p x y = (case round_ratio p (fst x * fst y) 1 of (m, e) \<Rightarrow> (m, e + snd x + snd y))"

fun pow5_loop :: "nat \<Rightarrow> nat \<times> int \<Rightarrow> nat \<times> int \<Rightarrow> nat \<Rightarrow> nat \<times> int" where
  "pow5_loop p z f n =
     (if n = 0 then z
      else pow5_loop p (if odd n then umul p z f else z) (umul (p + 64) f f) (n div 2))"

declare pow5_loop.simps [simp del]

definition pow5 :: "nat \<Rightarrow> nat \<Rightarrow> nat \<times> int" where
  "pow5 p n = (if n \<le> 27 then (5 ^ n, 0) else pow5_loop p (5 ^ 27, 0) (5, 0) (n - 27))"

text \<open>A literal: sign, mantissa, and the exponents of two and five its value has.\<close>

definition float_literal :: "string \<Rightarrow> (bool \<times> nat \<times> int \<times> int) option" where
  "float_literal s =
     (case scan_sign s of (neg, cs) \<Rightarrow>
     (case scan_mantissa cs of
        None \<Rightarrow> None
      | Some (b, mant, fcount, ds) \<Rightarrow>
     (case scan_exponent ds of
        None \<Rightarrow> None
      | Some (x, eb, rest) \<Rightarrow>
          if rest \<noteq> [] then None
          else Some (neg, mant,
            (if b = 8 then 3 * fcount else if b = 16 then 4 * fcount else fcount) + x,
            (if b = 10 then fcount else 0) + (if eb = 10 then x else 0)))))"

definition literal_value :: "nat \<Rightarrow> bool \<times> nat \<times> int \<times> int \<Rightarrow> bval option" where
  "literal_value p = (\<lambda>(neg, mant, exp2, exp5).
     if mant = 0 then Some (Fin neg 0 0)
     else if int (bitlen mant) + exp2 < MinExp \<or> MaxExp < int (bitlen mant) + exp2 then None
     else if exp5 = 0 then Some (make_float neg p mant 1 exp2)
     else (case pow5 (p + 64) (nat \<bar>exp5\<bar>) of (f, fe) \<Rightarrow>
             if exp5 < 0 then Some (make_float neg p mant f (exp2 - fe))
             else Some (make_float neg p (mant * f) 1 (exp2 + fe))))"

text \<open>\<open>SetString\<close> into a fresh variable, which gets 64 bits.\<close>

definition float_SetString :: "string \<Rightarrow> bval option" where
  "float_SetString s =
     (if s = ''Inf'' \<or> s = ''inf'' \<or> s = ''+Inf'' \<or> s = ''+inf'' then Some (Inf False)
      else if s = ''-Inf'' \<or> s = ''-inf'' then Some (Inf True)
      else Option.bind (float_literal s) (literal_value 64))"

section \<open>Error bounds\<close>

lemma bitlen_bounds:
  "n < 2 ^ bitlen n" "0 < n \<Longrightarrow> 2 ^ (bitlen n - 1) \<le> n" "0 < n \<Longrightarrow> 0 < bitlen n"
proof (induction n rule: bitlen.induct)
  case (1 n)
  {
    case 1
    then show ?case using "1.IH" by (cases "n = 0") (auto simp: bitlen.simps [of n])
  next
    case 2
    then have half: "bitlen n = Suc (bitlen (n div 2))" by (simp add: bitlen.simps [of n])
    show ?case
    proof (cases "n div 2 = 0")
      case True
      with 2 half show ?thesis by (simp add: bitlen.simps [of 0])
    next
      case False
      then have "2 ^ (bitlen (n div 2) - 1) \<le> n div 2" "0 < bitlen (n div 2)"
        using "1.IH" 2 by auto
      then have "2 * 2 ^ (bitlen (n div 2) - 1) \<le> n" by linarith
      then show ?thesis using half \<open>0 < bitlen (n div 2)\<close>
        by (metis diff_Suc_1 power_Suc Suc_pred)
    qed
  next
    case 3
    then show ?case by (simp add: bitlen.simps [of n])
  }
qed

lemma half_even_error:
  assumes "0 < d"
  shows "\<bar>real (half_even n d) - real n / real d\<bar> \<le> 1 / 2"
proof -
  define q r where "q = n div d" and "r = n mod d"
  have r: "r < d" using assms by (simp add: r_def)
  have "n = d * q + r" by (simp add: q_def r_def)
  then have n: "real n / real d = real q + real r / real d"
    using assms by (simp add: field_simps)
  show ?thesis
  proof (cases "d < 2 * r \<or> 2 * r = d \<and> odd q")
    case True
    then have up: "half_even n d = Suc q" by (auto simp: half_even_def Let_def q_def r_def)
    have "1 / 2 \<le> real r / real d" "real r / real d \<le> 1"
      using True r assms by (auto simp: field_simps)
    then show ?thesis by (simp add: up n)
  next
    case False
    then have down: "half_even n d = q" by (auto simp: half_even_def Let_def q_def r_def)
    have "real r / real d \<le> 1 / 2" "0 \<le> real r / real d"
      using False assms by (auto simp: field_simps)
    then show ?thesis by (simp add: down n)
  qed
qed

lemma half_even_nearest:
  assumes "0 < d" and "\<bar>real n / real d - real k\<bar> < 1 / 2"
  shows "half_even n d = k"
proof -
  have "\<bar>real (half_even n d) - real k\<bar> < 1"
    using half_even_error [OF assms(1), of n] assms(2) by linarith
  then show ?thesis by linarith
qed

lemma scaled_value:
  assumes "scaled e n d = (a, b)" and "0 < d"
  shows "0 < b" and "real a / real b = real n / real d / 2 powi e"
  using assms by (auto simp: scaled_def power_int_def field_simps split: if_splits)

lemma powi_nat: "(2 :: real) powi (int a - int b) = 2 ^ a / 2 ^ b"
  by (simp add: power_int_diff)

text \<open>
  The scaled fraction that \<open>round_ratio\<close> rounds lies between \<open>2\<^sup>p\<^sup>-\<^sup>1\<close> and \<open>2\<^sup>p\<close>; so its mantissa is at most \<open>2\<^sup>p\<close> and the
  relative error at most \<open>2\<^sup>-\<^sup>p\<close>.
\<close>

lemma scaled_range:
  assumes "0 < n" "0 < d" and e0: "e0 = int (bitlen n) - int (bitlen d) - int p"
  shows "2 ^ p / 2 \<le> real n / real d / 2 powi e0" and "real n / real d / 2 powi e0 < 2 * 2 ^ p"
proof -
  have pw: "(2 :: real) powi e0 = 2 ^ bitlen n / (2 ^ bitlen d * 2 ^ p)"
    using powi_nat [of "bitlen n" "bitlen d + p"] by (simp add: e0 power_add diff_diff_eq)
  have n: "2 ^ bitlen n \<le> 2 * n" "n < 2 ^ bitlen n"
    using bitlen_bounds [of n] assms(1) by (auto simp: power_eq_if split: if_splits)
  have d: "2 ^ bitlen d \<le> 2 * d" "d < 2 ^ bitlen d"
    using bitlen_bounds [of d] assms(2) by (auto simp: power_eq_if split: if_splits)
  have nr: "2 ^ bitlen n \<le> 2 * real n" "real n < 2 ^ bitlen n"
    using n by (metis of_nat_le_iff of_nat_mult of_nat_numeral of_nat_power, metis of_nat_less_iff of_nat_numeral of_nat_power)
  have dr: "2 ^ bitlen d \<le> 2 * real d" "real d < 2 ^ bitlen d"
    using d by (metis of_nat_le_iff of_nat_mult of_nat_numeral of_nat_power, metis of_nat_less_iff of_nat_numeral of_nat_power)
  have eq: "real n / real d / 2 powi e0 = (real n / 2 ^ bitlen n) * (2 ^ bitlen d / real d) * 2 ^ p"
    by (simp add: pw ac_simps)
  have 1: "1 / 2 \<le> real n / 2 ^ bitlen n" "real n / 2 ^ bitlen n < 1" using nr by (simp_all add: field_simps)
  have 2: "1 \<le> 2 ^ bitlen d / real d" "2 ^ bitlen d / real d \<le> 2" using dr assms(2) by (simp_all add: field_simps)
  have "1 / 2 * 1 \<le> (real n / 2 ^ bitlen n) * (2 ^ bitlen d / real d)"
    using 1 2 by (intro mult_mono) auto
  then show "2 ^ p / 2 \<le> real n / real d / 2 powi e0"
    unfolding eq using mult_right_mono [of "1 / 2" "real n / 2 ^ bitlen n * (2 ^ bitlen d / real d)" "2 ^ p"] by simp
  have "(real n / 2 ^ bitlen n) * (2 ^ bitlen d / real d) < 1 * 2"
    using 1 2 by (intro mult_less_le_imp_less) auto
  then show "real n / real d / 2 powi e0 < 2 * 2 ^ p"
    unfolding eq by (simp only: mult_less_cancel_right_pos zero_less_power zero_less_numeral mult_1)
qed

lemma nat_le_div_real: "0 < b \<Longrightarrow> k \<le> a div b \<longleftrightarrow> real k \<le> real a / real b"
proof -
  assume b: "0 < b"
  have "k \<le> a div b \<longleftrightarrow> real (k * b) \<le> real a"
    using b by (simp only: less_eq_div_iff_mult_less_eq of_nat_le_iff)
  then show ?thesis using b by (simp add: pos_le_divide_eq)
qed

lemma round_ratio_spec:
  assumes "0 < n" "0 < d" and "round_ratio p n d = (m, e)"
  shows "\<bar>real m * 2 powi e - real n / real d\<bar> \<le> real n / real d / 2 ^ p" and "m \<le> 2 ^ p"
    and "e = int (bitlen n) - int (bitlen d) - int p \<or> e = int (bitlen n) - int (bitlen d) - int p + 1"
proof -
  define e0 where "e0 = int (bitlen n) - int (bitlen d) - int p"
  note range0 = scaled_range [OF assms(1,2) e0_def]
  obtain a0 b0 where ab0: "scaled e0 n d = (a0, b0)" by fastforce
  obtain a b where ab: "scaled e n d = (a, b)" by fastforce
  have e: "e = (if 2 ^ p \<le> a0 div b0 then e0 + 1 else e0)" and m: "m = half_even a b"
    using assms(3) ab ab0 by (auto simp: round_ratio_def Let_def e0_def [symmetric] split: prod.splits)
  show "e = int (bitlen n) - int (bitlen d) - int p \<or> e = int (bitlen n) - int (bitlen d) - int p + 1"
    using e by (simp add: e0_def)
  define y where "y = real n / real d / 2 powi e"
  have y0: "real a0 / real b0 = real n / real d / 2 powi e0" "0 < b0"
    using scaled_value [OF ab0 assms(2)] by auto
  have y: "real a / real b = y" "0 < b"
    using scaled_value [OF ab assms(2)] by (auto simp: y_def)
  have test: "2 ^ p \<le> a0 div b0 \<longleftrightarrow> 2 ^ p \<le> real n / real d / 2 powi e0"
    using nat_le_div_real [OF y0(2), of "2 ^ p" a0] y0(1) by simp
  have lo: "2 ^ p / 2 \<le> y" and hi: "y < 2 ^ p"
  proof -
    define y1 where "y1 = real n / real d / 2 powi e0"
    have "y = (if 2 ^ p \<le> y1 then y1 / 2 else y1)"
      using e test by (simp add: y_def y1_def power_int_add)
    then show "2 ^ p / 2 \<le> y" "y < 2 ^ p" using range0 [folded y1_def] by (auto split: if_splits)
  qed
  have near: "\<bar>real m - y\<bar> \<le> 1 / 2"
    using half_even_error [OF y(2), of a] m y(1) by simp
  then have "real m < 2 ^ p + 1" using hi by linarith
  then have "real m < real (2 ^ p + 1)" by simp
  then show "m \<le> 2 ^ p" by linarith
  have pos: "(0 :: real) < 2 powi e" by simp
  have nd: "real n / real d = y * 2 powi e" by (simp add: y_def)
  have "\<bar>real m * 2 powi e - real n / real d\<bar> = \<bar>real m - y\<bar> * 2 powi e"
    unfolding nd using pos by (simp add: left_diff_distrib [symmetric] abs_mult)
  also have "\<dots> \<le> 1 / 2 * 2 powi e" using near pos by (intro mult_right_mono) auto
  also have "\<dots> \<le> (y / 2 ^ p) * 2 powi e" using lo pos by (intro mult_right_mono) (auto simp: field_simps)
  finally show "\<bar>real m * 2 powi e - real n / real d\<bar> \<le> real n / real d / 2 ^ p"
    by (simp add: nd)
qed

lemma bitlen_le: "n \<le> 2 ^ k \<Longrightarrow> bitlen n \<le> Suc k"
proof (rule ccontr)
  assume n: "n \<le> 2 ^ k" and "\<not> bitlen n \<le> Suc k"
  then have "2 ^ Suc k \<le> (2 :: nat) ^ (bitlen n - 1)" by (intro power_increasing) auto
  moreover have "0 < n" using \<open>\<not> bitlen n \<le> Suc k\<close> by (auto simp: bitlen.simps [of 0] intro: ccontr)
  ultimately have "2 * 2 ^ k \<le> n" using bitlen_bounds(2) [of n] by (metis order_trans power_Suc)
  moreover have "(0 :: nat) < 2 ^ k" by simp
  ultimately show False using n by linarith
qed

text \<open>A rounded result of moderate size is finite, and within the relative error of the precision.\<close>

lemma make_float_finite:
  assumes "0 < n" "0 < d" "bitlen n \<le> 2 ^ 20" "bitlen d \<le> 2 ^ 20" "p \<le> 2 ^ 20" "\<bar>x\<bar> \<le> 2 ^ 20"
  obtains m e where "make_float neg p n d x = Fin neg m e"
    "\<bar>real m * 2 powi (e - x) - real n / real d\<bar> \<le> real n / real d / 2 ^ p"
    "\<bar>e\<bar> \<le> int (bitlen n + bitlen d + p + 1) + \<bar>x\<bar>" "m \<le> 2 ^ p"
proof -
  obtain m e where me: "round_ratio p n d = (m, e)" by fastforce
  note spec = round_ratio_spec [OF assms(1,2) me]
  have len: "bitlen m \<le> Suc p" using bitlen_le [OF spec(2)] .
  have e: "\<bar>e\<bar> \<le> int (bitlen n + bitlen d + p + 1)" using spec(3) by auto
  then have "make_float neg p n d x = Fin neg m (e + x)"
    using me assms len by (auto simp: make_float_def MaxExp_def MinExp_def Let_def)
  then show ?thesis
    using that [of m "e + x"] spec e by (simp add: abs_triangle_ineq [THEN order_trans])
qed

end
