(* ===== verification/Money.thy ===== *)
theory Money
  imports Value_Int Go_BigFloat
begin

text \<open>
  Monetary amounts (\<^verbatim>\<open>src/value/money/money.go\<close>): an integer in the smallest denomination, with the number
  of decimals of the currency, and its conversion from and to the largest denomination through
  \<open>big.Float\<close>.
\<close>

section \<open>Amounts\<close>

record Amount =
  am_value :: value_Int
  am_decimals :: nat
  am_currencyCode :: string

definition NewAmountFromValueInt :: "value_Int \<Rightarrow> nat \<Rightarrow> string \<Rightarrow> Amount result" where
  "NewAmountFromValueInt v decimals currencyCode =
     Inr \<lparr>am_value = v, am_decimals = decimals, am_currencyCode = currencyCode\<rparr>"

definition NewAmountFromStringValue :: "string \<Rightarrow> nat \<Rightarrow> string \<Rightarrow> Amount result" where
  "NewAmountFromStringValue valueStr decimals currencyCode =
     (case NewIntFromString valueStr of
        Inl err \<Rightarrow> Inl (wrap_with ''new value from string'' err)
      | Inr v \<Rightarrow> NewAmountFromValueInt v decimals currencyCode)"

definition NewAmountFromBytesValue :: "string \<Rightarrow> nat \<Rightarrow> string \<Rightarrow> Amount result" where
  "NewAmountFromBytesValue valueBytes decimals currencyCode =
     NewAmountFromValueInt (NewIntFromBytes valueBytes) decimals currencyCode"

definition decimalsMultiplier :: "nat \<Rightarrow> int" where
  "decimalsMultiplier decimals = 10 ^ decimals"

definition fromUnits :: "nat \<Rightarrow> bval \<Rightarrow> nat \<Rightarrow> int option go" where
  "fromUnits prec v decimals =
     go_bind (float_Mul prec v (snd (float_SetInt (decimalsMultiplier decimals)))) (\<lambda>y. Ret (float_Int y))"

definition toUnits :: "int \<Rightarrow> nat \<Rightarrow> bval go" where
  "toUnits v decimals =
     (case float_SetInt v of (p, x) \<Rightarrow>
        (case float_SetInt (decimalsMultiplier decimals) of (q, y) \<Rightarrow> float_Quo (max p q) x y))"

text \<open>The variable that \<open>SetString\<close> fills has 64 bits.\<close>

definition NewAmountFromUnitStringAmount :: "string \<Rightarrow> nat \<Rightarrow> string \<Rightarrow> Amount result go" where
  "NewAmountFromUnitStringAmount unitValueStr decimals currencyCode =
     (if unitValueStr = [] then Ret (Inl (ErrWrap ''invalid value: empty string value'' ErrInvalidValue))
      else case float_SetString unitValueStr of
        None \<Rightarrow> Ret (Inl (ErrWrap (''invalid value: string value '' @ [CHR 0x22] @ unitValueStr @ [CHR 0x22]) ErrInvalidValue))
      | Some valueUnits \<Rightarrow>
          go_bind (fromUnits 64 valueUnits decimals) (\<lambda>i.
            Ret (NewAmountFromValueInt (NewIntFromBigInt i) decimals currencyCode)))"

record GRPCMessageAmountString =
  GetAmount :: string
  GetDecimals :: "32 word"
  GetCurrencyCode :: string

definition NewAmountFromGRPCMessageAmountString :: "GRPCMessageAmountString \<Rightarrow> Amount result" where
  "NewAmountFromGRPCMessageAmountString m =
     (case NewAmountFromStringValue (GetAmount m) (unat (GetDecimals m)) (GetCurrencyCode m) of
        Inl err \<Rightarrow> Inl err
      | Inr a \<Rightarrow> Inr a)"

definition MustNewAmount :: "Amount \<Rightarrow> go_error option \<Rightarrow> Amount go" where
  "MustNewAmount a err = (case err of Some e \<Rightarrow> Panic (error_text e) | None \<Rightarrow> Ret a)"

definition Amount_Value :: "Amount \<Rightarrow> value_Int" where "Amount_Value a = am_value a"
definition Amount_Decimals :: "Amount \<Rightarrow> nat" where "Amount_Decimals a = am_decimals a"
definition Amount_CurrencyCode :: "Amount \<Rightarrow> string" where "Amount_CurrencyCode a = am_currencyCode a"

definition ToUnits :: "Amount \<Rightarrow> bval go" where
  "ToUnits a = toUnits (BigInt (am_value a)) (am_decimals a)"

definition ToUnitsString :: "Amount \<Rightarrow> 8 word \<Rightarrow> string go" where
  "ToUnitsString a prec =
     go_bind (toUnits (BigInt (am_value a)) (am_decimals a)) (\<lambda>x. Ret (float_Text_f x (unat prec)))"

section \<open>Lemmas\<close>

lemma bitlen_pow10: "bitlen (10 ^ k) \<le> 4 * k + 1"
proof -
  have "(10 :: nat) ^ k \<le> 16 ^ k" by (rule power_mono) auto
  then have "(10 :: nat) ^ k \<le> 2 ^ (4 * k)" by (simp add: power_mult)
  from bitlen_le [OF this] show ?thesis by simp
qed

lemma bitlen_pow5: "bitlen (5 ^ k) \<le> 3 * k + 1"
proof -
  have "(5 :: nat) ^ k \<le> 8 ^ k" by (rule power_mono) auto
  then have "(5 :: nat) ^ k \<le> 2 ^ (3 * k)" by (simp add: power_mult)
  from bitlen_le [OF this] show ?thesis by simp
qed

lemma bitlen_0 [simp]: "bitlen 0 = 0" and bitlen_1 [simp]: "bitlen (Suc 0) = 1"
  by (simp_all add: bitlen.simps [of 0] bitlen.simps [of "Suc 0"])

text \<open>The text of a value that is close to a number of the smallest denomination.\<close>

lemma text_near:
  assumes "\<bar>real m * 2 powi e * 10 ^ k - real v\<bar> < 1 / 2"
  shows "float_Text_f (Fin s m e) k = (if s then ''-'' else []) @ fixed_point k v"
proof -
  obtain n d where nd: "scaled (- e) (m * 10 ^ k) 1 = (n, d)" by fastforce
  have d: "0 < d" and q: "real n / real d = real (m * 10 ^ k) / real 1 / 2 powi (- e)"
    using scaled_value [OF nd] by auto
  have "real n / real d = real m * 2 powi e * 10 ^ k"
    unfolding q by (simp add: power_int_minus field_simps)
  then have "half_even n d = v"
    using assms half_even_nearest [OF d, of n v] by simp
  then show ?thesis using nd by simp
qed

lemma quotient_text:
  assumes "v < 2 ^ 63" and "k \<le> 255" and "64 \<le> p" and "p \<le> 2 ^ 20"
  shows "float_Text_f (make_float s p v (10 ^ k) 0) k = (if s then ''-'' else []) @ fixed_point k v"
proof (cases "v = 0")
  case True
  then show ?thesis by (simp add: make_float_def scaled_def half_even_def)
next
  case False
  have len: "bitlen v \<le> 64" using bitlen_le [of v 63] assms(1) by simp
  obtain m e where me: "make_float s p v (10 ^ k) 0 = Fin s m e"
    and err: "\<bar>real m * 2 powi (e - 0) - real v / real (10 ^ k)\<bar> \<le> real v / real (10 ^ k) / 2 ^ p"
    by (rule make_float_finite [of v "10 ^ k" p 0 s]) (use False len bitlen_pow10 [of k] assms(2,4) in auto)
  have "real m * 2 powi e * 10 ^ k - real v = (real m * 2 powi e - real v / 10 ^ k) * 10 ^ k"
    by (simp add: left_diff_distrib)
  then have "\<bar>real m * 2 powi e * 10 ^ k - real v\<bar> = \<bar>real m * 2 powi e - real v / 10 ^ k\<bar> * 10 ^ k"
    by (simp add: abs_mult)
  also have "\<dots> \<le> real v / 10 ^ k / 2 ^ p * 10 ^ k"
    using err by (intro mult_right_mono) auto
  also have "\<dots> = real v / 2 ^ p" by simp
  also have "\<dots> \<le> real v / 2 ^ 64"
    using power_increasing [OF assms(3), of "2 :: real"] by (intro divide_left_mono) auto
  also have "\<dots> < 1 / 2" using assms(1) by simp
  finally show ?thesis using text_near me by simp
qed

text \<open>Parsing a decimal with \<open>k\<close> places and multiplying by \<open>10\<^sup>k\<close>, both rounded to 64 bits.\<close>

lemma literal_finite:
  assumes "0 < v" "v < 2 ^ 62" "k \<le> 27"
  obtains m e where "literal_value 64 (neg, v, - int k, - int k) = Some (Fin neg m e)"
    "\<bar>real m * 2 powi e * 10 ^ k - real v\<bar> \<le> real v / 2 ^ 64" "\<bar>e\<bar> \<le> 500" "m \<le> 2 ^ 64"
proof -
  have len: "bitlen v \<le> 63" using bitlen_le [of v 62] assms by simp
  have pow: "pow5 128 k = (5 ^ k, 0)" using assms by (simp add: pow5_def)
  obtain m e where me: "make_float neg 64 v (5 ^ k) (- int k) = Fin neg m e"
    and err: "\<bar>real m * 2 powi (e - - int k) - real v / real (5 ^ k)\<bar> \<le> real v / real (5 ^ k) / 2 ^ 64"
    and e: "\<bar>e\<bar> \<le> int (bitlen v + bitlen (5 ^ k) + 64 + 1) + \<bar>- int k\<bar>" and m: "m \<le> 2 ^ 64"
    by (rule make_float_finite [of v "5 ^ k" 64 "- int k" neg]) (use assms len bitlen_pow5 [of k] in auto)
  have "real m * 2 powi (e - - int k) = real m * 2 powi e * 2 ^ k"
    by (simp add: power_int_add)
  moreover have "(10 :: real) ^ k = 2 ^ k * 5 ^ k" by (simp flip: power_mult_distrib)
  ultimately have "real m * 2 powi e * 10 ^ k - real v = (real m * 2 powi (e - - int k) - real v / 5 ^ k) * 5 ^ k"
    by (simp add: left_diff_distrib power_int_add)
  then have "\<bar>real m * 2 powi e * 10 ^ k - real v\<bar> = \<bar>real m * 2 powi (e - - int k) - real v / 5 ^ k\<bar> * 5 ^ k"
    by (simp only: abs_mult) simp
  also have "\<dots> \<le> real v / 5 ^ k / 2 ^ 64 * 5 ^ k"
    using err by (intro mult_right_mono) auto
  finally have near: "\<bar>real m * 2 powi e * 10 ^ k - real v\<bar> \<le> real v / 2 ^ 64" by simp
  have "literal_value 64 (neg, v, - int k, - int k) = Some (Fin neg m e)"
    using assms len me by (cases "k = 0") (simp_all add: literal_value_def pow MinExp_def MaxExp_def)
  then show ?thesis using that near e m len bitlen_pow5 [of k] assms by auto
qed

lemma int_near:
  assumes "\<bar>real m * 2 powi e - real v\<bar> < 1" and "0 < v"
  shows "\<exists>u \<in> {v - 1, v}. float_Int (Fin neg m e) = Some (if neg then - int u else int u)"
proof -
  obtain n d where nd: "scaled (- e) m 1 = (n, d)" by fastforce
  have d: "0 < d" and q: "real n / real d = real m * 2 powi e"
    using scaled_value [OF nd] by (auto simp: power_int_minus field_simps)
  define a where "a = n div d"
  have "real a \<le> real n / real d" "\<not> real (Suc a) \<le> real n / real d"
    using nat_le_div_real [OF d, of a n] nat_le_div_real [OF d, of "Suc a" n] by (auto simp: a_def)
  then have "a = v \<or> Suc a = v"
    using assms unfolding q by linarith
  then have "a \<in> {v - 1, v}" by auto
  then show ?thesis using nd by (intro bexI [of _ a]) (auto simp: a_def)
qed

lemma from_units_near:
  assumes "0 < v" "v < 2 ^ 62" "k \<le> 27"
    and lit: "literal_value 64 (neg, v, - int k, - int k) = Some x"
  shows "\<exists>u \<in> {v - 1, v}. fromUnits 64 x k = Ret (Some (if neg then - int u else int u))"
proof -
  obtain m e where x: "x = Fin neg m e" and near: "\<bar>real m * 2 powi e * 10 ^ k - real v\<bar> \<le> real v / 2 ^ 64"
    and e: "\<bar>e\<bar> \<le> 500" and m: "m \<le> 2 ^ 64"
    by (rule literal_finite [OF assms(1-3), where neg = neg]) (use lit in auto)
  have small: "real v / 2 ^ 64 \<le> 1 / 4" "1 \<le> real v" using assms(1,2) by auto
  have m0: "0 < m"
  proof (rule ccontr)
    assume "\<not> 0 < m"
    then show False using near small by auto
  qed
  have "m * 10 ^ k \<le> 2 ^ 64 * 2 ^ (4 * k)"
    using m power_mono [of 10 "16 :: nat" k] by (intro mult_mono) (auto simp: power_mult)
  then have len: "bitlen (m * 10 ^ k) \<le> Suc (64 + 4 * k)"
    by (intro bitlen_le) (simp add: power_add)
  obtain n f where nf: "make_float neg 64 (m * 10 ^ k) 1 e = Fin neg n f"
    and err: "\<bar>real n * 2 powi (f - e) - real (m * 10 ^ k) / real 1\<bar> \<le> real (m * 10 ^ k) / real 1 / 2 ^ 64"
    by (rule make_float_finite [of "m * 10 ^ k" 1 64 e neg]) (use m0 len e assms(3) in auto)
  define y where "y = real m * 2 powi e * 10 ^ k"
  have pos: "(0 :: real) < 2 powi e" by simp
  have "real n * 2 powi f - y = (real n * 2 powi (f - e) - real (m * 10 ^ k)) * 2 powi e"
    by (simp add: y_def left_diff_distrib power_int_diff)
  then have "\<bar>real n * 2 powi f - y\<bar> = \<bar>real n * 2 powi (f - e) - real (m * 10 ^ k)\<bar> * 2 powi e"
    using pos by (simp add: abs_mult)
  also have "\<dots> \<le> real (m * 10 ^ k) / 2 ^ 64 * 2 powi e"
    using err pos by (intro mult_right_mono) auto
  also have "\<dots> = y / 2 ^ 64" by (simp add: y_def)
  finally have "\<bar>real n * 2 powi f - y\<bar> \<le> y / 2 ^ 64" .
  moreover have "y / 2 ^ 64 \<le> 2 * (real v / 2 ^ 64)"
  proof -
    have "y \<le> 2 * real v" using near [folded y_def] small by linarith
    then show ?thesis by (simp add: divide_right_mono)
  qed
  ultimately have "\<bar>real n * 2 powi f - y\<bar> \<le> 1 / 2" using small by linarith
  then have "\<bar>real n * 2 powi f - real v\<bar> < 1"
    using near [folded y_def] small by linarith
  from int_near [OF this assms(1), of neg] show ?thesis
    using nf by (auto simp: fromUnits_def x float_SetInt_def decimalsMultiplier_def nat_power_eq simp del: float_Int.simps)
qed

lemma unat_prec_less: "unat (w :: 8 word) < 256"
proof -
  have "unat w < 2 ^ LENGTH(8)" by (rule unsigned_less)
  then show ?thesis by simp
qed

section \<open>Properties\<close>

text \<open>
  C35. The unit string of an amount below \<open>2\<^sup>6\<^sup>3\<close>, printed with all its decimals, is exactly the decimal
  expansion of the amount: the division rounds, but never enough to change a printed digit.
\<close>

theorem money_text_exact:
  assumes "\<bar>bigInt (am_value a)\<bar> < 2 ^ 63" and "am_decimals a = unat prec"
  shows "ToUnitsString a prec = Ret ((if bigInt (am_value a) < 0 then ''-'' else [])
    @ fixed_point (am_decimals a) (nat \<bar>bigInt (am_value a)\<bar>))"
proof -
  define k where "k = am_decimals a"
  have k: "k \<le> 255" using assms(2) unat_prec_less [of prec] by (simp add: k_def)
  define p where "p = max (max 64 (bitlen (nat \<bar>bigInt (am_value a)\<bar>))) (max 64 (bitlen (10 ^ k)))"
  have v: "nat \<bar>bigInt (am_value a)\<bar> < 2 ^ 63" using assms(1) by (simp add: nat_less_iff)
  have p: "64 \<le> p" "p \<le> 2 ^ 20"
    using bitlen_le [of "nat \<bar>bigInt (am_value a)\<bar>" 63] v bitlen_pow10 [of k] k by (auto simp: p_def)
  have "toUnits (BigInt (am_value a)) k
      = Ret (make_float (bigInt (am_value a) < 0) p (nat \<bar>bigInt (am_value a)\<bar>) (10 ^ k) 0)"
    by (simp add: toUnits_def float_SetInt_def decimalsMultiplier_def BigInt_def nat_power_eq p_def)
  then show ?thesis
    using quotient_text [OF v k p] assms(2) by (simp add: ToUnitsString_def k_def)
qed

lemma digit_chars [simp]:
  "digit_char 0 = CHR ''0''" "digit_char (Suc 0) = CHR ''1''" "digit_char 2 = CHR ''2''" "digit_char 3 = CHR ''3''"
  "digit_char 4 = CHR ''4''" "digit_char 5 = CHR ''5''" "digit_char 6 = CHR ''6''" "digit_char 7 = CHR ''7''"
  "digit_char 8 = CHR ''8''" "digit_char 9 = CHR ''9''"
  by code_simp+

theorem money_text_exact_witness:
  "ToUnitsString \<lparr>am_value = \<lparr>bigInt = -9723\<rparr>, am_decimals = 2, am_currencyCode = ''USD''\<rparr> 2 = Ret ''-97.23''"
proof -
  have "fixed_point 2 9723 = ''97.23''"
    by (simp add: fixed_point_def dec_digits.simps zeros_def)
  then show ?thesis
    using money_text_exact [of "\<lparr>am_value = \<lparr>bigInt = -9723\<rparr>, am_decimals = 2, am_currencyCode = ''USD''\<rparr>" 2] by simp
qed

lemma literal_not_special: "float_literal s = Some l \<Longrightarrow> s \<noteq> [] \<and> float_SetString s = literal_value 64 l"
proof -
  have "float_literal [] = None" "float_literal ''Inf'' = None" "float_literal ''inf'' = None"
    "float_literal ''+Inf'' = None" "float_literal ''+inf'' = None" "float_literal ''-Inf'' = None"
    "float_literal ''-inf'' = None"
    by code_simp+
  then show "float_literal s = Some l \<Longrightarrow> s \<noteq> [] \<and> float_SetString s = literal_value 64 l"
    by (auto simp: float_SetString_def)
qed

lemma fromUnits_zero: "fromUnits 64 (Fin neg 0 0) k = Ret (Some 0)"
  by (simp add: fromUnits_def float_SetInt_def decimalsMultiplier_def nat_power_eq make_float_def scaled_def)

text \<open>
  C36. An amount made from a decimal unit string, of either sign, with as many decimals as the currency has
  (at most 27), whose digits without the point are a number \<open>v\<close> below \<open>2\<^sup>6\<^sup>2\<close>: the unit string is accepted,
  the sign is kept, and the magnitude in the smallest denomination is \<open>v\<close> or one less, since the product
  is truncated towards zero after two roundings. Nothing is claimed of longer strings, of strings with
  another number of decimals, and of larger numbers.
\<close>

theorem money_from_units_bound:
  assumes "float_literal s = Some (neg, v, - int k, - int k)" and "v < 2 ^ 62" and "k \<le> 27"
  shows "\<exists>a. \<exists>u \<in> {v - 1, v}. NewAmountFromUnitStringAmount s k c = Ret (Inr a) \<and> am_decimals a = k
    \<and> am_currencyCode a = c \<and> bigInt (am_value a) = (if neg then - int u else int u)"
proof (cases "v = 0")
  case True
  then have "float_SetString s = Some (Fin neg 0 0)" "s \<noteq> []"
    using literal_not_special [OF assms(1)] by (simp_all add: literal_value_def)
  then show ?thesis
    using True by (simp add: NewAmountFromUnitStringAmount_def fromUnits_zero NewAmountFromValueInt_def NewIntFromBigInt_def)
next
  case False
  obtain x where x: "literal_value 64 (neg, v, - int k, - int k) = Some x"
    using literal_finite [of v k neg] False assms(2,3) by (metis gr0I)
  obtain u where "u \<in> {v - 1, v}" "fromUnits 64 x k = Ret (Some (if neg then - int u else int u))"
    using from_units_near [of v k neg x] False assms(2,3) x by auto
  then show ?thesis
    using literal_not_special [OF assms(1)] x
    by (auto simp: NewAmountFromUnitStringAmount_def NewAmountFromValueInt_def NewIntFromBigInt_def intro!: bexI [of _ u])
qed

theorem money_from_units_bound_witness:
  "\<exists>a. \<exists>u \<in> {52, 53}. NewAmountFromUnitStringAmount ''-0.53'' 2 ''USD'' = Ret (Inr a) \<and> am_decimals a = 2
    \<and> am_currencyCode a = ''USD'' \<and> bigInt (am_value a) = - int u"
proof -
  have "float_literal ''-0.53'' = Some (True, 53, - int 2, - int 2)" by code_simp
  from money_from_units_bound [OF this, of "''USD''"] show ?thesis by simp
qed

text \<open>A cent is lost on a small decimal: 0.53 with two decimals becomes 52.\<close>

theorem money_from_units_loses:
  "NewAmountFromUnitStringAmount ''0.53'' 2 c
   = Ret (Inr \<lparr>am_value = \<lparr>bigInt = 52\<rparr>, am_decimals = 2, am_currencyCode = c\<rparr>)"
proof -
  have "float_literal ''0.53'' = Some (False, 53, -2, -2)" by code_simp
  then have "float_SetString ''0.53'' = literal_value 64 (False, 53, -2, -2)"
    using literal_not_special by blast
  moreover have "literal_value 64 (False, 53, -2, -2) = Some (make_float False 64 53 25 (-2))"
    by (simp add: literal_value_def pow5_def bitlen.simps MaxExp_def MinExp_def)
  moreover have "fromUnits 64 (make_float False 64 53 25 (-2)) 2 = Ret (Some 52)"
    by (simp add: fromUnits_def make_float_def round_ratio_def scaled_def half_even_def bitlen.simps MaxExp_def MinExp_def
        float_SetInt_def decimalsMultiplier_def Let_def)
  ultimately show ?thesis
    by (simp add: NewAmountFromUnitStringAmount_def NewAmountFromValueInt_def NewIntFromBigInt_def)
qed

text \<open>Above \<open>2\<^sup>6\<^sup>3\<close> a printed digit can be wrong: this amount, with 18 decimals, is printed as the one below it.\<close>

theorem money_text_large:
  "ToUnitsString \<lparr>am_value = \<lparr>bigInt = 1081529111393971083795\<rparr>, am_decimals = 18, am_currencyCode = c\<rparr> 18
   = Ret (fixed_point 18 1081529111393971083794)"
proof -
  have "bitlen 1081529111393971083795 = 70" "bitlen 1000000000000000000 = 60"
    by (simp_all add: bitlen.simps)
  then have "toUnits 1081529111393971083795 18 = Ret (make_float False 70 1081529111393971083795 1000000000000000000 0)"
    by (simp add: toUnits_def float_SetInt_def decimalsMultiplier_def)
  moreover have "float_Text_f (make_float False 70 1081529111393971083795 1000000000000000000 0) 18
      = fixed_point 18 1081529111393971083794"
    by (simp add: make_float_def round_ratio_def scaled_def half_even_def bitlen.simps MaxExp_def MinExp_def Let_def)
  ultimately show ?thesis by (simp add: ToUnitsString_def BigInt_def)
qed

text \<open>An infinite unit string is accepted, as the amount zero.\<close>

theorem money_from_infinity:
  "NewAmountFromUnitStringAmount ''Inf'' k c
   = Ret (Inr \<lparr>am_value = ZeroInt, am_decimals = k, am_currencyCode = c\<rparr>)"
  by (simp add: NewAmountFromUnitStringAmount_def float_SetString_def fromUnits_def float_SetInt_def decimalsMultiplier_def
      NewAmountFromValueInt_def NewIntFromBigInt_def nat_power_eq)

end
