(* ===== verification/Pubsub_Lite.thy ===== *)
theory Pubsub_Lite
  imports Worker_Amqp Go_Json
begin

text \<open>
  Package pubsublite (\<^verbatim>\<open>src/pubsublite\<close>): the event that is acknowledged through a channel, and the AMQP
  publisher and subscriber (\<^verbatim>\<open>src/pubsublite/amqp\<close>), whose goroutine hands out one event at a time and
  acknowledges its message once the event is acknowledged. The AMQP client is the parameter of
  \<open>Worker_Amqp\<close>, extended by the calls used here. No option sets the tables of arguments, which are
  always nil and left out. Payloads are maps of arbitrary values: their JSON form is a pair of functions
  of the definitions that use it.
\<close>

section \<open>Events\<close>

text \<open>The channel of an event: nil, one of its own that may be closed, or the package's closed channel.\<close>

datatype ack_chan = NilChan | OwnChan bool | Closedchan

datatype ackType = NoAckSent | AckSent | NackSent

record 'p LiteEvent =
  le_Type :: string
  le_ack :: ack_chan
  le_noAck :: ack_chan
  le_ackSentType :: ackType
  le_Payload :: 'p

definition Payload_String :: "('p \<Rightarrow> string result) \<Rightarrow> 'p \<Rightarrow> string" where
  "Payload_String json_Marshal p = (case json_Marshal p of Inl _ \<Rightarrow> [] | Inr b \<Rightarrow> b)"

definition LiteEvent_String :: "('p \<Rightarrow> string result) \<Rightarrow> 'p LiteEvent \<Rightarrow> string" where
  "LiteEvent_String json_Marshal e =
     (case json_Marshal (le_Payload e) of
        Inl _ \<Rightarrow> []
      | Inr b \<Rightarrow> json_object [(''type'', json_string (le_Type e)), (''payload'', b)])"

definition close_ack_chan :: "ack_chan \<Rightarrow> ack_chan go" where
  "close_ack_chan c =
     (case c of
        NilChan \<Rightarrow> Panic ''close of nil channel''
      | OwnChan False \<Rightarrow> Ret (OwnChan True)
      | _ \<Rightarrow> Panic ''close of closed channel'')"

definition LiteEvent_Ack :: "'p LiteEvent \<Rightarrow> (bool \<times> 'p LiteEvent) go" where
  "LiteEvent_Ack e =
     (if le_ackSentType e = NackSent then Ret (False, e)
      else if le_ackSentType e \<noteq> NoAckSent then Ret (True, e)
      else (let e = e\<lparr>le_ackSentType := AckSent\<rparr> in
            if le_ack e = NilChan then Ret (True, e\<lparr>le_ack := Closedchan\<rparr>)
            else go_bind (close_ack_chan (le_ack e)) (\<lambda>c. Ret (True, e\<lparr>le_ack := c\<rparr>))))"

text \<open>A receive from \<open>Acked()\<close> proceeds when the channel is closed, and blocks otherwise.\<close>

definition Acked_ready :: "'p LiteEvent \<Rightarrow> bool" where
  "Acked_ready e = (case le_ack e of OwnChan closed \<Rightarrow> closed | Closedchan \<Rightarrow> True | NilChan \<Rightarrow> False)"

definition NewEvent :: "'p \<Rightarrow> string \<Rightarrow> 'p LiteEvent" where
  "NewEvent nil_payload eventType =
     \<lparr>le_Type = eventType, le_ack = OwnChan False, le_noAck = OwnChan False, le_ackSentType = NoAckSent,
      le_Payload = nil_payload\<rparr>"

section \<open>Configuration\<close>

record ExchangeConfig =
  ec_name :: string
  ec_kind :: string
  ec_durable :: bool
  ec_autoDelete :: bool
  ec_internal :: bool
  ec_noWait :: bool

type_synonym QueueNameGenerator = "(string \<Rightarrow> string) option"

definition GenerateQueueNameTopicName :: QueueNameGenerator where
  "GenerateQueueNameTopicName = Some (\<lambda>topic. topic)"

definition GenerateQueueNameTopicNameWithPrefix :: "string \<Rightarrow> QueueNameGenerator" where
  "GenerateQueueNameTopicNameWithPrefix pfx = Some (\<lambda>topic. pfx @ ''.'' @ topic)"

record QueueConfig =
  qc_generateName :: QueueNameGenerator
  qc_durable :: bool
  qc_autoDelete :: bool
  qc_exclusive :: bool
  qc_noWait :: bool

record QueueBindConfig =
  qb_generateRoutingKey :: "(string \<Rightarrow> string) option"
  qb_noWait :: bool

record ConsumeConfig =
  cc_consumer :: string
  cc_autoAck :: bool
  cc_exclusive :: bool
  cc_noLocal :: bool
  cc_noWait :: bool

record PublishConfig =
  pc_mandatory :: bool
  pc_immediate :: bool

record ('tls, 'acfg) ConnectionConfig =
  cn_url :: string
  cn_tlsConfig :: "'tls option"
  cn_amqpConfig :: "'acfg option"

record ('tls, 'acfg) AmqpConfig =
  ac_connection :: "('tls, 'acfg) ConnectionConfig"
  ac_exchange :: ExchangeConfig
  ac_queue :: QueueConfig
  ac_queueBind :: QueueBindConfig
  ac_consume :: ConsumeConfig
  ac_publish :: PublishConfig

datatype ('tls, 'acfg) AmqpConfigOption =
    WithConnection "('tls, 'acfg) ConnectionConfig"
  | WithExchangeName string
  | WithQueueNameGenerator QueueNameGenerator

fun apply_option :: "('tls, 'acfg) AmqpConfigOption \<Rightarrow> ('tls, 'acfg) AmqpConfig \<Rightarrow> ('tls, 'acfg) AmqpConfig" where
  "apply_option (WithConnection cfg) c = c\<lparr>ac_connection := cfg\<rparr>"
| "apply_option (WithExchangeName name) c = c\<lparr>ac_exchange := (ac_exchange c)\<lparr>ec_name := name\<rparr>\<rparr>"
| "apply_option (WithQueueNameGenerator f) c = c\<lparr>ac_queue := (ac_queue c)\<lparr>qc_generateName := f\<rparr>\<rparr>"

definition zero_connection :: "('tls, 'acfg) ConnectionConfig" where
  "zero_connection = \<lparr>cn_url = [], cn_tlsConfig = None, cn_amqpConfig = None\<rparr>"

definition NewDefaultConfig :: "('tls, 'acfg) AmqpConfig" where
  "NewDefaultConfig =
     \<lparr>ac_connection = zero_connection,
      ac_exchange = \<lparr>ec_name = [], ec_kind = ''direct'', ec_durable = True, ec_autoDelete = False,
        ec_internal = False, ec_noWait = False\<rparr>,
      ac_queue = \<lparr>qc_generateName = GenerateQueueNameTopicName, qc_durable = True, qc_autoDelete = False,
        qc_exclusive = False, qc_noWait = False\<rparr>,
      ac_queueBind = \<lparr>qb_generateRoutingKey = Some (\<lambda>topic. topic), qb_noWait = False\<rparr>,
      ac_consume = \<lparr>cc_consumer = [], cc_autoAck = False, cc_exclusive = False, cc_noLocal = False,
        cc_noWait = False\<rparr>,
      ac_publish = \<lparr>pc_mandatory = True, pc_immediate = False\<rparr>\<rparr>"

text \<open>The configuration a new connection starts from has only zero values.\<close>

definition zero_config :: "('tls, 'acfg) AmqpConfig" where
  "zero_config =
     \<lparr>ac_connection = zero_connection,
      ac_exchange = \<lparr>ec_name = [], ec_kind = [], ec_durable = False, ec_autoDelete = False,
        ec_internal = False, ec_noWait = False\<rparr>,
      ac_queue = \<lparr>qc_generateName = None, qc_durable = False, qc_autoDelete = False,
        qc_exclusive = False, qc_noWait = False\<rparr>,
      ac_queueBind = \<lparr>qb_generateRoutingKey = None, qb_noWait = False\<rparr>,
      ac_consume = \<lparr>cc_consumer = [], cc_autoAck = False, cc_exclusive = False, cc_noLocal = False,
        cc_noWait = False\<rparr>,
      ac_publish = \<lparr>pc_mandatory = False, pc_immediate = False\<rparr>\<rparr>"

section \<open>Connections\<close>

record ('w, 'conn, 'ch, 'msgs, 'tls, 'acfg) lite_api = "('w, 'conn, 'ch, 'msgs) amqp_api" +
  api_DialTLS :: "string \<Rightarrow> 'tls \<Rightarrow> 'w \<Rightarrow> ('conn option \<times> go_error option) \<times> 'w"
  api_DialConfig :: "string \<Rightarrow> 'acfg \<Rightarrow> 'w \<Rightarrow> ('conn option \<times> go_error option) \<times> 'w"
  api_QueueBind :: "'ch \<Rightarrow> string \<Rightarrow> string \<Rightarrow> string \<Rightarrow> bool \<Rightarrow> 'w \<Rightarrow> go_error option \<times> 'w"
  api_Cancel :: "'ch \<Rightarrow> string \<Rightarrow> bool \<Rightarrow> 'w \<Rightarrow> go_error option \<times> 'w"

record 'conn Connection =
  amqpConnection :: "'conn option"

definition connection_dial ::
  "('w, 'conn, 'ch, 'msgs, 'tls, 'acfg) lite_api \<Rightarrow> ('tls, 'acfg) ConnectionConfig \<Rightarrow> 'w
   \<Rightarrow> ('conn option \<times> go_error option) \<times> 'w" where
  "connection_dial api c w =
     (case cn_amqpConfig c of
        Some acfg \<Rightarrow> api_DialConfig api (cn_url c) acfg w
      | None \<Rightarrow>
          (case cn_tlsConfig c of
             Some tls \<Rightarrow> api_DialTLS api (cn_url c) tls w
           | None \<Rightarrow> api_Dial api (cn_url c) w))"

definition connection_operation ::
  "('w, 'conn, 'ch, 'msgs, 'tls, 'acfg) lite_api \<Rightarrow> ('tls, 'acfg) ConnectionConfig \<Rightarrow> 'conn option \<times> 'w
   \<Rightarrow> go_error option \<times> 'conn option \<times> 'w" where
  "connection_operation api c = (\<lambda>(conn, w).
     (case connection_dial api c w of
        ((conn', Some err), w1) \<Rightarrow> (Some (wrap_with ''could not establish rabbitmq connection'' err), conn', w1)
      | ((conn', None), w1) \<Rightarrow> (None, conn', w1)))"

definition NewConnection ::
  "('conn option \<times> 'w) retrier \<Rightarrow> ('w, 'conn, 'ch, 'msgs, 'tls, 'acfg) lite_api
   \<Rightarrow> ('tls, 'acfg) AmqpConfigOption list \<Rightarrow> 'w \<Rightarrow> 'conn Connection result \<times> 'w" where
  "NewConnection retry api opts w =
     (let cfg = fold apply_option opts zero_config in
      case retry 5 (connection_operation api (ac_connection cfg)) (None, w) of
        (Some err, _, w1) \<Rightarrow> (Inl err, w1)
      | (None, conn, w1) \<Rightarrow> (Inr \<lparr>amqpConnection = conn\<rparr>, w1))"

definition on_connection :: "'conn Connection \<Rightarrow> ('conn \<Rightarrow> 'b go) \<Rightarrow> 'b go" where
  "on_connection c f =
     (case amqpConnection c of None \<Rightarrow> Panic ''invalid memory address or nil pointer dereference'' | Some conn \<Rightarrow> f conn)"

definition Connection_Close ::
  "('w, 'conn, 'ch, 'msgs, 'tls, 'acfg) lite_api \<Rightarrow> 'conn Connection \<Rightarrow> 'w \<Rightarrow> (go_error option \<times> 'w) go" where
  "Connection_Close api c w = on_connection c (\<lambda>conn. Ret (api_ConnClose api conn w))"

section \<open>Publisher\<close>

text \<open>
  The common part of both constructors: a channel, the options on the default configuration, and the
  exchange unless it is the default one.
\<close>

definition declare_exchange ::
  "('w, 'conn, 'ch, 'msgs, 'tls, 'acfg) lite_api \<Rightarrow> 'ch \<Rightarrow> ExchangeConfig \<Rightarrow> 'w \<Rightarrow> go_error option \<times> 'w" where
  "declare_exchange api ch ex w =
     (if ec_name ex \<noteq> [] then
        (case api_ExchangeDeclare api ch (ec_name ex) (ec_kind ex) (ec_durable ex) (ec_autoDelete ex)
                (ec_internal ex) (ec_noWait ex) w of
           (Some err, w1) \<Rightarrow> (Some (wrap_with ''unable to declare exchange'' err), w1)
         | (None, w1) \<Rightarrow> (None, w1))
      else (None, w))"

record ('conn, 'ch, 'tls, 'acfg) LitePublisher =
  lp_connection :: "'conn Connection"
  lp_amqpChannel :: 'ch
  lp_config :: "('tls, 'acfg) AmqpConfig"

definition Lite_NewPublisher ::
  "('w, 'conn, 'ch, 'msgs, 'tls, 'acfg) lite_api \<Rightarrow> 'conn Connection \<Rightarrow> ('tls, 'acfg) AmqpConfigOption list \<Rightarrow> 'w
   \<Rightarrow> (('conn, 'ch, 'tls, 'acfg) LitePublisher result \<times> 'w) go" where
  "Lite_NewPublisher api c opts w = on_connection c (\<lambda>conn.
     case api_Channel api conn w of
       (Inl err, w1) \<Rightarrow> Ret (Inl (wrap_with ''could not start a new broker channel'' err), w1)
     | (Inr ch, w1) \<Rightarrow>
         (let cfg = fold apply_option opts NewDefaultConfig in
          case declare_exchange api ch (ac_exchange cfg) w1 of
            (Some err, w2) \<Rightarrow> Ret (Inl err, w2)
          | (None, w2) \<Rightarrow> Ret (Inr \<lparr>lp_connection = c, lp_amqpChannel = ch, lp_config = cfg\<rparr>, w2)))"

definition LitePublisher_Publish ::
  "('w, 'conn, 'ch, 'msgs, 'tls, 'acfg) lite_api \<Rightarrow> ('p \<Rightarrow> string result)
   \<Rightarrow> ('conn, 'ch, 'tls, 'acfg) LitePublisher \<Rightarrow> string \<Rightarrow> 'p LiteEvent \<Rightarrow> 'w \<Rightarrow> go_error option \<times> 'w" where
  "LitePublisher_Publish api json_Marshal p topic event w =
     (case api_Publish api (lp_amqpChannel p) (ec_name (ac_exchange (lp_config p))) topic
             (pc_mandatory (ac_publish (lp_config p))) (pc_immediate (ac_publish (lp_config p)))
             \<lparr>pb_ContentType = ''application/json'', pb_DeliveryMode = amqp_Persistent,
              pb_Body = Payload_String json_Marshal (le_Payload event)\<rparr> w of
        (Some err, w1) \<Rightarrow> (Some (wrap_with ''error enqueuing event'' err), w1)
      | (None, w1) \<Rightarrow> (None, w1))"

text \<open>\<open>Close\<close> closes the connection, which others may share, and drops its error.\<close>

definition LitePublisher_Close ::
  "('w, 'conn, 'ch, 'msgs, 'tls, 'acfg) lite_api \<Rightarrow> ('conn, 'ch, 'tls, 'acfg) LitePublisher \<Rightarrow> 'w
   \<Rightarrow> (go_error option \<times> 'w) go" where
  "LitePublisher_Close api p w = go_bind (Connection_Close api (lp_connection p) w) (\<lambda>(_, w1). Ret (None, w1))"

section \<open>Subscriber\<close>

record ('conn, 'ch, 'tls, 'acfg) LiteSubscriber =
  ls_connection :: "'conn Connection"
  ls_amqpChannel :: 'ch
  ls_consumerTag :: string
  ls_cfg :: "('tls, 'acfg) AmqpConfig"
  ls_closing :: bool

definition Lite_NewSubscription ::
  "('w, 'conn, 'ch, 'msgs, 'tls, 'acfg) lite_api \<Rightarrow> 'conn Connection \<Rightarrow> ('tls, 'acfg) AmqpConfigOption list \<Rightarrow> 'w
   \<Rightarrow> (('conn, 'ch, 'tls, 'acfg) LiteSubscriber result \<times> 'w) go" where
  "Lite_NewSubscription api c opts w = on_connection c (\<lambda>conn.
     case api_Channel api conn w of
       (Inl err, w1) \<Rightarrow> Ret (Inl (wrap_with ''could not start a new broker channel'' err), w1)
     | (Inr ch, w1) \<Rightarrow>
         (let cfg = fold apply_option opts NewDefaultConfig in
          case declare_exchange api ch (ac_exchange cfg) w1 of
            (Some err, w2) \<Rightarrow> Ret (Inl err, w2)
          | (None, w2) \<Rightarrow> Ret (Inr \<lparr>ls_connection = c, ls_amqpChannel = ch, ls_consumerTag = [], ls_cfg = cfg,
              ls_closing = False\<rparr>, w2)))"

definition setupQueue ::
  "('w, 'conn, 'ch, 'msgs, 'tls, 'acfg) lite_api \<Rightarrow> ('conn, 'ch, 'tls, 'acfg) LiteSubscriber
   \<Rightarrow> string \<Rightarrow> string \<Rightarrow> string \<Rightarrow> 'w \<Rightarrow> go_error option \<times> 'w" where
  "setupQueue api s routingKey queueName exchangeName w =
     (let q = ac_queue (ls_cfg s) in
      case api_QueueDeclare api (ls_amqpChannel s) \<lparr>qd_name = queueName, qd_durable = qc_durable q,
             qd_autoDelete = qc_autoDelete q, qd_exclusive = qc_exclusive q, qd_noWait = qc_noWait q, qd_args = []\<rparr> w of
        (Inl err, w1) \<Rightarrow> (Some (wrap_with ''unable to declare queue'' err), w1)
      | (Inr _, w1) \<Rightarrow>
          (if exchangeName \<noteq> [] then
             (case api_QueueBind api (ls_amqpChannel s) queueName routingKey exchangeName
                     (qb_noWait (ac_queueBind (ls_cfg s))) w1 of
                (Some err, w2) \<Rightarrow> (Some (wrap_with ''unable to bind queue'' err), w2)
              | (None, w2) \<Rightarrow> (None, w2))
           else (None, w1)))"

definition createConsumer ::
  "('w, 'conn, 'ch, 'msgs, 'tls, 'acfg) lite_api \<Rightarrow> ('conn, 'ch, 'tls, 'acfg) LiteSubscriber
   \<Rightarrow> string \<Rightarrow> 'w \<Rightarrow> 'msgs result \<times> 'w" where
  "createConsumer api s queueName w =
     (let c = ac_consume (ls_cfg s) in
      case api_Consume api (ls_amqpChannel s) queueName (cc_consumer c) (cc_autoAck c) (cc_exclusive c)
             (cc_noLocal c) (cc_noWait c) w of
        (Inl err, w1) \<Rightarrow> (Inl (wrap_with ''could not consume channel'' err), w1)
      | (Inr msgs, w1) \<Rightarrow> (Inr msgs, w1))"

definition call_generator :: "(string \<Rightarrow> string) option \<Rightarrow> string \<Rightarrow> string go" where
  "call_generator g topic =
     (case g of None \<Rightarrow> Panic ''invalid memory address or nil pointer dereference'' | Some f \<Rightarrow> Ret (f topic))"

text \<open>\<open>Subscribe\<close> returns the messages its goroutine works on.\<close>

definition LiteSubscriber_Subscribe ::
  "('w, 'conn, 'ch, 'msgs, 'tls, 'acfg) lite_api \<Rightarrow> ('conn, 'ch, 'tls, 'acfg) LiteSubscriber \<Rightarrow> string \<Rightarrow> 'w
   \<Rightarrow> ('msgs result \<times> 'w) go" where
  "LiteSubscriber_Subscribe api s topic w =
     go_bind (call_generator (qc_generateName (ac_queue (ls_cfg s))) topic) (\<lambda>queueName.
     go_bind (call_generator (qb_generateRoutingKey (ac_queueBind (ls_cfg s))) topic) (\<lambda>routingKey.
       case setupQueue api s routingKey queueName (ec_name (ac_exchange (ls_cfg s))) w of
         (Some err, w1) \<Rightarrow> Ret (Inl err, w1)
       | (None, w1) \<Rightarrow> Ret (createConsumer api s queueName w1)))"

definition LiteSubscriber_Close ::
  "('w, 'conn, 'ch, 'msgs, 'tls, 'acfg) lite_api \<Rightarrow> ('conn, 'ch, 'tls, 'acfg) LiteSubscriber \<Rightarrow> 'w
   \<Rightarrow> (go_error option \<times> ('conn, 'ch, 'tls, 'acfg) LiteSubscriber \<times> 'w) go" where
  "LiteSubscriber_Close api s w =
     (case api_Cancel api (ls_amqpChannel s) (ls_consumerTag s) True w of
        (Some err, w1) \<Rightarrow> Ret (Some err, s, w1)
      | (None, w1) \<Rightarrow>
          (case api_ChannelClose api (ls_amqpChannel s) w1 of
             (Some err, w2) \<Rightarrow> Ret (Some err, s, w2)
           | (None, w2) \<Rightarrow>
               (if ls_closing s then Panic ''close of closed channel''
                else Ret (None, s\<lparr>ls_closing := True\<rparr>, w2))))"

section \<open>The consuming goroutine\<close>

record lite_delivery =
  ld_tag :: nat
  ld_RoutingKey :: string
  ld_Body :: string

text \<open>The error of the decoder is dropped; what it stored until then is kept.\<close>

definition lite_build :: "'p \<Rightarrow> (string \<Rightarrow> 'p \<Rightarrow> go_error option \<times> 'p) \<Rightarrow> lite_delivery \<Rightarrow> 'p LiteEvent" where
  "lite_build nil_payload json_Unmarshal d =
     (let evt = NewEvent nil_payload (ld_RoutingKey d)
      in evt\<lparr>le_Payload := snd (json_Unmarshal (ld_Body d) (le_Payload evt))\<rparr>)"

datatype 'p lite_pc = LRange | LOffer lite_delivery "'p LiteEvent" | LWait lite_delivery | LEnded

datatype lite_crash = AckCrash | CloseCrash

text \<open>
  The goroutine with its environment: the messages still to be read, whether their channel is closed,
  the events handed out (the consumer holds pointers to them), the tags of the messages acknowledged,
  whether \<open>closing\<close> is closed, and a crash of a call to \<open>Ack\<close> or \<open>Close\<close>.
\<close>

record 'p lite_machine =
  lm_msgs :: "lite_delivery list"
  lm_msgs_closed :: bool
  lm_at :: "'p lite_pc"
  lm_events :: "'p LiteEvent list"
  lm_acks :: "nat list"
  lm_closing :: bool
  lm_crash :: "lite_crash option"

definition lite_init :: "lite_delivery list \<Rightarrow> 'p lite_machine" where
  "lite_init ms = \<lparr>lm_msgs = ms, lm_msgs_closed = False, lm_at = LRange, lm_events = [], lm_acks = [],
     lm_closing = False, lm_crash = None\<rparr>"

text \<open>The \<open>Close\<close> step is a call whose requests to the broker succeeded; others change nothing here.\<close>

datatype lite_op = LiteTake | LiteEnd | LiteReceive | LiteSeeClosing | LiteAck nat | LiteSettle | LiteClose | LiteMsgsClosed

inductive consuming_loop ::
  "'p \<Rightarrow> (string \<Rightarrow> 'p \<Rightarrow> go_error option \<times> 'p) \<Rightarrow> 'p lite_machine \<Rightarrow> lite_op \<Rightarrow> 'p lite_machine \<Rightarrow> bool"
  for nil U where
  lite_take: "lm_at s = LRange \<Longrightarrow> lm_msgs s = m # ms \<Longrightarrow>
    consuming_loop nil U s LiteTake (s\<lparr>lm_msgs := ms, lm_at := LOffer m (lite_build nil U m)\<rparr>)"
| lite_end: "lm_at s = LRange \<Longrightarrow> lm_msgs s = [] \<Longrightarrow> lm_msgs_closed s \<Longrightarrow>
    consuming_loop nil U s LiteEnd (s\<lparr>lm_at := LEnded\<rparr>)"
| lite_receive: "lm_at s = LOffer m e \<Longrightarrow>
    consuming_loop nil U s LiteReceive (s\<lparr>lm_at := LWait m, lm_events := lm_events s @ [e]\<rparr>)"
| lite_see_closing: "lm_at s = LOffer m e \<Longrightarrow> lm_closing s \<Longrightarrow>
    consuming_loop nil U s LiteSeeClosing (s\<lparr>lm_at := LEnded\<rparr>)"
| lite_ack: "i < length (lm_events s) \<Longrightarrow> LiteEvent_Ack (lm_events s ! i) = Ret (b, e) \<Longrightarrow>
    consuming_loop nil U s (LiteAck i) (s\<lparr>lm_events := (lm_events s)[i := e]\<rparr>)"
| lite_ack_panics: "i < length (lm_events s) \<Longrightarrow> LiteEvent_Ack (lm_events s ! i) = Panic p \<Longrightarrow>
    consuming_loop nil U s (LiteAck i) (s\<lparr>lm_crash := Some AckCrash\<rparr>)"
| lite_settle: "lm_at s = LWait m \<Longrightarrow> Acked_ready (last (lm_events s)) \<Longrightarrow>
    consuming_loop nil U s LiteSettle (s\<lparr>lm_at := LRange, lm_acks := lm_acks s @ [ld_tag m]\<rparr>)"
| lite_close: "\<not> lm_closing s \<Longrightarrow> consuming_loop nil U s LiteClose (s\<lparr>lm_closing := True\<rparr>)"
| lite_close_again: "lm_closing s \<Longrightarrow> consuming_loop nil U s LiteClose (s\<lparr>lm_crash := Some CloseCrash\<rparr>)"
| lite_msgs_closed: "consuming_loop nil U s LiteMsgsClosed (s\<lparr>lm_msgs_closed := True\<rparr>)"

inductive_cases consuming_loopE: "consuming_loop nil U s op t"

section \<open>Lemmas\<close>

text \<open>The states of an event that \<open>NewEvent\<close> made: its channel is closed exactly when it was acknowledged.\<close>

definition event_wf :: "'p LiteEvent \<Rightarrow> bool" where
  "event_wf e \<longleftrightarrow> le_ackSentType e \<noteq> NackSent \<and> le_ack e = OwnChan (le_ackSentType e = AckSent)"

lemma event_wf_build: "event_wf (lite_build nil U m)"
  by (simp add: event_wf_def lite_build_def NewEvent_def)

lemma event_ack_wf:
  assumes "event_wf e"
  shows "LiteEvent_Ack e = Ret (True, e\<lparr>le_ackSentType := AckSent, le_ack := OwnChan True\<rparr>)"
proof (cases "le_ackSentType e = AckSent")
  case True
  with assms show ?thesis
    by (cases e) (simp add: event_wf_def LiteEvent_Ack_def)
next
  case False
  with assms have "le_ackSentType e = NoAckSent" "le_ack e = OwnChan False"
    by (cases "le_ackSentType e"; simp add: event_wf_def)+
  then show ?thesis by (simp add: LiteEvent_Ack_def close_ack_chan_def)
qed

definition event_view :: "'p LiteEvent \<Rightarrow> string \<times> 'p" where
  "event_view e = (le_Type e, le_Payload e)"

text \<open>
  The invariant: the events handed out are those of the first messages, each well-formed; all of them
  but the one being waited for are acknowledged, and so are their messages.
\<close>

definition waiting :: "'p lite_machine \<Rightarrow> nat" where
  "waiting s = (case lm_at s of LWait m \<Rightarrow> 1 | _ \<Rightarrow> 0)"

definition lite_inv :: "'p \<Rightarrow> (string \<Rightarrow> 'p \<Rightarrow> go_error option \<times> 'p) \<Rightarrow> lite_delivery list \<Rightarrow> 'p lite_machine \<Rightarrow> bool" where
  "lite_inv nil U ms s \<longleftrightarrow>
     (let n = length (lm_events s) in
      n \<le> length ms
      \<and> map event_view (lm_events s) = map (event_view \<circ> lite_build nil U) (take n ms)
      \<and> list_all event_wf (lm_events s)
      \<and> n = length (lm_acks s) + waiting s
      \<and> lm_acks s = map ld_tag (take (length (lm_acks s)) ms)
      \<and> list_all Acked_ready (take (length (lm_acks s)) (lm_events s))
      \<and> (case lm_at s of
           LRange \<Rightarrow> lm_msgs s = drop n ms
         | LOffer m e \<Rightarrow> drop n ms = m # lm_msgs s \<and> e = lite_build nil U m
         | LWait m \<Rightarrow> n > 0 \<and> m = ms ! (n - 1) \<and> lm_msgs s = drop n ms
         | LEnded \<Rightarrow> True)
      \<and> lm_crash s \<noteq> Some AckCrash \<and> (lm_crash s = Some CloseCrash \<longrightarrow> lm_closing s))"

lemma drop_Cons_nth: "drop n xs = y # ys \<Longrightarrow> n < length xs \<and> y = xs ! n \<and> ys = drop (Suc n) xs"
  by (metis Cons_nth_drop_Suc drop_eq_Nil list.distinct(1) list.inject not_le_imp_less)

lemma lite_inv_step:
  assumes inv: "lite_inv nil U ms s" and step: "consuming_loop nil U s op t"
  shows "lite_inv nil U ms t"
  using step
proof (cases rule: consuming_loop.cases)
  case (lite_take m ms')
  then show ?thesis using inv by (auto simp: lite_inv_def Let_def waiting_def)
next
  case (lite_receive m e)
  let ?n = "length (lm_events s)"
  have d: "drop ?n ms = m # lm_msgs s" "e = lite_build nil U m"
    using inv lite_receive by (auto simp: lite_inv_def Let_def)
  then have m: "?n < length ms" "m = ms ! ?n" "lm_msgs s = drop (Suc ?n) ms"
    using drop_Cons_nth [of ?n ms m "lm_msgs s"] by simp_all
  show ?thesis
    using inv lite_receive d(2) m event_wf_build [of nil U m]
    by (auto simp: lite_inv_def Let_def waiting_def take_Suc_conv_app_nth)
next
  case (lite_ack i b e)
  have all: "list_all event_wf (lm_events s)" "list_all Acked_ready (take (length (lm_acks s)) (lm_events s))"
    using inv by (auto simp: lite_inv_def Let_def)
  have wf: "event_wf (lm_events s ! i)"
    using all(1) lite_ack(3) by (simp add: list_all_length)
  have e: "e = (lm_events s ! i)\<lparr>le_ackSentType := AckSent, le_ack := OwnChan True\<rparr>"
    using event_ack_wf [OF wf] lite_ack(4) by simp
  have "map event_view ((lm_events s)[i := e]) = map event_view (lm_events s)"
    using lite_ack(3) by (auto simp: e event_view_def map_update intro: list_update_same_conv [THEN iffD2])
  moreover have "list_all event_wf ((lm_events s)[i := e])"
    using all by (simp add: e list_all_update event_wf_def)
  moreover have "list_all Acked_ready (take (length (lm_acks s)) ((lm_events s)[i := e]))"
    using all by (simp add: e take_update_swap list_all_update Acked_ready_def)
  ultimately show ?thesis
    using inv lite_ack(1,2) by (cases "lm_at s") (auto simp: lite_inv_def Let_def waiting_def)
next
  case (lite_ack_panics i p)
  then have "event_wf (lm_events s ! i)"
    using inv by (simp add: lite_inv_def Let_def list_all_length)
  then show ?thesis using event_ack_wf lite_ack_panics by fastforce
next
  case (lite_settle m)
  let ?k = "length (lm_acks s)"
  have n: "length (lm_events s) = Suc ?k" "?k < length ms" "m = ms ! ?k"
    using inv lite_settle by (auto simp: lite_inv_def Let_def waiting_def)
  then have "last (lm_events s) = lm_events s ! ?k"
    by (metis diff_Suc_1 last_conv_nth length_0_conv nat.distinct(1))
  then have "list_all Acked_ready (lm_events s)"
    using inv lite_settle n(1) by (auto simp: lite_inv_def Let_def list_all_length less_Suc_eq)
  with n show ?thesis
    using inv lite_settle by (auto simp: lite_inv_def Let_def waiting_def take_Suc_conv_app_nth)
qed (use inv in \<open>auto simp: lite_inv_def Let_def waiting_def split: lite_pc.splits\<close>)

interpretation lite_loop: invariant_machine "lite_init ms" "consuming_loop nil U" "lite_inv nil U ms" for ms nil U
proof unfold_locales
  show "lite_inv nil U ms (lite_init ms)" by (simp add: lite_inv_def lite_init_def waiting_def)
qed (rule lite_inv_step)

lemma options_keep_routing:
  "ac_queueBind (fold apply_option opts cfg) = ac_queueBind cfg"
proof (induction opts arbitrary: cfg)
  case (Cons opt opts)
  then show ?case by (cases opt) simp_all
qed simp

lemma new_subscription_cfg:
  assumes "Lite_NewSubscription api c opts w = Ret (Inr s, w')"
  shows "ls_cfg s = fold apply_option opts NewDefaultConfig"
proof -
  obtain conn where c: "amqpConnection c = Some conn"
    using assms by (cases "amqpConnection c") (simp_all add: Lite_NewSubscription_def on_connection_def)
  obtain ch w1 where ch: "api_Channel api conn w = (Inr ch, w1)"
    using assms by (cases "api_Channel api conn w"; cases "fst (api_Channel api conn w)")
      (auto simp: Lite_NewSubscription_def on_connection_def c)
  show ?thesis
    using assms by (auto simp: Lite_NewSubscription_def on_connection_def c ch Let_def split: prod.splits option.splits)
qed

text \<open>A successful \<open>Subscribe\<close> went through each of its calls.\<close>

lemma subscribe_calls:
  assumes "LiteSubscriber_Subscribe api s topic w = Ret (Inr msgs, w')"
  obtains q k w1 where "call_generator (qc_generateName (ac_queue (ls_cfg s))) topic = Ret q"
    "call_generator (qb_generateRoutingKey (ac_queueBind (ls_cfg s))) topic = Ret k"
    "setupQueue api s k q (ec_name (ac_exchange (ls_cfg s))) w = (None, w1)"
    "createConsumer api s q w1 = (Inr msgs, w')"
proof -
  obtain q k where qk: "call_generator (qc_generateName (ac_queue (ls_cfg s))) topic = Ret q"
    "call_generator (qb_generateRoutingKey (ac_queueBind (ls_cfg s))) topic = Ret k"
    using assms by (auto simp: LiteSubscriber_Subscribe_def go_bind_eq_Ret)
  obtain err w1 where su: "setupQueue api s k q (ec_name (ac_exchange (ls_cfg s))) w = (err, w1)" by fastforce
  show ?thesis
    using that [OF qk, of w1] assms by (cases err) (auto simp: LiteSubscriber_Subscribe_def qk su)
qed

lemma setup_queue_calls:
  assumes "setupQueue api s k q ex w = (None, w')"
  obtains d r w1 where "qd_name d = q" "api_QueueDeclare api (ls_amqpChannel s) d w = (Inr r, w1)"
    "if ex = [] then w' = w1
     else api_QueueBind api (ls_amqpChannel s) q k ex (qb_noWait (ac_queueBind (ls_cfg s))) w1 = (None, w')"
proof -
  let ?c = "ac_queue (ls_cfg s)"
  let ?d = "\<lparr>qd_name = q, qd_durable = qc_durable ?c, qd_autoDelete = qc_autoDelete ?c,
    qd_exclusive = qc_exclusive ?c, qd_noWait = qc_noWait ?c, qd_args = []\<rparr>"
  obtain r w1 where dq: "api_QueueDeclare api (ls_amqpChannel s) ?d w = (Inr r, w1)"
    using assms by (cases "api_QueueDeclare api (ls_amqpChannel s) ?d w"; cases "fst (api_QueueDeclare api (ls_amqpChannel s) ?d w)")
      (auto simp: setupQueue_def)
  show ?thesis
    using that [of ?d r w1] assms dq by (auto simp: setupQueue_def Let_def split: prod.splits option.splits if_splits)
qed

section \<open>Properties\<close>

text \<open>
  C37. A subscription stops and waits: in every state that is reached the events handed out are those of
  the first messages, in order; messages are acknowledged in order, each after its event was, and at most
  the last event handed out is not yet settled. No call to \<open>Ack\<close> crashes, in whatever number they come. While the last event is not
  acknowledged nothing but its acknowledgement can release the goroutine: \<open>Close\<close> does not.
\<close>

theorem lite_stop_and_wait:
  assumes "reachable (lite_init ms) (consuming_loop nil U) s"
  shows "map event_view (lm_events s) = map (event_view \<circ> lite_build nil U) (take (length (lm_events s)) ms)
    \<and> lm_acks s = map ld_tag (take (length (lm_acks s)) ms)
    \<and> length (lm_acks s) \<le> length (lm_events s) \<and> length (lm_events s) \<le> Suc (length (lm_acks s))
    \<and> list_all Acked_ready (take (length (lm_acks s)) (lm_events s))
    \<and> lm_crash s \<noteq> Some AckCrash
    \<and> (\<forall>m op t. lm_at s = LWait m \<and> \<not> Acked_ready (last (lm_events s)) \<and> consuming_loop nil U s op t
         \<longrightarrow> lm_at t = LWait m \<and> lm_acks t = lm_acks s)"
proof -
  let ?n = "length (lm_events s)" and ?k = "length (lm_acks s)"
  have inv: "lite_inv nil U ms s" using lite_loop.inv_reachable [OF assms] .
  have stream: "map event_view (lm_events s) = map (event_view \<circ> lite_build nil U) (take ?n ms)"
    "lm_acks s = map ld_tag (take ?k ms)" "?n = ?k + waiting s" "list_all Acked_ready (take ?k (lm_events s))"
    "lm_crash s \<noteq> Some AckCrash"
    using inv unfolding lite_inv_def Let_def by blast+
  have "waiting s \<le> 1" by (simp add: waiting_def split: lite_pc.split)
  then have "?k \<le> ?n \<and> ?n \<le> Suc ?k" using stream(3) by simp
  moreover have "lm_at t = LWait m \<and> lm_acks t = lm_acks s"
    if "lm_at s = LWait m" "\<not> Acked_ready (last (lm_events s))" "consuming_loop nil U s op t" for m op t
    using that(3,1,2) by (cases rule: consuming_loop.cases) auto
  ultimately show ?thesis using stream by blast
qed

definition example_lite_msg :: lite_delivery where
  "example_lite_msg = \<lparr>ld_tag = 7, ld_RoutingKey = ''paid'', ld_Body = ''x''\<rparr>"

theorem lite_stop_and_wait_witness:
  "\<exists>s :: string lite_machine. lm_at s = LWait example_lite_msg \<and> lm_closing s
     \<and> map event_view (lm_events s) = [(''paid'', ''x'')] \<and> lm_acks s = []"
proof -
  let ?U = "\<lambda>b p. (None :: go_error option, b)" and ?m = example_lite_msg
  define s0 where "s0 = (lite_init [?m] :: string lite_machine)"
  define s1 where "s1 = s0\<lparr>lm_msgs := [], lm_at := LOffer ?m (lite_build [] ?U ?m)\<rparr>"
  define s2 where "s2 = s1\<lparr>lm_at := LWait ?m, lm_events := [lite_build [] ?U ?m]\<rparr>"
  define s3 where "s3 = s2\<lparr>lm_closing := True\<rparr>"
  note defs = s0_def s1_def s2_def s3_def lite_init_def
  have "consuming_loop [] ?U s0 LiteTake s1" using lite_take [of s0 ?m "[]"] by (simp add: defs)
  moreover have "consuming_loop [] ?U s1 LiteReceive s2" using lite_receive [of s1] by (simp add: defs)
  moreover have "consuming_loop [] ?U s2 LiteClose s3" using lite_close [of s2] by (simp add: defs)
  ultimately have "reachable (lite_init [?m]) (consuming_loop [] ?U) s3"
    unfolding s0_def [symmetric] by (meson reachable_intros)
  from lite_stop_and_wait [OF this]
  have "map event_view (lm_events s3) = map (event_view \<circ> lite_build [] ?U) (take (length (lm_events s3)) [?m])" by blast
  moreover have "lm_at s3 = LWait ?m \<and> lm_closing s3 \<and> lm_acks s3 = [] \<and> length (lm_events s3) = 1"
    by (simp add: defs)
  ultimately show ?thesis
    by (intro exI [of _ s3]) (simp add: event_view_def lite_build_def NewEvent_def example_lite_msg_def)
qed

text \<open>
  What AMQP documents of a broker: a declared queue exists; a bound queue is among the queues of its
  exchange and key; consuming changes no binding and removes no queue; a publication is appended to the
  queue named by its key on the default exchange, to the queues bound with that key on a direct one, and
  to no other.
\<close>

definition amqp_broker ::
  "('w, 'conn, 'ch, 'msgs, 'tls, 'acfg) lite_api \<Rightarrow> ('w \<Rightarrow> string \<Rightarrow> (string \<times> string) list option)
   \<Rightarrow> ('w \<Rightarrow> string \<Rightarrow> string \<Rightarrow> string \<Rightarrow> bool) \<Rightarrow> bool" where
  "amqp_broker api queue bound \<longleftrightarrow>
     (\<forall>ch d w r w'. api_QueueDeclare api ch d w = (Inr r, w') \<longrightarrow> queue w' (qd_name d) \<noteq> None)
   \<and> (\<forall>ch q k ex n w w'. api_QueueBind api ch q k ex n w = (None, w') \<longrightarrow>
        bound w' ex k q \<and> (\<forall>q'. queue w q' \<noteq> None \<longrightarrow> queue w' q' \<noteq> None))
   \<and> (\<forall>ch q tag a e l n w m w'. api_Consume api ch q tag a e l n w = (Inr m, w') \<longrightarrow>
        bound w' = bound w \<and> (\<forall>q'. queue w q' \<noteq> None \<longrightarrow> queue w' q' \<noteq> None))
   \<and> (\<forall>ch ex k m i p w w'. api_Publish api ch ex k m i p w = (None, w') \<longrightarrow>
        (\<forall>q. queue w' q = (if (if ex = [] then q = k else bound w ex k q)
                            then map_option (\<lambda>bs. bs @ [(k, pb_Body p)]) (queue w q) else queue w q)))"

lemma subscribed_queue:
  assumes "amqp_broker api queue bound" and "Lite_NewSubscription api c opts w = Ret (Inr s, w0)"
    and "LiteSubscriber_Subscribe api s topic w0' = Ret (Inr msgs, w1)"
  obtains q where "call_generator (qc_generateName (ac_queue (ls_cfg s))) topic = Ret q"
    "queue w1 q \<noteq> None" "ec_name (ac_exchange (ls_cfg s)) = [] \<or> bound w1 (ec_name (ac_exchange (ls_cfg s))) topic q"
proof -
  let ?ex = "ec_name (ac_exchange (ls_cfg s))"
  obtain q k w2 where q: "call_generator (qc_generateName (ac_queue (ls_cfg s))) topic = Ret q"
    and k: "call_generator (qb_generateRoutingKey (ac_queueBind (ls_cfg s))) topic = Ret k"
    and stp: "setupQueue api s k q ?ex w0' = (None, w2)"
    and cons: "createConsumer api s q w2 = (Inr msgs, w1)"
    using subscribe_calls [OF assms(3)] by blast
  have "k = topic"
    using k new_subscription_cfg [OF assms(2)] by (simp add: options_keep_routing NewDefaultConfig_def call_generator_def)
  obtain d r w3 where d: "qd_name d = q" "api_QueueDeclare api (ls_amqpChannel s) d w0' = (Inr r, w3)"
    "if ?ex = [] then w2 = w3
     else api_QueueBind api (ls_amqpChannel s) q k ?ex (qb_noWait (ac_queueBind (ls_cfg s))) w3 = (None, w2)"
    using setup_queue_calls [OF stp] by blast
  have "queue w3 q \<noteq> None" using assms(1) d(1,2) unfolding amqp_broker_def by metis
  then have w2: "queue w2 q \<noteq> None" "?ex = [] \<or> bound w2 ?ex topic q"
    using assms(1) d(3) \<open>k = topic\<close> unfolding amqp_broker_def by (cases "?ex = []"; metis)+
  obtain tag a e l n where "api_Consume api (ls_amqpChannel s) q tag a e l n w2 = (Inr msgs, w1)"
    using cons by (auto simp: createConsumer_def Let_def split: prod.splits sum.splits)
  then have "bound w1 = bound w2" "queue w1 q \<noteq> None"
    using assms(1) w2(1) unfolding amqp_broker_def by metis+
  with q w2(2) show ?thesis using that by simp
qed

lemma publish_call:
  assumes "LitePublisher_Publish api M p topic e w = (None, w')"
  shows "\<exists>m i pb. api_Publish api (lp_amqpChannel p) (ec_name (ac_exchange (lp_config p))) topic m i pb w = (None, w')
    \<and> pb_Body pb = Payload_String M (le_Payload e)"
  using assms by (fastforce simp: LitePublisher_Publish_def split: prod.splits option.splits)

text \<open>
  C38. An event published on a topic after a subscription to it, over the same exchange, is appended to
  the queue of that subscription, and the event handed out for it has the payload that was published.
  Its type is the topic: the type it was published with is lost. On the default exchange this needs the
  queue to be named as the topic; a subscription whose generator gives it another name gets nothing.
\<close>

theorem lite_publish_subscribe:
  assumes "amqp_broker api queue bound"
    and "Lite_NewSubscription api c opts w = Ret (Inr s, w0)"
    and "LiteSubscriber_Subscribe api s topic w0 = Ret (Inr msgs, w1)"
    and "LitePublisher_Publish api M p topic e w1 = (None, w2)"
    and "ec_name (ac_exchange (lp_config p)) = ec_name (ac_exchange (ls_cfg s))"
    and "U (Payload_String M (le_Payload e)) nil = (None, le_Payload e)"
  shows "\<exists>q bs body. call_generator (qc_generateName (ac_queue (ls_cfg s))) topic = Ret q
    \<and> queue w1 q = Some bs
    \<and> queue w2 q = Some (if ec_name (ac_exchange (ls_cfg s)) \<noteq> [] \<or> q = topic then bs @ [(topic, body)] else bs)
    \<and> event_view (lite_build nil U \<lparr>ld_tag = tag, ld_RoutingKey = topic, ld_Body = body\<rparr>) = (topic, le_Payload e)"
proof -
  let ?ex = "ec_name (ac_exchange (ls_cfg s))"
  obtain q where q: "call_generator (qc_generateName (ac_queue (ls_cfg s))) topic = Ret q" "queue w1 q \<noteq> None"
      "?ex = [] \<or> bound w1 ?ex topic q"
    using subscribed_queue [OF assms(1-3)] by blast
  obtain m i pb where pb: "api_Publish api (lp_amqpChannel p) ?ex topic m i pb w1 = (None, w2)"
      "pb_Body pb = Payload_String M (le_Payload e)"
    using publish_call [OF assms(4)] assms(5) by auto
  have "queue w2 q = (if (if ?ex = [] then q = topic else bound w1 ?ex topic q)
      then map_option (\<lambda>bs. bs @ [(topic, pb_Body pb)]) (queue w1 q) else queue w1 q)"
    by (rule assms(1) [unfolded amqp_broker_def, THEN conjunct2, THEN conjunct2, THEN conjunct2, rule_format, OF pb(1)])
  with q(2,3) obtain bs where "queue w1 q = Some bs"
      "queue w2 q = Some (if ?ex \<noteq> [] \<or> q = topic then bs @ [(topic, pb_Body pb)] else bs)"
    by (auto split: if_splits)
  moreover have "event_view (lite_build nil U \<lparr>ld_tag = tag, ld_RoutingKey = topic, ld_Body = pb_Body pb\<rparr>)
      = (topic, le_Payload e)"
    using assms(6) pb(2) by (simp add: lite_build_def NewEvent_def event_view_def)
  ultimately show ?thesis using q(1) by blast
qed

text \<open>A broker for examples: its queues, and its bindings as triples of exchange, key and queue.\<close>

type_synonym example_world = "(string \<rightharpoonup> (string \<times> string) list) \<times> (string \<times> string \<times> string) set"

definition example_lite :: "(example_world, unit, unit, string, unit, unit) lite_api" where
  "example_lite = \<lparr>api_Dial = (\<lambda>_ w. ((Some (), None), w)), api_Channel = (\<lambda>_ w. (Inr (), w)),
     api_ExchangeDeclare = (\<lambda>_ _ _ _ _ _ _ w. (None, w)),
     api_QueueDeclare = (\<lambda>_ d (qs, bs). (Inr (qd_name d), if qs (qd_name d) = None then qs(qd_name d \<mapsto> []) else qs, bs)),
     api_Publish = (\<lambda>_ ex k _ _ p (qs, bs). (None,
        (\<lambda>q. if (if ex = [] then q = k else (ex, k, q) \<in> bs) then map_option (\<lambda>ms. ms @ [(k, pb_Body p)]) (qs q) else qs q), bs)),
     api_Consume = (\<lambda>_ k _ _ _ _ _ w. (Inr k, w)),
     api_ChannelClose = (\<lambda>_ w. (None, w)), api_ConnClose = (\<lambda>_ w. (None, w)),
     api_DialTLS = (\<lambda>_ _ w. ((Some (), None), w)), api_DialConfig = (\<lambda>_ _ w. ((Some (), None), w)),
     api_QueueBind = (\<lambda>_ q k ex _ (qs, bs). (None, qs, insert (ex, k, q) bs)),
     api_Cancel = (\<lambda>_ _ _ w. (None, w))\<rparr>"

lemma example_broker: "amqp_broker example_lite fst (\<lambda>w ex k q. (ex, k, q) \<in> snd w)"
  by (auto simp: amqp_broker_def example_lite_def split: prod.splits)

theorem lite_publish_subscribe_witness:
  "\<exists>w q bs body. call_generator (GenerateQueueNameTopicNameWithPrefix ''users'') ''paid'' = Ret q
     \<and> fst w q = Some (bs @ [(''paid'', body)])
     \<and> event_view (lite_build [] (\<lambda>b p. (None, b)) \<lparr>ld_tag = 1, ld_RoutingKey = ''paid'', ld_Body = body\<rparr>) = (''paid'', ''x'')"
proof -
  let ?opts = "[WithExchangeName ''custom'', WithQueueNameGenerator (GenerateQueueNameTopicNameWithPrefix ''users'')]"
  let ?cfg = "fold apply_option ?opts NewDefaultConfig :: (unit, unit) AmqpConfig"
  let ?c = "\<lparr>amqpConnection = Some ()\<rparr>" and ?w = "(Map.empty, {}) :: example_world"
  define s where "s = \<lparr>ls_connection = ?c, ls_amqpChannel = (), ls_consumerTag = [], ls_cfg = ?cfg, ls_closing = False\<rparr>"
  define p where "p = \<lparr>lp_connection = ?c, lp_amqpChannel = (), lp_config = ?cfg\<rparr>"
  define e where "e = (NewEvent [] ''lost'')\<lparr>le_Payload := ''x''\<rparr>"
  have new: "Lite_NewSubscription example_lite ?c ?opts ?w = Ret (Inr s, ?w)"
    by (simp add: Lite_NewSubscription_def on_connection_def example_lite_def declare_exchange_def s_def)
  obtain w1 where sub: "LiteSubscriber_Subscribe example_lite s ''paid'' ?w = Ret (Inr ''users.paid'', w1)"
    by (simp add: LiteSubscriber_Subscribe_def s_def NewDefaultConfig_def call_generator_def createConsumer_def
        GenerateQueueNameTopicNameWithPrefix_def setupQueue_def example_lite_def)
  obtain w2 where pub: "LitePublisher_Publish example_lite Inr p ''paid'' e w1 = (None, w2)"
    by (cases w1) (simp add: LitePublisher_Publish_def example_lite_def p_def)
  have ex: "ec_name (ac_exchange (lp_config p)) = ec_name (ac_exchange (ls_cfg s))"
    "ec_name (ac_exchange (ls_cfg s)) = ''custom''"
    "qc_generateName (ac_queue (ls_cfg s)) = GenerateQueueNameTopicNameWithPrefix ''users''"
    by (simp_all add: p_def s_def)
  have "(\<lambda>b p. (None :: go_error option, b)) (Payload_String Inr (le_Payload e)) [] = (None, le_Payload e)"
    by (simp add: Payload_String_def)
  from lite_publish_subscribe [where U = "\<lambda>b p. (None, b)" and nil = "[]" and tag = 1, OF example_broker new sub pub ex(1) this]
  show ?thesis by (auto simp: ex e_def NewEvent_def)
qed

text \<open>
  The connection of a configuration: an AMQP configuration takes precedence over a TLS one, and this
  over neither; there are at most six attempts, of which the first that succeeds counts.
\<close>

theorem new_connection_attempts:
  assumes "\<And>i. st (Suc i) = snd (connection_operation api (ac_connection (fold apply_option opts zero_config)) (st i))"
    and "st 0 = (None, w)" and "k \<le> 5"
    and "\<And>i. i < k \<Longrightarrow> fst (connection_operation api (ac_connection (fold apply_option opts zero_config)) (st i)) \<noteq> None"
    and "fst (connection_operation api (ac_connection (fold apply_option opts zero_config)) (st k)) = None \<or> k = 5"
  shows "NewConnection retry_ref api opts w =
    (case fst (connection_operation api (ac_connection (fold apply_option opts zero_config)) (st k)) of
       None \<Rightarrow> Inr \<lparr>amqpConnection = fst (st (Suc k))\<rparr> | Some err \<Rightarrow> Inl err, snd (st (Suc k)))"
  using retry_ref_until [of st "connection_operation api (ac_connection (fold apply_option opts zero_config))" k 5] assms
  by (simp add: NewConnection_def Let_def split: option.split prod.split)

end
