(* ===== verification/Go_Path.thy ===== *)
theory Go_Path
  imports Go_Prelude
begin

text \<open>
  What the sources use of \<open>path/filepath\<close> on a system whose separator is the slash: \<open>Clean\<close>, \<open>Dir\<close>
  and \<open>Join\<close>. \<open>Clean\<close> works on the elements between the slashes: empty elements and dots go away, a
  double dot takes the element before it with it, where there is one.
\<close>

section \<open>Paths\<close>

fun split_slash :: "string \<Rightarrow> string list" where
  "split_slash [] = [[]]"
| "split_slash (c # cs) =
     (if c = CHR ''/'' then [] # split_slash cs
      else (case split_slash cs of [] \<Rightarrow> [[c]] | w # ws \<Rightarrow> (c # w) # ws))"

fun join_slash :: "string list \<Rightarrow> string" where
  "join_slash [] = []"
| "join_slash [w] = w"
| "join_slash (w # ws) = w @ ''/'' @ join_slash ws"

text \<open>The elements kept, newest first.\<close>

definition clean_element :: "bool \<Rightarrow> string list \<Rightarrow> string \<Rightarrow> string list" where
  "clean_element rooted out w =
     (if w = [] \<or> w = ''.'' then out
      else if w = ''..'' then
        (case out of
           [] \<Rightarrow> if rooted then [] else [''..'']
         | v # out' \<Rightarrow> if v = ''..'' then ''..'' # out else out')
      else w # out)"

definition clean_elements :: "bool \<Rightarrow> string list \<Rightarrow> string list" where
  "clean_elements rooted ws = rev (foldl (clean_element rooted) [] ws)"

definition is_rooted :: "string \<Rightarrow> bool" where
  "is_rooted p = (case p of [] \<Rightarrow> False | c # _ \<Rightarrow> c = CHR ''/'')"

definition filepath_Clean :: "string \<Rightarrow> string" where
  "filepath_Clean p =
     (let ws = clean_elements (is_rooted p) (split_slash p) in
      if is_rooted p then CHR ''/'' # join_slash ws
      else if ws = [] then ''.'' else join_slash ws)"

text \<open>The path up to its last slash, that included.\<close>

definition up_to_slash :: "string \<Rightarrow> string" where
  "up_to_slash p = rev (dropWhile (\<lambda>c. c \<noteq> CHR ''/'') (rev p))"

definition filepath_Dir :: "string \<Rightarrow> string" where
  "filepath_Dir p = filepath_Clean (up_to_slash p)"

fun filepath_Join :: "string list \<Rightarrow> string" where
  "filepath_Join [] = []"
| "filepath_Join (w # ws) = (if w = [] then filepath_Join ws else filepath_Clean (join_slash (w # ws)))"

declare filepath_Join.simps [simp del]

section \<open>Lengths\<close>

text \<open>The room a list of elements takes, each with a slash.\<close>

definition room :: "string list \<Rightarrow> nat" where
  "room ws = sum_list (map (\<lambda>w. Suc (length w)) ws)"

lemma room_simps [simp]:
  "room [] = 0" "room (w # ws) = Suc (length w) + room ws" "room (us @ vs) = room us + room vs" "room (rev ws) = room ws"
  by (simp_all add: room_def sum_list_rev flip: rev_map)

lemma split_slash_nonempty [simp]: "split_slash p \<noteq> []"
  by (induction p) (auto split: list.splits)

lemma room_split [simp]: "room (split_slash p) = Suc (length p)"
  by (induction p) (auto split: list.splits)

lemma length_join_slash: "ws \<noteq> [] \<Longrightarrow> Suc (length (join_slash ws)) = room ws"
  by (induction ws rule: join_slash.induct) auto

lemma room_clean_element: "room (clean_element r out w) \<le> room out + (if w = [] then 0 else Suc (length w))"
  by (auto simp: clean_element_def split: list.splits)

lemma room_foldl_clean:
  "room (foldl (clean_element r) out ws) + length (filter (\<lambda>w. w = []) ws) \<le> room out + room ws"
proof (induction ws arbitrary: out)
  case (Cons w ws)
  from Cons.IH [of "clean_element r out w"] room_clean_element [of r out w]
  show ?case by (auto split: if_splits)
qed simp

lemma room_clean: "room (clean_elements r ws) + length (filter (\<lambda>w. w = []) ws) \<le> room ws"
  using room_foldl_clean [of r "[]" ws] by (simp add: clean_elements_def)

lemma split_slash_snoc: "split_slash (p @ ''/'') = split_slash p @ [[]]"
proof (induction p)
  case (Cons c p)
  then show ?case by (cases "split_slash p") auto
qed simp

lemma up_to_slash_cases:
  obtains "up_to_slash p = []" | q where "up_to_slash p = q @ ''/''" "prefix (q @ ''/'') p"
proof (cases "dropWhile (\<lambda>c. c \<noteq> CHR ''/'') (rev p)")
  case Nil
  then show ?thesis using that(1) by (simp add: up_to_slash_def)
next
  case (Cons c q)
  then have "c = CHR ''/''" by (simp add: dropWhile_eq_Cons_conv)
  then have "up_to_slash p = rev q @ ''/''" by (simp add: up_to_slash_def Cons)
  moreover have "prefix (up_to_slash p) p"
    unfolding up_to_slash_def by (metis prefix_def rev_append rev_rev_ident takeWhile_dropWhile_id)
  ultimately show ?thesis using that(2) [of "rev q"] by simp
qed

text \<open>The directory of a path is shorter, unless it is the root or the dot.\<close>

lemma dir_shorter:
  assumes "filepath_Dir p \<noteq> ''/''" and "filepath_Dir p \<noteq> ''.''"
  shows "length (filepath_Dir p) < length p"
proof (cases rule: up_to_slash_cases [of p])
  case 1
  with assms(2) show ?thesis
    by (simp add: filepath_Dir_def filepath_Clean_def is_rooted_def clean_elements_def clean_element_def)
next
  case (2 q)
  let ?ws = "clean_elements (is_rooted (q @ ''/'')) (split_slash (q @ ''/''))"
  let ?e = "filter (\<lambda>w. w = []) (split_slash q)"
  have ws: "?ws \<noteq> []"
    using assms 2(1) by (auto simp: filepath_Dir_def filepath_Clean_def Let_def split: if_splits)
  have room: "room ?ws + length ?e + 1 \<le> length q + 2"
    using room_clean [of "is_rooted (q @ ''/'')" "split_slash (q @ ''/'')"] by (simp add: split_slash_snoc)
  have e: "?e \<noteq> [] \<or> q = []" if "is_rooted (q @ ''/'')"
    using that by (cases q) (auto simp: is_rooted_def)
  have "q \<noteq> []"
    using ws by (auto simp: clean_elements_def clean_element_def)
  then have "is_rooted (q @ ''/'') \<longrightarrow> 1 \<le> length ?e"
    using e by (cases ?e) auto
  then have "length (filepath_Dir p) \<le> length q"
    using 2(1) ws room length_join_slash [OF ws] by (auto simp: filepath_Dir_def filepath_Clean_def Let_def)
  also have "length q < length p"
    using prefix_length_le [OF 2(2)] by simp
  finally show ?thesis .
qed

lemma dir_fixed: "filepath_Dir ''/'' = ''/''" "filepath_Dir ''.'' = ''.''"
  by code_simp+

definition path_measure :: "string \<Rightarrow> nat" where
  "path_measure p = (if p = ''/'' \<or> p = ''.'' then 0 else Suc (length p))"

lemma dir_measure: "filepath_Dir p \<noteq> p \<Longrightarrow> path_measure (filepath_Dir p) < path_measure p"
  using dir_shorter [of p] dir_fixed by (auto simp: path_measure_def)

section \<open>Clean absolute paths\<close>

definition clean_word :: "string \<Rightarrow> bool" where
  "clean_word w \<longleftrightarrow> w \<noteq> [] \<and> w \<noteq> ''.'' \<and> w \<noteq> ''..'' \<and> CHR ''/'' \<notin> set w"

definition abs_path :: "string list \<Rightarrow> string" where
  "abs_path ws = CHR ''/'' # join_slash ws"

lemma split_slash_word: "CHR ''/'' \<notin> set w \<Longrightarrow> split_slash w = [w]"
  by (induction w) auto

lemma split_slash_word_append: "CHR ''/'' \<notin> set w \<Longrightarrow> split_slash (w @ CHR ''/'' # p) = w # split_slash p"
  by (induction w) auto

lemma split_join_slash: "ws \<noteq> [] \<Longrightarrow> list_all clean_word ws \<Longrightarrow> split_slash (join_slash ws) = ws"
  by (induction ws rule: join_slash.induct)
    (auto simp: split_slash_word split_slash_word_append clean_word_def)

lemma clean_elements_clean:
  assumes "list_all clean_word ws"
  shows "clean_elements r ws = ws"
proof -
  have "list_all clean_word ws \<Longrightarrow> foldl (clean_element r) out ws = rev ws @ out" for out
    by (induction ws arbitrary: out) (auto simp: clean_element_def clean_word_def)
  from this [of "[]"] show ?thesis
    using assms by (simp add: clean_elements_def)
qed

lemma clean_empty_elements: "clean_elements r ([] # ws) = clean_elements r ws" "clean_elements r (ws @ [[]]) = clean_elements r ws"
  by (simp_all add: clean_elements_def clean_element_def)

lemma clean_abs_path: "list_all clean_word ws \<Longrightarrow> filepath_Clean (abs_path ws) = abs_path ws"
  by (cases "ws = []")
    (simp_all add: filepath_Clean_def abs_path_def is_rooted_def split_join_slash clean_empty_elements clean_elements_clean)

lemma clean_abs_path_slash: "list_all clean_word ws \<Longrightarrow> ws \<noteq> [] \<Longrightarrow> filepath_Clean (abs_path ws @ ''/'') = abs_path ws"
  using split_slash_snoc [of "abs_path ws"]
  by (simp add: filepath_Clean_def abs_path_def is_rooted_def split_join_slash clean_empty_elements clean_elements_clean)

lemma join_slash_snoc: "join_slash (ws @ [w]) = (if ws = [] then w else join_slash ws @ ''/'' @ w)"
  by (induction ws rule: join_slash.induct) auto

lemma up_to_slash_word: "CHR ''/'' \<notin> set w \<Longrightarrow> up_to_slash (p @ CHR ''/'' # w) = p @ ''/''"
proof -
  assume "CHR ''/'' \<notin> set w"
  then have "dropWhile (\<lambda>c. c \<noteq> CHR ''/'') (rev w @ CHR ''/'' # rev p) = CHR ''/'' # rev p"
    by (subst dropWhile_append2) auto
  then show ?thesis by (simp add: up_to_slash_def)
qed

lemma dir_abs_path:
  assumes "list_all clean_word (ws @ [w])"
  shows "filepath_Dir (abs_path (ws @ [w])) = abs_path ws"
proof -
  have w: "CHR ''/'' \<notin> set w" "list_all clean_word ws" using assms by (simp_all add: clean_word_def)
  show ?thesis
  proof (cases "ws = []")
    case True
    then show ?thesis
      using up_to_slash_word [OF w(1), of "[]"] clean_abs_path [of "[]"] by (simp add: filepath_Dir_def abs_path_def)
  next
    case False
    then show ?thesis
      using up_to_slash_word [OF w(1), of "abs_path ws"] clean_abs_path_slash [OF w(2)]
      by (simp add: filepath_Dir_def abs_path_def join_slash_snoc)
  qed
qed

lemma dir_root: "filepath_Dir (abs_path []) = abs_path []"
  using dir_fixed(1) by (simp add: abs_path_def)

lemma join_abs_path:
  assumes "list_all clean_word ws" and "clean_word w"
  shows "filepath_Join [abs_path ws, w] = abs_path (ws @ [w])"
proof (cases "ws = []")
  case True
  then have "filepath_Join [abs_path ws, w] = filepath_Clean (CHR ''/'' # CHR ''/'' # w)" by (simp add: abs_path_def filepath_Join.simps)
  also have "\<dots> = abs_path [w]"
    using assms(2) by (simp add: filepath_Clean_def is_rooted_def split_slash_word clean_word_def clean_empty_elements abs_path_def
        clean_elements_clean [of "[w]", unfolded clean_word_def])
  finally show ?thesis using True by simp
next
  case False
  then have "filepath_Join [abs_path ws, w] = filepath_Clean (abs_path (ws @ [w]))"
    by (simp add: abs_path_def join_slash_snoc filepath_Join.simps)
  then show ?thesis using clean_abs_path [of "ws @ [w]"] assms by simp
qed

end
