(* ===== verification/Psql_Util.thy ===== *)
theory Psql_Util
  imports Go_Errors Go_Path
begin

text \<open>
  Package psqlutil (\<^verbatim>\<open>src/psqlutil\<close>): connection strings, the gorm plugin that turns database errors
  into application errors, opening a database with retries, and the search for the schema file. gorm,
  the drivers, the retrier and the file system are parameters of the definitions that use them.
\<close>

section \<open>Connection strings\<close>

record psql_ConnectionConfig =
  pq_Host :: string
  pq_Port :: string
  pq_User :: string
  pq_Password :: string
  pq_DBName :: string
  pq_SSLMode :: string

definition DSN :: "psql_ConnectionConfig \<Rightarrow> string" where
  "DSN c = ''host='' @ pq_Host c @ '' user='' @ pq_User c @ '' password='' @ pq_Password c
     @ '' dbname='' @ pq_DBName c @ '' port='' @ pq_Port c @ '' sslmode='' @ pq_SSLMode c"

definition ComposeDSN :: "string \<Rightarrow> string \<Rightarrow> string \<Rightarrow> string \<Rightarrow> string \<Rightarrow> string \<Rightarrow> string" where
  "ComposeDSN host port user password dbName sslMode =
     ''host='' @ host @ '' user='' @ user @ '' password='' @ password
     @ '' dbname='' @ dbName @ '' port='' @ port @ '' sslmode='' @ sslMode"

section \<open>The errors plugin\<close>

text \<open>The parts of a gorm transaction that are read: its error and the table of its statement.\<close>

record gorm_tx =
  tx_Error :: "go_error option"
  tx_Statement :: "string option"

record GORMErrorsPlugin =
  TableToErrorDetail :: "ErrorType \<rightharpoonup> (string \<rightharpoonup> ErrorDetail)"

abbreviation errCodeUniqueViolation :: string where "errCodeUniqueViolation \<equiv> ''23505''"
abbreviation errCodeInvalidInput :: string where "errCodeInvalidInput \<equiv> ''22P02''"
abbreviation errCodeForeignKeyViolation :: string where "errCodeForeignKeyViolation \<equiv> ''23503''"
abbreviation errCodeCheckViolation :: string where "errCodeCheckViolation \<equiv> ''23514''"

abbreviation gorm_ErrRecordNotFound :: go_error where "gorm_ErrRecordNotFound \<equiv> ErrNew ''record not found''"
abbreviation sql_ErrNoRows :: go_error where "sql_ErrNoRows \<equiv> ErrNew ''sql: no rows in result set''"

fun as_pq :: "go_error \<Rightarrow> string option" where
  "as_pq (ErrPQ c t) = Some c"
| "as_pq _ = None"

definition psql_isErrorCode :: "go_error \<Rightarrow> string \<Rightarrow> bool" where
  "psql_isErrorCode err errCode = (case errors_As as_pq err of Some c \<Rightarrow> c = errCode | None \<Rightarrow> False)"

definition plugin_Name :: string where
  "plugin_Name = ''psqlerrors''"

definition classify :: "go_error \<Rightarrow> ErrorType \<times> string" where
  "classify err =
     (if errors_Is err gorm_ErrRecordNotFound \<or> errors_Is err sql_ErrNoRows then (ErrorTypeNotFound, ''record not found'')
      else if psql_isErrorCode err errCodeInvalidInput \<or> psql_isErrorCode err errCodeForeignKeyViolation
            \<or> psql_isErrorCode err errCodeCheckViolation then (ErrorTypeInvalid, ''invalid input'')
      else if psql_isErrorCode err errCodeUniqueViolation then (ErrorTypeConflict, ''object already exists'')
      else (ErrorTypeInternalError, error_text err))"

text \<open>
  The detail of the table: a table that is not in the map has the zero detail, which is not used. A
  statement that is not there panics when its table is needed.
\<close>

definition table_details :: "GORMErrorsPlugin \<Rightarrow> ErrorType \<Rightarrow> gorm_tx \<Rightarrow> ErrorDetails go" where
  "table_details p ty tx =
     (case TableToErrorDetail p ty of
        None \<Rightarrow> Ret []
      | Some ted \<Rightarrow>
          (case tx_Statement tx of
             None \<Rightarrow> Panic ''invalid memory address or nil pointer dereference''
           | Some table \<Rightarrow>
               (let zero = \<lparr>detail_Code = [], detail_Message = []\<rparr>;
                    ed = (case ted table of None \<Rightarrow> zero | Some d \<Rightarrow> d)
                in Ret (if ed \<noteq> zero then [ed] else []))))"

definition plugin_handleError :: "GORMErrorsPlugin \<Rightarrow> gorm_tx \<Rightarrow> gorm_tx go" where
  "plugin_handleError p tx =
     (case tx_Error tx of
        None \<Rightarrow> Ret tx
      | Some err \<Rightarrow>
          (let (ty, msg) = classify err in
           go_bind (table_details p ty tx) (\<lambda>eds.
             Ret (tx\<lparr>tx_Error := Some (ErrApp \<lparr>Type = ty, Code = [], Message = msg,
               InternalMessage = error_text err, ErrorDetails = eds\<rparr>)\<rparr>))))"

text \<open>
  \<open>Initialize\<close> registers the handler with each of the six processors of gorm; all six registrations are
  made, whatever the others return. A registration names its processor, the callback it comes after and
  its own name.
\<close>

definition plugin_callbacks :: "(string \<times> string \<times> string) list" where
  "plugin_callbacks =
     [(''create'', ''gorm:create'', ''errors:after:create''), (''query'', ''gorm:query'', ''errors:after:select''),
      (''delete'', ''gorm:delete'', ''errors:after:delete''), (''update'', ''gorm:update'', ''errors:after:update''),
      (''row'', ''gorm:row'', ''errors:after:row''), (''raw'', ''gorm:raw'', ''errors:after:raw'')]"

fun register_all ::
  "(string \<Rightarrow> string \<Rightarrow> string \<Rightarrow> (gorm_tx \<Rightarrow> gorm_tx go) \<Rightarrow> 'db \<Rightarrow> go_error option \<times> 'db)
   \<Rightarrow> (gorm_tx \<Rightarrow> gorm_tx go) \<Rightarrow> (string \<times> string \<times> string) list \<Rightarrow> 'db \<Rightarrow> go_error option list \<times> 'db" where
  "register_all register cb [] db = ([], db)"
| "register_all register cb ((proc, after, name) # rs) db =
     (let (err, db1) = register proc after name cb db;
          (errs, db2) = register_all register cb rs db1
      in (err # errs, db2))"

definition plugin_Initialize ::
  "(string \<Rightarrow> string \<Rightarrow> string \<Rightarrow> (gorm_tx \<Rightarrow> gorm_tx go) \<Rightarrow> 'db \<Rightarrow> go_error option \<times> 'db)
   \<Rightarrow> GORMErrorsPlugin \<Rightarrow> 'db \<Rightarrow> go_error option \<times> 'db" where
  "plugin_Initialize register p db =
     (let (errs, db1) = register_all register (plugin_handleError p) plugin_callbacks db in (errors_Join errs, db1))"

section \<open>Opening a database\<close>

text \<open>
  The retrier is a parameter of the number of attempts and the delay in nanoseconds. The operation
  stores the database it opened, also when it fails.
\<close>

type_synonym 's retry_do = "nat \<Rightarrow> int \<Rightarrow> ('s \<Rightarrow> go_error option \<times> 's) \<Rightarrow> 's \<Rightarrow> go_error option \<times> 's"

abbreviation connectionAttempts :: nat where "connectionAttempts \<equiv> 5"
abbreviation delay_2s :: int where "delay_2s \<equiv> 2000000000"

record ('w, 'db) gorm_api =
  gorm_Open :: "string \<Rightarrow> bool \<Rightarrow> 'w \<Rightarrow> ('db option \<times> go_error option) \<times> 'w"
  gorm_Use :: "'db option \<Rightarrow> GORMErrorsPlugin \<Rightarrow> 'w \<Rightarrow> go_error option \<times> 'w"

definition gorm_operation ::
  "('w, 'db) gorm_api \<Rightarrow> string \<Rightarrow> 'db option \<times> 'w \<Rightarrow> go_error option \<times> 'db option \<times> 'w" where
  "gorm_operation api dsn = (\<lambda>(db, w). case gorm_Open api dsn True w of ((db', err), w1) \<Rightarrow> (err, db', w1))"

text \<open>The flag \<open>ignoreRecordNotFoundErr\<close> is not read.\<close>

definition GormOpen ::
  "('db option \<times> 'w) retry_do \<Rightarrow> ('w, 'db) gorm_api \<Rightarrow> string \<Rightarrow> bool \<Rightarrow> GORMErrorsPlugin option \<Rightarrow> 'w
   \<Rightarrow> 'db option result \<times> 'w" where
  "GormOpen retry api dsn ignoreRecordNotFoundErr errorPlugin w =
     (case retry connectionAttempts delay_2s (gorm_operation api dsn) (None, w) of
        (Some err, db, w1) \<Rightarrow> (Inl (wrap_with ''open db'' err), w1)
      | (None, db, w1) \<Rightarrow>
          (case errorPlugin of
             None \<Rightarrow> (Inr db, w1)
           | Some p \<Rightarrow>
               (case gorm_Use api db p w1 of
                  (Some err, w2) \<Rightarrow> (Inl (wrap_with ''use gorm errors plugin'' err), w2)
                | (None, w2) \<Rightarrow> (Inr db, w2))))"

definition MustNewSQL :: "'db \<Rightarrow> go_error option \<Rightarrow> 'db go" where
  "MustNewSQL db err = (case err of Some e \<Rightarrow> Panic (error_text e) | None \<Rightarrow> Ret db)"

record ('w, 'db) sql_driver =
  sql_Open :: "string \<Rightarrow> string \<Rightarrow> 'w \<Rightarrow> ('db option \<times> go_error option) \<times> 'w"
  sql_Ping :: "'db option \<Rightarrow> 'w \<Rightarrow> go_error option \<times> 'w"

definition sql_operation ::
  "('w, 'db) sql_driver \<Rightarrow> string \<Rightarrow> string \<Rightarrow> 'db option \<times> 'w \<Rightarrow> go_error option \<times> 'db option \<times> 'w" where
  "sql_operation api driver dsn = (\<lambda>(db, w).
     case sql_Open api driver dsn w of
       ((db', Some err), w1) \<Rightarrow> (Some (wrap_with ''open'' err), db', w1)
     | ((db', None), w1) \<Rightarrow>
         (case sql_Ping api db' w1 of
            (Some err, w2) \<Rightarrow> (Some (wrap_with ''ping'' err), db', w2)
          | (None, w2) \<Rightarrow> (None, db', w2)))"

definition SQLOpen ::
  "('db option \<times> 'w) retry_do \<Rightarrow> ('w, 'db) sql_driver \<Rightarrow> string \<Rightarrow> string \<Rightarrow> 'w \<Rightarrow> 'db option result \<times> 'w" where
  "SQLOpen retry api driver dsn w =
     (case retry connectionAttempts delay_2s (sql_operation api driver dsn) (None, w) of
        (Some err, db, w1) \<Rightarrow> (Inl (wrap_with ''open db'' err), w1)
      | (None, db, w1) \<Rightarrow> (Inr db, w1))"

section \<open>Finding the schema\<close>

abbreviation ErrUnableToResolveCaller :: go_error where
  "ErrUnableToResolveCaller \<equiv> ErrNew ''unable to resolve caller''"
abbreviation ErrProjectRootNotFound :: go_error where
  "ErrProjectRootNotFound \<equiv> ErrNew ''project root not found''"
abbreviation fs_ErrNotExist :: go_error where "fs_ErrNotExist \<equiv> ErrNew ''file does not exist''"

text \<open>
  The walk up the directories. \<open>stat_ok\<close> says for which paths \<open>os.Stat\<close> returns no error. The directory
  of a path is shorter than the path, until the root is reached.
\<close>

function walk_up :: "(string \<Rightarrow> bool) \<Rightarrow> string list \<Rightarrow> string \<Rightarrow> string result" where
  "walk_up stat_ok rootIndicators dir =
     (if list_ex (\<lambda>i. stat_ok (filepath_Join [dir, i])) rootIndicators then Inr dir
      else (let parentDir = filepath_Dir dir in
            if parentDir = dir then Inl ErrProjectRootNotFound else walk_up stat_ok rootIndicators parentDir))"
  by pat_completeness auto

termination walk_up
  by (relation "measure (\<lambda>(_, _, dir). path_measure dir)") (auto intro: dir_measure)

declare walk_up.simps [simp del]

text \<open>\<open>runtime.Caller(0)\<close> gives the file of the calling function itself, if it can be resolved.\<close>

definition getProjectRoot :: "string option \<Rightarrow> (string \<Rightarrow> bool) \<Rightarrow> string result" where
  "getProjectRoot caller0 stat_ok =
     (case caller0 of
        None \<Rightarrow> Inl ErrUnableToResolveCaller
      | Some filename \<Rightarrow> walk_up stat_ok [''go.mod''] (filepath_Dir filename))"

text \<open>
  \<open>filepath.WalkDir\<close>: a directory is visited before its entries, which come in lexical order; a
  directory whose entries cannot be read is visited again with the error. A visit continues the walk,
  ends it without an error, or ends it with one. The visitor works on a captured variable.
\<close>

datatype fsnode = FFile | FDir "go_error option" "(string \<times> fsnode) list"

datatype walk_result = WalkOn | SkipAll | WalkError go_error

type_synonym 's visitor = "string \<Rightarrow> bool \<Rightarrow> go_error option \<Rightarrow> 's \<Rightarrow> walk_result \<times> 's"

fun walk_dir :: "'s visitor \<Rightarrow> string \<Rightarrow> fsnode \<Rightarrow> 's \<Rightarrow> walk_result \<times> 's"
  and walk_entries :: "'s visitor \<Rightarrow> string \<Rightarrow> (string \<times> fsnode) list \<Rightarrow> 's \<Rightarrow> walk_result \<times> 's" where
  "walk_dir v path FFile s = v path False None s"
| "walk_dir v path (FDir rerr es) s =
     (case v path True None s of
        (WalkOn, s1) \<Rightarrow>
          (case rerr of
             None \<Rightarrow> walk_entries v path es s1
           | Some e \<Rightarrow> (case v path True (Some e) s1 of (WalkOn, s2) \<Rightarrow> walk_entries v path es s2 | r \<Rightarrow> r))
      | r \<Rightarrow> r)"
| "walk_entries v path [] s = (WalkOn, s)"
| "walk_entries v path ((n, t) # es) s =
     (case walk_dir v (filepath_Join [path, n]) t s of
        (WalkOn, s1) \<Rightarrow> walk_entries v path es s1
      | r \<Rightarrow> r)"

definition filepath_WalkDir :: "(string \<Rightarrow> fsnode result) \<Rightarrow> 's visitor \<Rightarrow> string \<Rightarrow> 's \<Rightarrow> go_error option \<times> 's" where
  "filepath_WalkDir tree v root s =
     (case (case tree root of Inl err \<Rightarrow> v root False (Some err) s | Inr t \<Rightarrow> walk_dir v root t s) of
        (WalkError err, s1) \<Rightarrow> (Some err, s1)
      | (_, s1) \<Rightarrow> (None, s1))"

text \<open>The file system: what \<open>os.Stat\<close> says of a path, the tree below a path, and the content of files.\<close>

datatype stat_result = StatOk | StatNotExist go_error | StatFailed go_error

record file_system =
  os_Stat :: "string \<Rightarrow> stat_result"
  fs_tree :: "string \<Rightarrow> fsnode result"
  os_ReadFile :: "string \<Rightarrow> string result"

abbreviation schemaFile :: string where "schemaFile \<equiv> ''schema.sql''"

definition sql_visit :: "(string \<Rightarrow> stat_result) \<Rightarrow> string visitor" where
  "sql_visit stat path isDir err sqlDirPath =
     (case err of
        Some e \<Rightarrow> (WalkError e, sqlDirPath)
      | None \<Rightarrow>
          if isDir then
            (case stat (filepath_Join [path, schemaFile]) of
               StatNotExist e \<Rightarrow> (WalkOn, sqlDirPath)
             | StatFailed e \<Rightarrow>
                 (WalkError (wrap_with (''stat '' @ CHR 0x22 # filepath_Join [path, schemaFile] @ [CHR 0x22]) e), sqlDirPath)
             | StatOk \<Rightarrow> (SkipAll, path))
          else (WalkOn, sqlDirPath))"

definition FindSQLDir :: "string option \<Rightarrow> file_system \<Rightarrow> string result" where
  "FindSQLDir caller0 fs =
     (case getProjectRoot caller0 (\<lambda>p. os_Stat fs p = StatOk) of
        Inl err \<Rightarrow> Inl (wrap_with ''get project root'' err)
      | Inr projectRoot \<Rightarrow>
          (case filepath_WalkDir (fs_tree fs) (sql_visit (os_Stat fs)) projectRoot [] of
             (Some err, _) \<Rightarrow> Inl (wrap_with ''walk project root'' err)
           | (None, sqlDirPath) \<Rightarrow> if sqlDirPath = [] then Inl fs_ErrNotExist else Inr sqlDirPath))"

definition ReadSchema :: "string option \<Rightarrow> file_system \<Rightarrow> string result" where
  "ReadSchema caller0 fs =
     (case FindSQLDir caller0 fs of
        Inl err \<Rightarrow> Inl (wrap_with ''find sql dir'' err)
      | Inr sqlDir \<Rightarrow>
          (case os_ReadFile fs (filepath_Join [filepath_Clean sqlDir, schemaFile]) of
             Inl err \<Rightarrow> Inl (wrap_with ''read schema'' err)
           | Inr schemaB \<Rightarrow> Inr schemaB))"

section \<open>Lemmas\<close>

text \<open>The directories of a tree in the order of the walk, and whether all of them can be read.\<close>

fun dirs_of :: "string \<Rightarrow> fsnode \<Rightarrow> string list" where
  "dirs_of path FFile = []"
| "dirs_of path (FDir rerr es) = path # concat (map (\<lambda>(n, t). dirs_of (filepath_Join [path, n]) t) es)"

fun readable :: "fsnode \<Rightarrow> bool" where
  "readable FFile = True"
| "readable (FDir rerr es) = (rerr = None \<and> list_all (\<lambda>(n, t). readable t) es)"

definition has_schema :: "(string \<Rightarrow> stat_result) \<Rightarrow> string \<Rightarrow> bool" where
  "has_schema stat d \<longleftrightarrow> stat (filepath_Join [d, schemaFile]) = StatOk"

definition stat_known :: "(string \<Rightarrow> stat_result) \<Rightarrow> string \<Rightarrow> bool" where
  "stat_known stat d \<longleftrightarrow> (\<forall>e. stat (filepath_Join [d, schemaFile]) \<noteq> StatFailed e)"

text \<open>The walk is a search of the directories in that order.\<close>

lemma sql_visit_dir:
  "stat_known stat p \<Longrightarrow> sql_visit stat p True None s = (if has_schema stat p then (SkipAll, p) else (WalkOn, s))"
  by (auto simp: sql_visit_def stat_known_def has_schema_def split: stat_result.splits)

lemma find_append: "find P (xs @ ys) = (case find P xs of None \<Rightarrow> find P ys | Some x \<Rightarrow> Some x)"
  by (induction xs) auto

abbreviation search_result :: "string \<Rightarrow> string option \<Rightarrow> walk_result \<times> string" where
  "search_result s r \<equiv> (case r of None \<Rightarrow> (WalkOn, s) | Some d \<Rightarrow> (SkipAll, d))"

lemma walk_finds_first:
  "readable t \<Longrightarrow> list_all (stat_known stat) (dirs_of p t) \<Longrightarrow>
     walk_dir (sql_visit stat) p t s = search_result s (find (has_schema stat) (dirs_of p t))"
  "list_all (\<lambda>(n, t). readable t) es \<Longrightarrow>
     list_all (stat_known stat) (concat (map (\<lambda>(n, t). dirs_of (filepath_Join [p, n]) t) es)) \<Longrightarrow>
     walk_entries (sql_visit stat) p es s =
       search_result s (find (has_schema stat) (concat (map (\<lambda>(n, t). dirs_of (filepath_Join [p, n]) t) es)))"
proof (induction "sql_visit stat" p t s and "sql_visit stat" p es s rule: walk_dir_walk_entries.induct)
  case (1 path s)
  then show ?case by (simp add: sql_visit_def)
next
  case (2 path rerr es s)
  then show ?case by (simp add: sql_visit_dir)
next
  case (4 path n t es s)
  then show ?case by (auto simp: find_append split: option.splits)
qed simp

text \<open>Cleaned paths are not empty, so an empty result means that nothing was found.\<close>

lemma clean_elements_nonempty: "[] \<notin> set (clean_elements r ws)"
proof -
  have "[] \<notin> set out \<Longrightarrow> [] \<notin> set (foldl (clean_element r) out ws)" for out
  proof (induction ws arbitrary: out)
    case (Cons w ws)
    have "[] \<notin> set (clean_element r out w)" using Cons.prems by (cases out; cases w) (simp_all add: clean_element_def)
    with Cons.IH show ?case by simp
  qed simp
  from this [of "[]"] show ?thesis by (simp add: clean_elements_def)
qed

lemma filepath_Clean_nonempty [simp]: "filepath_Clean p \<noteq> []"
proof -
  have "join_slash ws \<noteq> []" if "ws \<noteq> []" "[] \<notin> set ws" for ws
    using that by (cases ws rule: join_slash.cases) auto
  then show ?thesis
    using clean_elements_nonempty by (auto simp: filepath_Clean_def Let_def)
qed

lemma join_nonempty: "p \<noteq> [] \<Longrightarrow> filepath_Join [p, n] \<noteq> []"
  by (simp add: filepath_Join.simps)

lemma dirs_nonempty: "p \<noteq> [] \<Longrightarrow> [] \<notin> set (dirs_of p t)"
  by (induction p t rule: dirs_of.induct) (auto simp: join_nonempty)

lemma walk_up_nonempty: "dir \<noteq> [] \<Longrightarrow> walk_up st is dir = Inr r \<Longrightarrow> r \<noteq> []"
proof (induction st "is" dir rule: walk_up.induct)
  case (1 st "is" dir)
  then show ?case
    by (subst (asm) (2) walk_up.simps) (auto simp: Let_def filepath_Dir_def split: if_splits)
qed

lemma walk_up_abs:
  assumes "list_all clean_word ws" and "list_all clean_word is"
  shows "walk_up st is (abs_path ws) =
    (case find (\<lambda>d. list_ex (\<lambda>i. st (abs_path (d @ [i]))) is) (rev (prefixes ws)) of
       None \<Rightarrow> Inl ErrProjectRootNotFound | Some d \<Rightarrow> Inr (abs_path d))"
  using assms(1)
proof (induction ws rule: rev_induct)
  have join: "list_ex (\<lambda>i. st (filepath_Join [abs_path d, i])) is = list_ex (\<lambda>i. st (abs_path (d @ [i]))) is"
    if "list_all clean_word d" for d
    using that assms(2) by (auto simp: list_ex_iff list_all_iff join_abs_path)
  case Nil
  show ?case
    by (subst walk_up.simps) (simp add: join dir_root)
next
  case (snoc w ws)
  have join: "list_ex (\<lambda>i. st (filepath_Join [abs_path (ws @ [w]), i])) is = list_ex (\<lambda>i. st (abs_path ((ws @ [w]) @ [i]))) is"
    using snoc.prems assms(2) by (auto simp: list_ex_iff list_all_iff join_abs_path simp del: append_assoc)
  have "filepath_Dir (abs_path (ws @ [w])) = abs_path ws"
    using snoc.prems by (rule dir_abs_path)
  moreover have "abs_path ws \<noteq> abs_path (ws @ [w])"
    using snoc.prems by (auto simp: abs_path_def join_slash_snoc clean_word_def)
  ultimately show ?case
    using snoc join by (subst walk_up.simps) (simp add: prefixes_snoc)
qed

section \<open>A reader of connection strings\<close>

text \<open>
  The keyword and value format as PostgreSQL documents it: pairs separated by white space, which is also
  allowed around the equal sign. Values with quotes or backslashes are not read here (\<open>None\<close>).
\<close>

definition is_space :: "char \<Rightarrow> bool" where
  "is_space c \<longleftrightarrow> c \<in> {CHR '' '', CHR 0x09, CHR 0x0A, CHR 0x0B, CHR 0x0C, CHR 0x0D}"

definition key_char :: "char \<Rightarrow> bool" where
  "key_char c \<longleftrightarrow> c \<noteq> CHR ''='' \<and> \<not> is_space c"

definition special :: "char \<Rightarrow> bool" where
  "special c \<longleftrightarrow> c = CHR 0x27 \<or> c = CHR 0x5C"

function conninfo_read :: "string \<Rightarrow> (string \<times> string) list option" where
  "conninfo_read s0 =
     (let s = dropWhile is_space s0; key = takeWhile key_char s;
          rest = dropWhile is_space (dropWhile key_char s);
          v = dropWhile is_space (tl rest); val = takeWhile (\<lambda>c. \<not> is_space c) v
      in if s = [] then Some []
         else if key = [] \<or> rest = [] \<or> rest ! 0 \<noteq> CHR ''='' \<or> list_ex special val then None
         else map_option (Cons (key, val)) (conninfo_read (dropWhile (\<lambda>c. \<not> is_space c) v)))"
  by pat_completeness auto

termination conninfo_read
proof (relation "measure length", simp)
  fix s0 s key rest v val
  assume eqs: "s = dropWhile is_space s0" "key = takeWhile key_char s" "rest = dropWhile is_space (dropWhile key_char s)"
    "v = dropWhile is_space (tl rest)" "val = takeWhile (\<lambda>c. \<not> is_space c) v"
    and "s \<noteq> []" "\<not> (key = [] \<or> rest = [] \<or> rest ! 0 \<noteq> CHR ''='' \<or> list_ex special val)"
  then have "rest \<noteq> []" by simp
  have "length (dropWhile (\<lambda>c. \<not> is_space c) v) \<le> length v" by (rule length_dropWhile_le)
  also have "\<dots> \<le> length (tl rest)" unfolding eqs(4) by (rule length_dropWhile_le)
  also have "\<dots> < length rest" using \<open>rest \<noteq> []\<close> by simp
  also have "\<dots> \<le> length s0"
    unfolding eqs by (meson length_dropWhile_le order_trans)
  finally show "(dropWhile (\<lambda>c. \<not> is_space c) v, s0) \<in> measure length" by simp
qed

declare conninfo_read.simps [simp del]

definition plain_value :: "string \<Rightarrow> bool" where
  "plain_value v \<longleftrightarrow> v \<noteq> [] \<and> list_all (\<lambda>c. \<not> is_space c \<and> \<not> special c) v"

lemma dropWhile_prefix: "list_all P a \<Longrightarrow> b = [] \<or> \<not> P (hd b) \<Longrightarrow> dropWhile P (a @ b) = b \<and> takeWhile P (a @ b) = a"
  by (induction a) (cases b; auto)+

lemma read_space: "conninfo_read (CHR '' '' # s) = conninfo_read s"
  by (subst (1 2) conninfo_read.simps) (simp add: is_space_def)

lemma read_pair:
  assumes k: "k \<noteq> []" "list_all key_char k" and v: "plain_value v" and rest: "rest = [] \<or> is_space (hd rest)"
    and sp: "list_all is_space sp"
  shows "conninfo_read (k @ CHR ''='' # sp @ v @ rest) = map_option (Cons (k, v)) (conninfo_read rest)"
proof -
  let ?s = "k @ CHR ''='' # sp @ v @ rest"
  have eq: "\<not> key_char CHR ''=''" "\<not> is_space CHR ''=''" by (simp_all add: key_char_def is_space_def)
  have hd: "\<not> is_space (hd k)" "hd (v @ rest) = hd v" "\<not> is_space (hd v)" "list_all (\<lambda>c. \<not> is_space c) v" "\<not> list_ex special v"
    using k v by (cases k; cases v; auto simp: key_char_def plain_value_def list_all_iff list_ex_iff)+
  have "dropWhile is_space ?s = ?s" "takeWhile key_char ?s = k" "dropWhile key_char ?s = CHR ''='' # sp @ v @ rest"
    using dropWhile_prefix [of is_space "[]" ?s] dropWhile_prefix [OF k(2), of "CHR ''='' # sp @ v @ rest"] hd(1) k(1) eq by simp_all
  moreover have "dropWhile is_space (sp @ v @ rest) = v @ rest"
    using dropWhile_prefix [OF sp, of "v @ rest"] hd(2,3) by simp
  moreover have "takeWhile (\<lambda>c. \<not> is_space c) (v @ rest) = v" "dropWhile (\<lambda>c. \<not> is_space c) (v @ rest) = rest"
    using dropWhile_prefix [OF hd(4), of rest] rest by simp_all
  ultimately show ?thesis
    using k(1) hd(5) eq by (subst conninfo_read.simps) (simp add: Let_def)
qed

lemma read_end: "conninfo_read [] = Some []"
  by (subst conninfo_read.simps) simp

text \<open>The pairs of a connection string, one after the other.\<close>

lemma read_pair_more:
  assumes "k \<noteq> []" "list_all key_char k" "plain_value v"
  shows "conninfo_read (k @ CHR ''='' # v @ CHR '' '' # s) = map_option (Cons (k, v)) (conninfo_read s)"
  using read_pair [OF assms, of "CHR '' '' # s" "[]"] by (simp add: read_space is_space_def)

lemma read_pair_last:
  assumes "k \<noteq> []" "list_all key_char k" "plain_value v"
  shows "conninfo_read (k @ CHR ''='' # v) = Some [(k, v)]"
  using read_pair [OF assms, of "[]" "[]"] by (simp add: read_end)

section \<open>Properties\<close>

text \<open>
  A connection string, from either function, is read back field by field when its values are not empty
  and have no white space, quote or backslash. An empty password is not: the reader takes the database name, with its
  keyword, for the password.
\<close>

theorem dsn_read_back:
  assumes "list_all plain_value [pq_Host c, pq_User c, pq_DBName c, pq_Port c, pq_SSLMode c]"
  shows "ComposeDSN (pq_Host c) (pq_Port c) (pq_User c) (pq_Password c) (pq_DBName c) (pq_SSLMode c) = DSN c
    \<and> (plain_value (pq_Password c) \<longrightarrow>
         conninfo_read (DSN c) = Some [(''host'', pq_Host c), (''user'', pq_User c), (''password'', pq_Password c),
           (''dbname'', pq_DBName c), (''port'', pq_Port c), (''sslmode'', pq_SSLMode c)])
    \<and> (pq_Password c = [] \<longrightarrow>
         conninfo_read (DSN c) = Some [(''host'', pq_Host c), (''user'', pq_User c),
           (''password'', ''dbname='' @ pq_DBName c), (''port'', pq_Port c), (''sslmode'', pq_SSLMode c)])"
proof -
  note keys = key_char_def is_space_def
  note more = read_pair_more [of "''host''"] read_pair_more [of "''user''"] read_pair_more [of "''password''"]
    read_pair_more [of "''dbname''"] read_pair_more [of "''port''"] read_pair_last [of "''sslmode''"]
  have read: "conninfo_read (DSN c) = map_option (\<lambda>r. (''host'', pq_Host c) # (''user'', pq_User c) # r)
      (conninfo_read (''password='' @ pq_Password c @ '' dbname='' @ pq_DBName c @ '' port='' @ pq_Port c @ '' sslmode='' @ pq_SSLMode c))"
    using assms more(1,2) by (simp add: DSN_def keys option.map_comp comp_def)
  have tail: "conninfo_read (''port='' @ pq_Port c @ '' sslmode='' @ pq_SSLMode c) = Some [(''port'', pq_Port c), (''sslmode'', pq_SSLMode c)]"
    using assms more(5,6) by (simp add: keys)
  have "conninfo_read (DSN c) = Some [(''host'', pq_Host c), (''user'', pq_User c), (''password'', pq_Password c),
      (''dbname'', pq_DBName c), (''port'', pq_Port c), (''sslmode'', pq_SSLMode c)]" if "plain_value (pq_Password c)"
    using that assms tail more(3,4) unfolding read by (simp add: keys)
  moreover have "conninfo_read (DSN c) = Some [(''host'', pq_Host c), (''user'', pq_User c),
      (''password'', ''dbname='' @ pq_DBName c), (''port'', pq_Port c), (''sslmode'', pq_SSLMode c)]" if "pq_Password c = []"
  proof -
    have "plain_value (''dbname='' @ pq_DBName c)"
      using assms by (simp add: plain_value_def is_space_def special_def)
    then show ?thesis
      using that tail read_pair [of "''password''" "''dbname='' @ pq_DBName c" "'' port='' @ pq_Port c @ '' sslmode='' @ pq_SSLMode c" "'' ''"]
      unfolding read by (simp add: keys read_space [symmetric, of "''port='' @ pq_Port c @ '' sslmode='' @ pq_SSLMode c", simplified])
  qed
  ultimately show ?thesis by (simp add: DSN_def ComposeDSN_def)
qed

theorem dsn_read_back_witness:
  "conninfo_read (DSN \<lparr>pq_Host = ''db'', pq_Port = ''5432'', pq_User = ''u'', pq_Password = [], pq_DBName = ''app'',
     pq_SSLMode = ''disable''\<rparr>)
   = Some [(''host'', ''db''), (''user'', ''u''), (''password'', ''dbname=app''), (''port'', ''5432''), (''sslmode'', ''disable'')]"
  using dsn_read_back [of "\<lparr>pq_Host = ''db'', pq_Port = ''5432'', pq_User = ''u'', pq_Password = [], pq_DBName = ''app'',
     pq_SSLMode = ''disable''\<rparr>"]
  by (simp add: plain_value_def is_space_def special_def)

text \<open>
  The plugin replaces the error of every statement by an application error that keeps its text as the
  internal message. The type tells, through every wrapper, a missing record, a PostgreSQL code of invalid input or of a
  violated constraint; these have a fixed public message. Every other error becomes an internal error
  whose public message is the text of the original: so it happens to an error that was translated before, whose internal message
  becomes public. A detail is attached exactly when the table has one for the type that is not empty.
\<close>

theorem plugin_translates:
  assumes "tx_Error tx = Some err" and "tx_Statement tx = Some table"
  shows "\<exists>e. plugin_handleError p tx = Ret (tx\<lparr>tx_Error := Some (ErrApp e)\<rparr>)
    \<and> InternalMessage e = error_text err
    \<and> (Type e, Message e) =
        (if errors_Is err gorm_ErrRecordNotFound \<or> errors_Is err sql_ErrNoRows then (ErrorTypeNotFound, ''record not found'')
         else case errors_As as_pq err of
                Some c \<Rightarrow> if c \<in> {''22P02'', ''23503'', ''23514''} then (ErrorTypeInvalid, ''invalid input'')
                          else if c = ''23505'' then (ErrorTypeConflict, ''object already exists'')
                          else (ErrorTypeInternalError, error_text err)
              | None \<Rightarrow> (ErrorTypeInternalError, error_text err))
    \<and> set (ErrorDetails e) = {d. \<exists>m. TableToErrorDetail p (Type e) = Some m \<and> m table = Some d
                                  \<and> (detail_Code d \<noteq> [] \<or> detail_Message d \<noteq> [])}
    \<and> (\<exists>e'. plugin_handleError p (tx\<lparr>tx_Error := Some (ErrApp e)\<rparr>) = Ret (tx\<lparr>tx_Error := Some (ErrApp e')\<rparr>)
          \<and> Type e' = ErrorTypeInternalError \<and> Message e' = Error_Error e)"
proof -
  obtain ty msg where cl: "classify err = (ty, msg)" by fastforce
  have details: "\<exists>eds. table_details p t tx' = Ret eds
      \<and> set eds = {d. \<exists>m. TableToErrorDetail p t = Some m \<and> m table = Some d \<and> (detail_Code d \<noteq> [] \<or> detail_Message d \<noteq> [])}"
    if "tx_Statement tx' = Some table" for t tx'
    using that by (auto simp: table_details_def Let_def split: option.split)
  from details [OF assms(2), of ty] obtain eds where eds: "table_details p ty tx = Ret eds"
      "set eds = {d. \<exists>m. TableToErrorDetail p ty = Some m \<and> m table = Some d \<and> (detail_Code d \<noteq> [] \<or> detail_Message d \<noteq> [])}"
    by blast
  define e where "e = \<lparr>Type = ty, Code = [], Message = msg, InternalMessage = error_text err, ErrorDetails = eds\<rparr>"
  have handle: "plugin_handleError p tx = Ret (tx\<lparr>tx_Error := Some (ErrApp e)\<rparr>)"
    by (simp add: plugin_handleError_def assms(1) cl eds(1) e_def)
  have "(ty, msg) = (if errors_Is err gorm_ErrRecordNotFound \<or> errors_Is err sql_ErrNoRows then (ErrorTypeNotFound, ''record not found'')
         else case errors_As as_pq err of
                Some c \<Rightarrow> if c \<in> {''22P02'', ''23503'', ''23514''} then (ErrorTypeInvalid, ''invalid input'')
                          else if c = ''23505'' then (ErrorTypeConflict, ''object already exists'')
                          else (ErrorTypeInternalError, error_text err)
              | None \<Rightarrow> (ErrorTypeInternalError, error_text err))"
    unfolding cl [symmetric] by (cases "errors_As as_pq err") (auto simp: classify_def psql_isErrorCode_def)
  moreover have "classify (ErrApp e) = (ErrorTypeInternalError, Error_Error e)"
    by (simp add: classify_def psql_isErrorCode_def errors_Is_def errors_As_def)
  then have "\<exists>e'. plugin_handleError p (tx\<lparr>tx_Error := Some (ErrApp e)\<rparr>) = Ret (tx\<lparr>tx_Error := Some (ErrApp e')\<rparr>)
      \<and> Type e' = ErrorTypeInternalError \<and> Message e' = Error_Error e"
    using details [of "tx\<lparr>tx_Error := Some (ErrApp e)\<rparr>" ErrorTypeInternalError] assms(2)
    by (auto simp: plugin_handleError_def)
  ultimately show ?thesis
    using handle eds(2) by (intro exI [of _ e]) (simp add: e_def)
qed

theorem plugin_translates_witness:
  "\<exists>e. plugin_handleError \<lparr>TableToErrorDetail = [''not-found'' \<mapsto> [''users'' \<mapsto> \<lparr>detail_Code = ''U'', detail_Message = []\<rparr>]]\<rparr>
        \<lparr>tx_Error = Some (wrap_with ''select'' gorm_ErrRecordNotFound), tx_Statement = Some ''users''\<rparr>
      = Ret \<lparr>tx_Error = Some (ErrApp e), tx_Statement = Some ''users''\<rparr>
    \<and> Type e = ErrorTypeNotFound \<and> set (ErrorDetails e) = {\<lparr>detail_Code = ''U'', detail_Message = []\<rparr>}"
proof -
  define err where "err = wrap_with ''select'' gorm_ErrRecordNotFound"
  let ?tx = "\<lparr>tx_Error = Some err, tx_Statement = Some ''users''\<rparr>"
  let ?d = "\<lparr>detail_Code = ''U'', detail_Message = []\<rparr>"
  let ?p = "\<lparr>TableToErrorDetail = [''not-found'' \<mapsto> [''users'' \<mapsto> ?d]]\<rparr>"
  have "errors_Is err gorm_ErrRecordNotFound" by (simp add: err_def)
  with plugin_translates [of ?tx err "''users''" ?p]
  obtain e where e: "plugin_handleError ?p ?tx = Ret (?tx\<lparr>tx_Error := Some (ErrApp e)\<rparr>)"
    "(Type e, Message e) = (ErrorTypeNotFound, ''record not found'')"
    "set (ErrorDetails e) = {d. \<exists>m. TableToErrorDetail ?p (Type e) = Some m \<and> m ''users'' = Some d
        \<and> (detail_Code d \<noteq> [] \<or> detail_Message d \<noteq> [])}"
    by (simp only: gorm_tx.simps if_True simp_thms) blast
  have "{d. \<exists>m. TableToErrorDetail ?p ''not-found'' = Some m \<and> m ''users'' = Some d
      \<and> (detail_Code d \<noteq> [] \<or> detail_Message d \<noteq> [])} = {?d}" by auto
  with e show ?thesis unfolding err_def [symmetric] by (intro exI [of _ e]) simp
qed

text \<open>
  C39. The schema is searched from the file of the package itself: the project root is the nearest
  directory above it that has a \<open>go.mod\<close>, and there is an error when none has; the walk up always ends.
  In a readable tree \<open>FindSQLDir\<close> then gives the first directory of the root, in the order of the walk, that
  has a schema file, and an error when none has.
\<close>

theorem schema_search:
  assumes "list_all clean_word (ws @ [f])"
  shows "getProjectRoot (Some (abs_path (ws @ [f]))) (\<lambda>p. os_Stat fs p = StatOk) =
      (case find (\<lambda>d. os_Stat fs (abs_path (d @ [''go.mod''])) = StatOk) (rev (prefixes ws)) of
         None \<Rightarrow> Inl ErrProjectRootNotFound | Some d \<Rightarrow> Inr (abs_path d))
    \<and> (\<forall>d t. find (\<lambda>d. os_Stat fs (abs_path (d @ [''go.mod''])) = StatOk) (rev (prefixes ws)) = Some d
          \<and> fs_tree fs (abs_path d) = Inr t \<and> readable t \<and> list_all (stat_known (os_Stat fs)) (dirs_of (abs_path d) t) \<longrightarrow>
         FindSQLDir (Some (abs_path (ws @ [f]))) fs =
           (case find (has_schema (os_Stat fs)) (dirs_of (abs_path d) t) of None \<Rightarrow> Inl fs_ErrNotExist | Some q \<Rightarrow> Inr q))"
proof -
  have "list_all clean_word ws" "list_all clean_word [''go.mod'']"
    using assms by (simp_all add: clean_word_def)
  then have root: "getProjectRoot (Some (abs_path (ws @ [f]))) (\<lambda>p. os_Stat fs p = StatOk) =
      (case find (\<lambda>d. os_Stat fs (abs_path (d @ [''go.mod''])) = StatOk) (rev (prefixes ws)) of
         None \<Rightarrow> Inl ErrProjectRootNotFound | Some d \<Rightarrow> Inr (abs_path d))"
    by (simp add: getProjectRoot_def dir_abs_path [OF assms] walk_up_abs)
  have "FindSQLDir (Some (abs_path (ws @ [f]))) fs =
      (case find (has_schema (os_Stat fs)) (dirs_of (abs_path d) t) of None \<Rightarrow> Inl fs_ErrNotExist | Some q \<Rightarrow> Inr q)"
    if "find (\<lambda>d. os_Stat fs (abs_path (d @ [''go.mod''])) = StatOk) (rev (prefixes ws)) = Some d"
      and t: "fs_tree fs (abs_path d) = Inr t" "readable t" "list_all (stat_known (os_Stat fs)) (dirs_of (abs_path d) t)" for d t
  proof -
    have "q \<noteq> []" if "find (has_schema (os_Stat fs)) (dirs_of (abs_path d) t) = Some q" for q
    proof -
      have "q \<in> set (dirs_of (abs_path d) t)" using that by (auto simp: find_Some_iff)
      then show ?thesis using dirs_nonempty [of "abs_path d" t] by (auto simp: abs_path_def)
    qed
    then show ?thesis
      using that(1) by (auto simp: FindSQLDir_def root filepath_WalkDir_def t walk_finds_first(1) [OF t(2,3)] split: option.split)
  qed
  with root show ?thesis by blast
qed

definition example_fs :: file_system where
  "example_fs = \<lparr>os_Stat = (\<lambda>p. if p \<in> {''/m/go.mod'', ''/m/sql/schema.sql''} then StatOk else StatNotExist fs_ErrNotExist),
     fs_tree = (\<lambda>p. Inr (FDir None [(''pkg'', FDir None [(''x.go'', FFile)]), (''sql'', FDir None [(''schema.sql'', FFile)])])),
     os_ReadFile = (\<lambda>p. Inr ''create'')\<rparr>"

theorem schema_search_witness:
  "FindSQLDir (Some ''/m/pkg/x.go'') example_fs = Inr ''/m/sql''"
proof -
  let ?t = "FDir None [(''pkg'', FDir None [(''x.go'', FFile)]), (''sql'', FDir None [(''schema.sql'', FFile)])]"
  have "find (\<lambda>d. os_Stat example_fs (abs_path (d @ [''go.mod''])) = StatOk) (rev (prefixes [''m'', ''pkg''])) = Some [''m'']"
    "readable ?t" "abs_path [''m''] = ''/m''" "abs_path ([''m'', ''pkg''] @ [''x.go'']) = ''/m/pkg/x.go''"
    by (simp_all add: example_fs_def abs_path_def)
  moreover have "dirs_of ''/m'' ?t = [''/m'', ''/m/pkg'', ''/m/sql'']" by code_simp
  moreover have "filepath_Join [''/m'', schemaFile] = ''/m/schema.sql''" "filepath_Join [''/m/pkg'', schemaFile] = ''/m/pkg/schema.sql''"
    "filepath_Join [''/m/sql'', schemaFile] = ''/m/sql/schema.sql''" by code_simp+
  ultimately show ?thesis
    using schema_search [of "[''m'', ''pkg'']" "''x.go''" example_fs]
    by (simp add: clean_word_def example_fs_def stat_known_def has_schema_def)
qed

end
