(* ===== verification/Docker_Containers.thy ===== *)
theory Docker_Containers
  imports Go_Errors
begin

text \<open>
  The containers for tests: PostgreSQL (\<^verbatim>\<open>src/psqldocker\<close>), ClickHouse (\<^verbatim>\<open>src/clickhousedocker\<close>) and
  RabbitMQ (\<^verbatim>\<open>src/rabbitmq/rabbitmqdocker\<close>). The libraries that drive Docker, the databases behind
  \<open>database/sql\<close> and the HTTP client are parameters that act on a world \<open>'w\<close>; what a container is asked
  to run is data.
\<close>

section \<open>Requests\<close>

datatype wait_for = NoWait | ForLog string nat | ForListeningPort string | ForAll "wait_for list" int

text \<open>A hook acts on the container it is started for.\<close>

record ('w, 'ctr) container_request =
  cr_Name :: string
  cr_Image :: string
  cr_Hostname :: string
  cr_Cmd :: "string list"
  cr_ExposedPorts :: "string list"
  cr_Env :: "(string \<times> string) list"
  cr_Networks :: "string list"
  cr_NetworkAliases :: "(string \<times> string list) list"
  cr_WaitingFor :: wait_for
  cr_RestartPolicy :: string
  cr_PostStarts :: "('ctr \<Rightarrow> 'w \<Rightarrow> (go_error option \<times> 'w) go) list"
  cr_Reuse :: bool
  cr_Started :: bool

text \<open>
  testcontainers: creating a container may return it together with an error, when it could be created
  and not started.
\<close>

record ('w, 'ctr) testcontainers_api =
  tc_GenericContainer :: "('w, 'ctr) container_request \<Rightarrow> 'w \<Rightarrow> ('ctr option \<times> go_error + 'ctr) \<times> 'w"
  tc_Host :: "'ctr \<Rightarrow> 'w \<Rightarrow> string result \<times> 'w"
  tc_MappedPort :: "'ctr \<Rightarrow> string \<Rightarrow> 'w \<Rightarrow> string result \<times> 'w"
  tc_Terminate :: "'ctr \<Rightarrow> 'w \<Rightarrow> go_error option \<times> 'w"

record ('w, 'db) sql_api =
  db_Open :: "string \<Rightarrow> string \<Rightarrow> 'w \<Rightarrow> 'db result \<times> 'w"
  db_Ping :: "'db \<Rightarrow> 'w \<Rightarrow> go_error option \<times> 'w"
  db_Exec :: "'db \<Rightarrow> string \<Rightarrow> 'w \<Rightarrow> go_error option \<times> 'w"
  db_Close :: "'db \<Rightarrow> 'w \<Rightarrow> go_error option \<times> 'w"

text \<open>The statements in order, up to the first that fails; \<open>i\<close> is the index of the first.\<close>

fun exec_sqls :: "('w, 'db) sql_api \<Rightarrow> 'db \<Rightarrow> nat \<Rightarrow> string list \<Rightarrow> 'w \<Rightarrow> go_error option \<times> 'w" where
  "exec_sqls api db i [] w = (None, w)"
| "exec_sqls api db i (s # ss) w =
     (case db_Exec api db s w of
        (Some err, w1) \<Rightarrow> (Some (wrap_with (''execute sql '' @ dec_nat i) err), w1)
      | (None, w1) \<Rightarrow> exec_sqls api db (Suc i) ss w1)"

text \<open>The database is closed whatever the statements return; the error of closing is dropped.\<close>

definition with_db ::
  "('w, 'db) sql_api \<Rightarrow> string \<Rightarrow> string \<Rightarrow> string \<Rightarrow> ('db \<Rightarrow> 'w \<Rightarrow> go_error option \<times> 'w) \<Rightarrow> 'w
   \<Rightarrow> go_error option \<times> 'w" where
  "with_db api driver dsn msg f w =
     (case db_Open api driver dsn w of
        (Inl err, w1) \<Rightarrow> (Some (wrap_with msg err), w1)
      | (Inr db, w1) \<Rightarrow> (let (err, w2) = f db w1 in (err, snd (db_Close api db w2))))"

text \<open>\<open>time.Duration(seconds) * time.Second\<close> in 64 bits.\<close>

definition seconds_duration :: "64 word \<Rightarrow> 64 word" where
  "seconds_duration seconds = seconds * 1000000000"

section \<open>PostgreSQL\<close>

record psql_options =
  po_containerName :: string
  po_imageTag :: string
  po_dbPort :: string
  po_sqls :: "string list"
  po_startupTimeout :: "64 word"

definition psql_defaultOptions :: psql_options where
  "psql_defaultOptions = \<lparr>po_containerName = ''go-psqldocker'', po_imageTag = ''16-alpine'', po_dbPort = ''5432'',
     po_sqls = [], po_startupTimeout = 20 * 1000000000\<rparr>"

datatype psql_Option =
  PsqlContainerName string | PsqlImageTag string | PsqlSQL string | PsqlDBPort string | PsqlStartupTimeout "64 word"

fun psql_apply :: "psql_Option \<Rightarrow> psql_options \<Rightarrow> psql_options" where
  "psql_apply (PsqlContainerName c) opts = opts\<lparr>po_containerName := c\<rparr>"
| "psql_apply (PsqlImageTag t) opts = opts\<lparr>po_imageTag := t\<rparr>"
| "psql_apply (PsqlSQL s) opts = opts\<lparr>po_sqls := po_sqls opts @ [s]\<rparr>"
| "psql_apply (PsqlDBPort p) opts = opts\<lparr>po_dbPort := p\<rparr>"
| "psql_apply (PsqlStartupTimeout d) opts = opts\<lparr>po_startupTimeout := d\<rparr>"

definition psql_WithStartupTimeout :: "64 word \<Rightarrow> psql_Option" where
  "psql_WithStartupTimeout seconds = PsqlStartupTimeout (seconds_duration seconds)"

record 'ctr PsqlContainer =
  psc_user :: string
  psc_password :: string
  psc_dbName :: string
  psc_dbPort :: string
  psc_host :: string
  psc_hostPort :: string
  psc_sqls :: "string list"
  psc_containerName :: string
  psc_imageTag :: string
  psc_startupTimeout :: "64 word"
  psc_container :: "'ctr option"

definition psql_NewContainer :: "string \<Rightarrow> string \<Rightarrow> string \<Rightarrow> psql_Option list \<Rightarrow> 'ctr PsqlContainer" where
  "psql_NewContainer user password dbName opts =
     (let os = fold psql_apply opts psql_defaultOptions in
      \<lparr>psc_user = user, psc_password = password, psc_dbName = dbName, psc_dbPort = po_dbPort os, psc_host = [],
       psc_hostPort = [], psc_sqls = po_sqls os, psc_containerName = po_containerName os, psc_imageTag = po_imageTag os,
       psc_startupTimeout = po_startupTimeout os, psc_container = None\<rparr>)"

definition psql_request :: "'ctr PsqlContainer \<Rightarrow> ('w, 'ctr) container_request" where
  "psql_request c =
     (let portTCP = psc_dbPort c @ ''/tcp'' in
      \<lparr>cr_Name = psc_containerName c, cr_Image = ''postgres:'' @ psc_imageTag c, cr_Hostname = [],
       cr_Cmd = [''-p'', psc_dbPort c], cr_ExposedPorts = [portTCP],
       cr_Env = [(''POSTGRES_USER'', psc_user c), (''POSTGRES_PASSWORD'', psc_password c), (''POSTGRES_DB'', psc_dbName c)],
       cr_Networks = [], cr_NetworkAliases = [],
       cr_WaitingFor = ForAll [ForLog ''database system is ready to accept connections'' 2, ForListeningPort portTCP]
         (sint (psc_startupTimeout c)),
       cr_RestartPolicy = ''no'', cr_PostStarts = [], cr_Reuse = False, cr_Started = True\<rparr>)"

definition PsqlContainer_DSN :: "'ctr PsqlContainer \<Rightarrow> string" where
  "PsqlContainer_DSN c = ''user='' @ psc_user c @ '' password='' @ psc_password c @ '' dbname='' @ psc_dbName c
     @ '' host='' @ psc_host c @ '' port='' @ psc_hostPort c @ '' sslmode=disable''"

definition psql_executeSQLs :: "('w, 'db) sql_api \<Rightarrow> string \<Rightarrow> string list \<Rightarrow> 'w \<Rightarrow> go_error option \<times> 'w" where
  "psql_executeSQLs api dsn sqls w = with_db api ''postgres'' dsn ''open db'' (\<lambda>db. exec_sqls api db 0 sqls) w"

text \<open>A failure after the container is there terminates it; the error of that is dropped.\<close>

definition PsqlContainer_Start ::
  "('w, 'ctr) testcontainers_api \<Rightarrow> ('w, 'db) sql_api \<Rightarrow> 'ctr PsqlContainer \<Rightarrow> 'w
   \<Rightarrow> go_error option \<times> 'ctr PsqlContainer \<times> 'w" where
  "PsqlContainer_Start api sql c w =
     (case tc_GenericContainer api (psql_request c) w of
        (Inl (_, err), w1) \<Rightarrow> (Some (wrap_with ''start container'' err), c, w1)
      | (Inr ctr, w1) \<Rightarrow>
               (let c = c\<lparr>psc_container := Some ctr\<rparr> in
                case tc_Host api ctr w1 of
                  (Inl err, w2) \<Rightarrow> (Some (wrap_with ''host'' err), c, snd (tc_Terminate api ctr w2))
                | (Inr host, w2) \<Rightarrow>
                    (let c = c\<lparr>psc_host := host\<rparr> in
                     case tc_MappedPort api ctr (psc_dbPort c @ ''/tcp'') w2 of
                       (Inl err, w3) \<Rightarrow> (Some (wrap_with ''mapped port'' err), c, snd (tc_Terminate api ctr w3))
                     | (Inr port, w3) \<Rightarrow>
                         (let c = c\<lparr>psc_hostPort := port\<rparr> in
                          case psql_executeSQLs sql (PsqlContainer_DSN c) (psc_sqls c) w3 of
                            (Some err, w4) \<Rightarrow> (Some (wrap_with ''execute sqls'' err), c, snd (tc_Terminate api ctr w4))
                          | (None, w4) \<Rightarrow> (None, c, w4)))))"

definition PsqlContainer_Close ::
  "('w, 'ctr) testcontainers_api \<Rightarrow> 'ctr PsqlContainer \<Rightarrow> 'w \<Rightarrow> go_error option \<times> 'w" where
  "PsqlContainer_Close api c w =
     (case psc_container c of None \<Rightarrow> (None, w) | Some ctr \<Rightarrow> tc_Terminate api ctr w)"

section \<open>ClickHouse\<close>

text \<open>
  dockertest: pools, whose waiting time is a field that is set, the resources they run, and a retrier
  that repeats an operation for that time.
\<close>

record run_options =
  ro_Hostname :: string
  ro_Name :: string
  ro_Cmd :: "string list"
  ro_Repository :: string
  ro_Tag :: string
  ro_ExposedPorts :: "string list"
  ro_PortBindings :: "(string \<times> (string \<times> string) list) list"
  ro_Env :: "string list"

text \<open>The flags of a run are the automatic removal and the restart policy, if one is set.\<close>

record ('w, 'pool, 'res) dockertest_api =
  dt_NewPool :: "string \<Rightarrow> 'w \<Rightarrow> 'pool result \<times> 'w"
  dt_MaxWait :: "int \<Rightarrow> 'pool \<Rightarrow> 'pool"
  dt_RunWithOptions :: "'pool \<Rightarrow> run_options \<Rightarrow> bool \<Rightarrow> string option \<Rightarrow> 'w \<Rightarrow> 'res result \<times> 'w"
  dt_Expire :: "'res \<Rightarrow> nat \<Rightarrow> 'w \<Rightarrow> go_error option \<times> 'w"
  dt_GetPort :: "'res \<Rightarrow> string \<Rightarrow> string"
  dt_Retry :: "'pool \<Rightarrow> ('w \<Rightarrow> go_error option \<times> 'w) \<Rightarrow> 'w \<Rightarrow> go_error option \<times> 'w"
  dt_ResClose :: "'res \<Rightarrow> 'w \<Rightarrow> go_error option \<times> 'w"

record 'pool ch_options =
  ch_containerName :: string
  ch_imageTag :: string
  ch_poolEndpoint :: string
  ch_dbPort :: string
  ch_sqls :: "string list"
  ch_pool :: "'pool option"
  ch_expirationSeconds :: nat
  ch_pingRetryTimeout :: "64 word"

definition ch_defaultOptions :: "'pool ch_options" where
  "ch_defaultOptions = \<lparr>ch_containerName = ''go-clickhousedocker'', ch_imageTag = ''latest'', ch_poolEndpoint = [],
     ch_dbPort = ''9000'', ch_sqls = [], ch_pool = None, ch_expirationSeconds = 20, ch_pingRetryTimeout = 20 * 1000000000\<rparr>"

datatype 'pool ch_Option =
  ChContainerName string | ChImageTag string | ChSQL string | ChDBPort string | ChPool "'pool option"
| ChPoolEndpoint string | ChPingRetryTimeout "64 word" | ChExpiration nat

fun ch_apply :: "'pool ch_Option \<Rightarrow> 'pool ch_options \<Rightarrow> 'pool ch_options" where
  "ch_apply (ChContainerName c) opts = opts\<lparr>ch_containerName := c\<rparr>"
| "ch_apply (ChImageTag t) opts = opts\<lparr>ch_imageTag := t\<rparr>"
| "ch_apply (ChSQL s) opts = opts\<lparr>ch_sqls := ch_sqls opts @ [s]\<rparr>"
| "ch_apply (ChDBPort p) opts = opts\<lparr>ch_dbPort := p\<rparr>"
| "ch_apply (ChPool p) opts = opts\<lparr>ch_pool := p\<rparr>"
| "ch_apply (ChPoolEndpoint e) opts = opts\<lparr>ch_poolEndpoint := e\<rparr>"
| "ch_apply (ChPingRetryTimeout d) opts = opts\<lparr>ch_pingRetryTimeout := d\<rparr>"
| "ch_apply (ChExpiration s) opts = opts\<lparr>ch_expirationSeconds := s\<rparr>"

definition ch_WithPingRetryTimeout :: "64 word \<Rightarrow> 'pool ch_Option" where
  "ch_WithPingRetryTimeout seconds = ChPingRetryTimeout (seconds_duration seconds)"

record ('pool, 'res) ChContainer =
  chc_user :: string
  chc_password :: string
  chc_dbName :: string
  chc_dbPort :: string
  chc_hostPort :: string
  chc_sqls :: "string list"
  chc_runOptions :: run_options
  chc_expiration :: nat
  chc_res :: "'res option"
  chc_pool :: "'pool option"
  chc_poolEndpoint :: string
  chc_pingRetryTimeout :: int

fun strings_Contains :: "string \<Rightarrow> string \<Rightarrow> bool" where
  "strings_Contains [] sub \<longleftrightarrow> sub = []"
| "strings_Contains (c # s) sub \<longleftrightarrow> prefix sub (c # s) \<or> strings_Contains s sub"

definition ch_envVars :: "string \<Rightarrow> string \<Rightarrow> string \<Rightarrow> string list" where
  "ch_envVars user password dbName =
     [''CLICKHOUSE_PASSWORD='' @ password, ''CLICKHOUSE_USER='' @ user, ''CLICKHOUSE_DB='' @ dbName]"

definition ch_NewContainer :: "string \<Rightarrow> string \<Rightarrow> string \<Rightarrow> 'pool ch_Option list \<Rightarrow> ('pool, 'res) ChContainer" where
  "ch_NewContainer user password dbName opts =
     (let os = fold ch_apply opts ch_defaultOptions;
          exposed = (if strings_Contains (ch_dbPort os) ''/tcp'' then ch_dbPort os else ch_dbPort os @ ''/tcp'')
      in \<lparr>chc_user = user, chc_password = password, chc_dbName = dbName, chc_dbPort = ch_dbPort os, chc_hostPort = [],
          chc_sqls = ch_sqls os,
          chc_runOptions = \<lparr>ro_Hostname = [], ro_Name = ch_containerName os, ro_Cmd = [], ro_Repository = ''clickhouse'',
            ro_Tag = ch_imageTag os, ro_ExposedPorts = [exposed], ro_PortBindings = [], ro_Env = ch_envVars user password dbName\<rparr>,
          chc_expiration = ch_expirationSeconds os, chc_res = None, chc_pool = ch_pool os,
          chc_poolEndpoint = ch_poolEndpoint os, chc_pingRetryTimeout = sint (ch_pingRetryTimeout os)\<rparr>)"

abbreviation ErrWithPoolAndWithPoolEndpoint :: go_error where
  "ErrWithPoolAndWithPoolEndpoint \<equiv> ErrNew ''with pool and with pool endpoint are mutually exclusive''"

definition ch_newPool ::
  "('w, 'pool, 'res) dockertest_api \<Rightarrow> 'pool option \<Rightarrow> string \<Rightarrow> int \<Rightarrow> 'w \<Rightarrow> 'pool result \<times> 'w" where
  "ch_newPool api pool endpoint timeout w =
     (case pool of
        Some p \<Rightarrow> if endpoint \<noteq> [] then (Inl ErrWithPoolAndWithPoolEndpoint, w) else (Inr (dt_MaxWait api timeout p), w)
      | None \<Rightarrow>
          (case dt_NewPool api endpoint w of
             (Inl err, w1) \<Rightarrow> (Inl (wrap_with ''new pool'' err), w1)
           | (Inr p, w1) \<Rightarrow> (Inr (dt_MaxWait api timeout p), w1)))"

definition ch_startContainer ::
  "('w, 'pool, 'res) dockertest_api \<Rightarrow> 'pool \<Rightarrow> run_options \<Rightarrow> 'w \<Rightarrow> 'res result \<times> 'w" where
  "ch_startContainer api pool runOptions w = dt_RunWithOptions api pool runOptions True (Some ''no'') w"

definition ch_dsn :: "('pool, 'res) ChContainer \<Rightarrow> string" where
  "ch_dsn c = ''clickhouse://'' @ chc_user c @ '':'' @ chc_password c @ ''@localhost:'' @ chc_hostPort c @ ''/'' @ chc_dbName c"

definition ch_pingDB :: "('w, 'db) sql_api \<Rightarrow> ('pool, 'res) ChContainer \<Rightarrow> 'w \<Rightarrow> go_error option \<times> 'w" where
  "ch_pingDB sql c w = with_db sql ''clickhouse'' (ch_dsn c) ''sql open''
     (\<lambda>db w. case db_Ping sql db w of (Some err, w1) \<Rightarrow> (Some (wrap_with ''ping'' err), w1) | (None, w1) \<Rightarrow> (None, w1)) w"

definition ch_executeSQLs :: "('w, 'db) sql_api \<Rightarrow> ('pool, 'res) ChContainer \<Rightarrow> 'w \<Rightarrow> go_error option \<times> 'w" where
  "ch_executeSQLs sql c w = with_db sql ''clickhouse'' (ch_dsn c) ''sql open'' (\<lambda>db. exec_sqls sql db 0 (chc_sqls c)) w"

text \<open>
  The pool the container keeps is the one of the options; that of \<open>newPool\<close> is local. The port is asked
  for under the port of the options with the protocol appended.
\<close>

definition ChContainer_Start ::
  "('w, 'pool, 'res) dockertest_api \<Rightarrow> ('w, 'db) sql_api \<Rightarrow> ('pool, 'res) ChContainer \<Rightarrow> 'w
   \<Rightarrow> go_error option \<times> ('pool, 'res) ChContainer \<times> 'w" where
  "ChContainer_Start api sql c w =
     (case ch_newPool api (chc_pool c) (chc_poolEndpoint c) (chc_pingRetryTimeout c) w of
        (Inl err, w1) \<Rightarrow> (Some err, c, w1)
      | (Inr pool, w1) \<Rightarrow>
          (case ch_startContainer api pool (chc_runOptions c) w1 of
             (Inl err, w2) \<Rightarrow> (Some (wrap_with ''start container'' err), c, w2)
           | (Inr res, w2) \<Rightarrow>
               (let w3 = snd (dt_Expire api res (chc_expiration c) w2);
                    c = c\<lparr>chc_res := Some res, chc_hostPort := dt_GetPort api res (chc_dbPort c @ ''/tcp'')\<rparr>
                in case dt_Retry api pool (ch_pingDB sql c) w3 of
                     (Some err, w4) \<Rightarrow> (Some (wrap_with ''ping db'' err), c, snd (dt_ResClose api res w4))
                   | (None, w4) \<Rightarrow>
                       (case ch_executeSQLs sql c w4 of
                          (Some err, w5) \<Rightarrow> (Some (wrap_with ''execute sqls'' err), c, snd (dt_ResClose api res w5))
                        | (None, w5) \<Rightarrow> (None, c, w5)))))"

text \<open>Closing a container that was not started dereferences a nil resource.\<close>

definition ChContainer_Close ::
  "('w, 'pool, 'res) dockertest_api \<Rightarrow> ('pool, 'res) ChContainer \<Rightarrow> 'w \<Rightarrow> (go_error option \<times> 'w) go" where
  "ChContainer_Close api c w =
     (case chc_res c of
        None \<Rightarrow> Panic ''invalid memory address or nil pointer dereference''
      | Some res \<Rightarrow> Ret (dt_ResClose api res w))"

section \<open>RabbitMQ\<close>

record 'pool rmq_options =
  rmo_containerName :: string
  rmo_port :: string
  rmo_managementPort :: string
  rmo_pool :: "'pool option"
  rmo_expiration :: int

text \<open>The default expiration is the number 20, a duration of 20 nanoseconds.\<close>

definition rmq_defaultOptions :: "'pool rmq_options" where
  "rmq_defaultOptions = \<lparr>rmo_containerName = ''go-rabbitmqdocker'', rmo_port = ''5672'', rmo_managementPort = ''15672'',
     rmo_pool = None, rmo_expiration = 20\<rparr>"

datatype 'pool rmq_Option = RmqContainerName string | RmqPort string | RmqPool "'pool option" | RmqExpiration int

fun rmq_apply :: "'pool rmq_Option \<Rightarrow> 'pool rmq_options \<Rightarrow> 'pool rmq_options" where
  "rmq_apply (RmqContainerName c) opts = opts\<lparr>rmo_containerName := c\<rparr>"
| "rmq_apply (RmqPort p) opts = opts\<lparr>rmo_port := p\<rparr>"
| "rmq_apply (RmqPool p) opts = opts\<lparr>rmo_pool := p\<rparr>"
| "rmq_apply (RmqExpiration d) opts = opts\<lparr>rmo_expiration := d\<rparr>"

definition rmq_ports :: "'pool rmq_options \<Rightarrow> (string \<times> (string \<times> string) list) list" where
  "rmq_ports opts = [(rmo_port opts @ ''/tcp'', [(''0.0.0.0'', rmo_port opts)]),
     (rmo_managementPort opts @ ''/tcp'', [(''0.0.0.0'', rmo_managementPort opts)])]"

definition rmq_envVars :: "string \<Rightarrow> string \<Rightarrow> string list" where
  "rmq_envVars user password = [''RABBITMQ_DEFAULT_PASS='' @ password, ''RABBITMQ_DEFAULT_USER='' @ user]"

definition rmq_pool :: "('w, 'pool, 'res) dockertest_api \<Rightarrow> 'pool rmq_options \<Rightarrow> 'w \<Rightarrow> 'pool result \<times> 'w" where
  "rmq_pool api opts w =
     (case rmo_pool opts of
        Some p \<Rightarrow> (Inr p, w)
      | None \<Rightarrow>
          (case dt_NewPool api [] w of
             (Inl err, w1) \<Rightarrow> (Inl (wrap_with ''new pool'' err), w1)
           | (Inr p, w1) \<Rightarrow> (Inr (dt_MaxWait api (40 * 1000000000) p), w1)))"

abbreviation ErrInvalidStatus :: go_error where "ErrInvalidStatus \<equiv> ErrNew ''invalid status code''"

text \<open>A request answers with an error or the status code.\<close>

definition rmq_ping :: "(string \<Rightarrow> 'w \<Rightarrow> int result \<times> 'w) \<Rightarrow> string \<Rightarrow> string \<Rightarrow> string \<Rightarrow> 'w \<Rightarrow> go_error option \<times> 'w" where
  "rmq_ping http_Get user pass port w =
     (case http_Get (''http://'' @ user @ '':'' @ pass @ ''@localhost:'' @ port @ ''/api/aliveness-test/%2F'') w of
        (Inl err, w1) \<Rightarrow> (Some (wrap_with ''get request'' err), w1)
      | (Inr code, w1) \<Rightarrow> (if code \<noteq> 200 then Some ErrInvalidStatus else None, w1))"

definition rmq_startContainer ::
  "('w, 'pool, 'res) dockertest_api \<Rightarrow> 'pool \<Rightarrow> run_options \<Rightarrow> ('w \<Rightarrow> go_error option \<times> 'w) \<Rightarrow> 'w \<Rightarrow> 'res result \<times> 'w" where
  "rmq_startContainer api pool runOptions retryFunc w =
     (case dt_RunWithOptions api pool runOptions True None w of
        (Inl err, w1) \<Rightarrow> (Inl (wrap_with ''docker run'' err), w1)
      | (Inr res, w1) \<Rightarrow>
          (case dt_Retry api pool retryFunc w1 of
             (Some err, w2) \<Rightarrow> (Inl (wrap_with ''ping node'' err), snd (dt_ResClose api res w2))
           | (None, w2) \<Rightarrow> (Inr res, w2)))"

text \<open>\<open>uint(d.Seconds())\<close> for a duration in nanoseconds: its whole seconds.\<close>

definition whole_seconds :: "int \<Rightarrow> nat" where
  "whole_seconds d = nat (d div 1000000000)"

definition rmq_run_options :: "string \<Rightarrow> string \<Rightarrow> 'pool rmq_options \<Rightarrow> run_options" where
  "rmq_run_options user pass os = \<lparr>ro_Hostname = rmo_containerName os, ro_Name = rmo_containerName os, ro_Cmd = [],
     ro_Repository = ''rabbitmq'', ro_Tag = ''management-alpine'', ro_ExposedPorts = [],
     ro_PortBindings = rmq_ports os, ro_Env = rmq_envVars user pass\<rparr>"

definition rmq_NewContainer ::
  "('w, 'pool, 'res) dockertest_api \<Rightarrow> (string \<Rightarrow> 'w \<Rightarrow> int result \<times> 'w) \<Rightarrow> string \<Rightarrow> string \<Rightarrow> 'pool rmq_Option list \<Rightarrow> 'w
   \<Rightarrow> 'res result \<times> 'w" where
  "rmq_NewContainer api http_Get user pass opts w =
     (let os = fold rmq_apply opts rmq_defaultOptions in
      case rmq_pool api os w of
        (Inl err, w1) \<Rightarrow> (Inl (wrap_with ''new pool'' err), w1)
      | (Inr pool, w1) \<Rightarrow>
          (case rmq_startContainer api pool (rmq_run_options user pass os)
                  (rmq_ping http_Get user pass (rmo_managementPort os)) w1 of
             (Inl err, w2) \<Rightarrow> (Inl (wrap_with ''start container'' err), w2)
           | (Inr res, w2) \<Rightarrow> (Inr res, snd (dt_Expire api res (whole_seconds (rmo_expiration os)) w2))))"

section \<open>What the libraries promise\<close>

text \<open>
  \<open>live\<close> reads off the world which containers exist. A container that is created is new; other requests
  change nothing; a container that was terminated without an error is gone. Databases and the HTTP
  client do not touch containers, and a retrier does to them what its operation does.
\<close>

definition neutral :: "('w \<Rightarrow> 'c set) \<Rightarrow> ('w \<Rightarrow> 'a \<times> 'w) \<Rightarrow> bool" where
  "neutral live f \<longleftrightarrow> (\<forall>w. live (snd (f w)) = live w)"

definition removes :: "('w \<Rightarrow> 'c set) \<Rightarrow> ('c \<Rightarrow> 'w \<Rightarrow> go_error option \<times> 'w) \<Rightarrow> bool" where
  "removes live f \<longleftrightarrow> (\<forall>c w. fst (f c w) = None \<longrightarrow> live (snd (f c w)) = live w - {c})"

definition tc_documented :: "('w, 'ctr) testcontainers_api \<Rightarrow> ('w \<Rightarrow> 'ctr set) \<Rightarrow> bool" where
  "tc_documented api live \<longleftrightarrow>
     (\<forall>r w oc e w'. tc_GenericContainer api r w = (Inl (oc, e), w') \<longrightarrow> live w' = live w \<union> set_option oc)
   \<and> (\<forall>r w c w'. tc_GenericContainer api r w = (Inr c, w') \<and> \<not> cr_Reuse r \<longrightarrow> live w' = insert c (live w) \<and> c \<notin> live w)
   \<and> (\<forall>c. neutral live (tc_Host api c)) \<and> (\<forall>c p. neutral live (tc_MappedPort api c p)) \<and> removes live (tc_Terminate api)"

definition sql_neutral :: "('w, 'db) sql_api \<Rightarrow> ('w \<Rightarrow> 'c set) \<Rightarrow> bool" where
  "sql_neutral sql live \<longleftrightarrow>
     (\<forall>d n. neutral live (db_Open sql d n)) \<and> (\<forall>db. neutral live (db_Ping sql db))
   \<and> (\<forall>db s. neutral live (db_Exec sql db s)) \<and> (\<forall>db. neutral live (db_Close sql db))"

definition dt_documented :: "('w, 'pool, 'res) dockertest_api \<Rightarrow> ('w \<Rightarrow> 'res set) \<Rightarrow> bool" where
  "dt_documented api live \<longleftrightarrow>
     (\<forall>e. neutral live (dt_NewPool api e))
   \<and> (\<forall>p r a rp w e w'. dt_RunWithOptions api p r a rp w = (Inl e, w') \<longrightarrow> live w' = live w)
   \<and> (\<forall>p r a rp w res w'. dt_RunWithOptions api p r a rp w = (Inr res, w') \<longrightarrow> live w' = insert res (live w) \<and> res \<notin> live w)
   \<and> (\<forall>res n. neutral live (dt_Expire api res n))
   \<and> (\<forall>p f. neutral live f \<longrightarrow> neutral live (dt_Retry api p f)) \<and> removes live (dt_ResClose api)"

section \<open>Lemmas\<close>

lemma neutralD: "neutral live f \<Longrightarrow> f w = (x, w') \<Longrightarrow> live w' = live w"
  by (metis neutral_def snd_conv)

lemma exec_sqls_neutral: "sql_neutral sql live \<Longrightarrow> neutral live (exec_sqls sql db i ss)"
proof -
  assume sql: "sql_neutral sql live"
  then have exec: "neutral live (db_Exec sql db s)" for s by (simp add: sql_neutral_def)
  have "live (snd (exec_sqls sql db i ss w)) = live w" for w
    by (induction ss arbitrary: i w) (auto dest: neutralD [OF exec] split: prod.split option.split)
  then show ?thesis by (simp add: neutral_def)
qed

lemma with_db_neutral:
  assumes "sql_neutral sql live" and "\<And>db. neutral live (f db)"
  shows "neutral live (with_db sql d n m f)"
proof -
  have "neutral live (db_Open sql d n)" "\<And>db. neutral live (db_Close sql db)"
    using assms(1) by (simp_all add: sql_neutral_def)
  then show ?thesis
    using assms(2) unfolding neutral_def
    by (auto simp: with_db_def Let_def split: prod.split sum.split) (metis snd_conv)+
qed

lemma psql_execute_neutral: "sql_neutral sql live \<Longrightarrow> neutral live (psql_executeSQLs sql dsn ss)"
  using with_db_neutral [OF _ exec_sqls_neutral] by (simp add: psql_executeSQLs_def neutral_def)

lemma ch_execute_neutral: "sql_neutral sql live \<Longrightarrow> neutral live (ch_executeSQLs sql c)"
  using with_db_neutral [OF _ exec_sqls_neutral] by (simp add: ch_executeSQLs_def neutral_def)

lemma ch_ping_neutral:
  assumes "sql_neutral sql live"
  shows "neutral live (ch_pingDB sql c)"
proof -
  have "neutral live (\<lambda>w. case db_Ping sql db w of (Some err, w1) \<Rightarrow> (Some (wrap_with ''ping'' err), w1) | (None, w1) \<Rightarrow> (None, w1))" for db
    using assms by (auto simp: neutral_def sql_neutral_def split: prod.split option.split) (metis snd_conv)+
  from with_db_neutral [OF assms this] show ?thesis by (simp add: ch_pingDB_def neutral_def)
qed

lemma rmq_ping_neutral: "(\<And>url. neutral live (http_Get url)) \<Longrightarrow> neutral live (rmq_ping http_Get u p port)"
  by (auto simp: neutral_def rmq_ping_def split: prod.split sum.split) (metis snd_conv)+

text \<open>A container that was created and removed again leaves the others.\<close>

lemma removed_again:
  assumes "removes live f" and "fst (f c w2) = None" and "live w2 = insert c (live w)" and "c \<notin> live w"
  shows "live (snd (f c w2)) = live w"
  using assms by (auto simp: removes_def)

section \<open>Properties\<close>

text \<open>
  A PostgreSQL container that was started is the one new container, and closing it removes it. A start
  that fails leaves no new container, because each later failure terminates it, with one exception: when
  the library returns the container together with the error, it stays, and closing does not reach it.
\<close>

theorem psql_start_cleans_up:
  assumes "tc_documented api live" and "sql_neutral sql live" and "\<And>ctr w. fst (tc_Terminate api ctr w) = None"
  shows "case PsqlContainer_Start api sql c w of
      (None, c', w') \<Rightarrow> (\<exists>ctr. psc_container c' = Some ctr \<and> live w' = insert ctr (live w)
                             \<and> live (snd (PsqlContainer_Close api c' w')) = live w)
    | (Some err, c', w') \<Rightarrow> live w' = live w
        \<or> (\<exists>ctr e. fst (tc_GenericContainer api (psql_request c) w) = Inl (Some ctr, e)
              \<and> live w' = insert ctr (live w) \<and> psc_container c' = psc_container c)"
proof -
  note doc = assms(1) [unfolded tc_documented_def]
  have rem: "removes live (tc_Terminate api)" and nh: "\<And>c. neutral live (tc_Host api c)"
    and np: "\<And>c p. neutral live (tc_MappedPort api c p)" using doc by blast+
  note ne = psql_execute_neutral [OF assms(2)]
  have not_reused: "\<not> cr_Reuse (psql_request c)" by (simp add: psql_request_def Let_def)
  show ?thesis
  proof (cases "tc_GenericContainer api (psql_request c) w")
    case (Pair r w1)
    show ?thesis
    proof (cases r)
      case (Inl oe)
      obtain oc e where oe: "oe = (oc, e)" by fastforce
      then have "live w1 = live w \<union> set_option oc" using doc Pair Inl by blast
      then show ?thesis
        by (cases oc) (auto simp: PsqlContainer_Start_def Pair Inl oe)
    next
      case (Inr ctr)
      have "live w1 = insert ctr (live w) \<and> ctr \<notin> live w"
        using doc Pair Inr not_reused by blast
      then have new: "live w1 = insert ctr (live w)" "ctr \<notin> live w" by blast+
      note gone = removed_again [OF rem assms(3) _ new(2)]
      show ?thesis
        using new(1) gone
        by (auto simp: PsqlContainer_Start_def PsqlContainer_Close_def Pair Inr Let_def
            dest!: neutralD [OF nh] neutralD [OF np] neutralD [OF ne] split: prod.split sum.split option.split)
    qed
  qed
qed

text \<open>
  The same for the containers run with dockertest: a ClickHouse container whose start failed and a
  RabbitMQ container that could not be made leave nothing behind, and a started one is the one new container.
\<close>

theorem dockertest_start_cleans_up:
  assumes "dt_documented api live" and "sql_neutral sql live" and "\<And>url. neutral live (http_Get url)"
    and "\<And>res w. fst (dt_ResClose api res w) = None"
  shows "(case ChContainer_Start api sql c w of
        (Some err, c', w') \<Rightarrow> live w' = live w
      | (None, c', w') \<Rightarrow> (\<exists>res. chc_res c' = Some res \<and> live w' = insert res (live w)))
    \<and> (case rmq_NewContainer api http_Get user pass opts w of
        (Inl err, w') \<Rightarrow> live w' = live w
      | (Inr res, w') \<Rightarrow> live w' = insert res (live w))"
proof
  note doc = assms(1) [unfolded dt_documented_def]
  have rem: "removes live (dt_ResClose api)" and nn: "\<And>e. neutral live (dt_NewPool api e)"
    and nx: "\<And>r n. neutral live (dt_Expire api r n)" using doc by blast+
  have nr: "neutral live (dt_Retry api p f)" if "neutral live f" for p f using doc that by blast
  have run: "live w' = live w" if "dt_RunWithOptions api p r a rp w = (Inl e, w')" for p r a rp w e w'
    using doc that by blast
  have new: "live w' = insert res (live w)" "res \<notin> live w" if "dt_RunWithOptions api p r a rp w = (Inr res, w')" for p r a rp w res w'
    using doc that by blast+
  note gone = removed_again [OF rem assms(4)]
  have expire: "live (snd (dt_Expire api r n w)) = live w" for r n w using nx by (simp add: neutral_def)
  show "case ChContainer_Start api sql c w of
        (Some err, c', w') \<Rightarrow> live w' = live w
      | (None, c', w') \<Rightarrow> (\<exists>res. chc_res c' = Some res \<and> live w' = insert res (live w))"
  proof (cases "ch_newPool api (chc_pool c) (chc_poolEndpoint c) (chc_pingRetryTimeout c) w")
    case (Pair rp w1)
    then have w1: "live w1 = live w"
      by (auto simp: ch_newPool_def dest: neutralD [OF nn] split: option.splits if_splits prod.splits sum.splits)
    show ?thesis
    proof (cases rp)
      case (Inr pool)
      show ?thesis
      proof (cases "ch_startContainer api pool (chc_runOptions c) w1")
        case st: (Pair rr w2)
        show ?thesis
        proof (cases rr)
          case (Inl e)
          then show ?thesis using run st w1 by (auto simp: ChContainer_Start_def Pair \<open>rp = Inr pool\<close> ch_startContainer_def)
        next
          case res: (Inr res)
          have w2: "live w2 = insert res (live w)" "res \<notin> live w"
            using new [of pool "chc_runOptions c" True "Some ''no''" w1 res w2] st res w1 by (simp_all add: ch_startContainer_def)
          define w3 where "w3 = snd (dt_Expire api res (chc_expiration c) w2)"
          define c' where "c' = c\<lparr>chc_res := Some res, chc_hostPort := dt_GetPort api res (chc_dbPort c @ ''/tcp'')\<rparr>"
          obtain e4 w4 where w4: "dt_Retry api pool (ch_pingDB sql c') w3 = (e4, w4)" by fastforce
          obtain e5 w5 where w5: "ch_executeSQLs sql c' w4 = (e5, w5)" by fastforce
          have l4: "live w4 = insert res (live w)"
            using neutralD [OF nr [OF ch_ping_neutral [OF assms(2)]] w4] w2(1) by (simp add: w3_def expire)
          then have l5: "live w5 = insert res (live w)"
            using neutralD [OF ch_execute_neutral [OF assms(2)] w5] by simp
          have "ChContainer_Start api sql c w =
              (case e4 of Some err \<Rightarrow> (Some (wrap_with ''ping db'' err), c', snd (dt_ResClose api res w4))
               | None \<Rightarrow> (case e5 of Some err \<Rightarrow> (Some (wrap_with ''execute sqls'' err), c', snd (dt_ResClose api res w5))
                         | None \<Rightarrow> (None, c', w5)))"
            by (simp add: ChContainer_Start_def Pair \<open>rp = Inr pool\<close> st res Let_def w3_def [symmetric] c'_def [symmetric] w4 w5
                split: option.split)
          then show ?thesis
            using gone [OF l4 w2(2)] gone [OF l5 w2(2)] l5 by (cases e4; cases e5) (auto simp: c'_def)
        qed
      qed
    qed (use w1 in \<open>simp add: ChContainer_Start_def Pair\<close>)
  qed
  show "case rmq_NewContainer api http_Get user pass opts w of
        (Inl err, w') \<Rightarrow> live w' = live w
      | (Inr res, w') \<Rightarrow> live w' = insert res (live w)"
  proof (cases "rmq_pool api (fold rmq_apply opts rmq_defaultOptions) w")
    case (Pair rp w1)
    then have w1: "live w1 = live w"
      by (auto simp: rmq_pool_def dest: neutralD [OF nn] split: option.splits prod.splits sum.splits)
    let ?os = "fold rmq_apply opts rmq_defaultOptions"
    let ?ping = "rmq_ping http_Get user pass (rmo_managementPort ?os)"
    have start: "case rmq_startContainer api pool ro ?ping w1 of
        (Inl err, w') \<Rightarrow> live w' = live w | (Inr res, w') \<Rightarrow> live w' = insert res (live w)" for pool ro
    proof (cases "dt_RunWithOptions api pool ro True None w1")
      case st: (Pair rr w2)
      show ?thesis
      proof (cases rr)
        case (Inr res)
        have w2: "live w2 = insert res (live w)" "res \<notin> live w" using new [OF st [unfolded Inr]] w1 by simp_all
        obtain e3 w3 where w3: "dt_Retry api pool ?ping w2 = (e3, w3)" by fastforce
        have "live w3 = insert res (live w)"
          using neutralD [OF nr [OF rmq_ping_neutral [OF assms(3)]] w3] w2(1) by simp
        then show ?thesis
          using gone [of w3 res w] w2(2) by (cases e3) (simp_all add: rmq_startContainer_def st Inr w3)
      qed (use run st w1 in \<open>auto simp: rmq_startContainer_def\<close>)
    qed
    show ?thesis
    proof (cases rp)
      case (Inr pool)
      show ?thesis
        using start [of pool "rmq_run_options user pass ?os"]
        by (simp add: rmq_NewContainer_def Pair Inr Let_def expire split: prod.splits sum.splits)
    qed (use w1 in \<open>simp add: rmq_NewContainer_def Pair Let_def\<close>)
  qed
qed

text \<open>Libraries for examples: the world is the list of the containers, which are numbers.\<close>

definition example_tc :: "(nat list, nat) testcontainers_api" where
  "example_tc = \<lparr>tc_GenericContainer = (\<lambda>r w. (Inr (Suc (sum_list w)), Suc (sum_list w) # w)),
     tc_Host = (\<lambda>c w. (Inr ''localhost'', w)), tc_MappedPort = (\<lambda>c p w. (Inl (ErrNew ''no port''), w)),
     tc_Terminate = (\<lambda>c w. (None, removeAll c w))\<rparr>"

definition example_sql :: "(nat list, unit) sql_api" where
  "example_sql = \<lparr>db_Open = (\<lambda>_ _ w. (Inr (), w)), db_Ping = (\<lambda>_ w. (None, w)), db_Exec = (\<lambda>_ _ w. (None, w)),
     db_Close = (\<lambda>_ w. (None, w))\<rparr>"

definition example_dt :: "(nat list, unit, nat) dockertest_api" where
  "example_dt = \<lparr>dt_NewPool = (\<lambda>_ w. (Inr (), w)), dt_MaxWait = (\<lambda>_ p. p),
     dt_RunWithOptions = (\<lambda>_ _ _ _ w. (Inr (Suc (sum_list w)), Suc (sum_list w) # w)),
     dt_Expire = (\<lambda>_ _ w. (None, w)), dt_GetPort = (\<lambda>_ _. ''32000''), dt_Retry = (\<lambda>_ f. f),
     dt_ResClose = (\<lambda>r w. (None, removeAll r w))\<rparr>"

lemma sum_list_fresh: "Suc (sum_list w) \<notin> set w"
  using elem_le_sum_list [of _ w] by (metis Suc_n_not_le_n in_set_conv_nth)

lemma example_libraries:
  "tc_documented example_tc set" "sql_neutral example_sql set" "dt_documented example_dt set"
  by (auto simp: tc_documented_def example_tc_def sql_neutral_def example_sql_def dt_documented_def example_dt_def
      neutral_def removes_def sum_list_fresh)

theorem psql_start_cleans_up_witness:
  "\<exists>err c' w'. PsqlContainer_Start example_tc example_sql (psql_NewContainer ''u'' ''p'' ''d'' []) [7] = (Some err, c', w')
     \<and> set w' = {7}"
proof -
  let ?c = "psql_NewContainer ''u'' ''p'' ''d'' []"
  have terminate: "fst (tc_Terminate example_tc ctr w) = None" for ctr w by (simp add: example_tc_def)
  obtain err c' w' where st: "PsqlContainer_Start example_tc example_sql ?c [7] = (Some err, c', w')"
    by (simp add: PsqlContainer_Start_def example_tc_def Let_def)
  have "\<nexists>oe. fst (tc_GenericContainer example_tc (psql_request ?c) [7]) = Inl oe" by (simp add: example_tc_def)
  then have "set w' = set [7]"
    using psql_start_cleans_up [OF example_libraries(1,2) terminate, where c = ?c and w = "[7]"] unfolding st by auto
  with st show ?thesis by simp
qed

theorem dockertest_start_cleans_up_witness:
  "case rmq_NewContainer example_dt (\<lambda>url w. (Inr 503, w)) ''u'' ''p'' [] [7] of
     (Inl err, w') \<Rightarrow> set w' = set [7] | (Inr res, w') \<Rightarrow> set w' = insert res (set [7])"
proof -
  have "\<And>url. neutral set (\<lambda>w. (Inr 503 :: int result, w))" "\<And>res w. fst (dt_ResClose example_dt res w) = None"
    by (simp_all add: neutral_def example_dt_def)
  from dockertest_start_cleans_up [OF example_libraries(3,2) this,
      where w = "[7]" and user = "''u''" and pass = "''p''" and opts = "[]"]
  show ?thesis by (rule conjunct2)
qed

text \<open>
  The options that misbehave: seconds are turned into nanoseconds exactly up to 9223372036, which is 292
  years; a ClickHouse port that names its protocol is exposed under that name and asked for under another;
  the default expiration of a RabbitMQ container is zero seconds.
\<close>

theorem container_options:
  "(0 \<le> sint (seconds_duration s) \<and> sint (seconds_duration s) = uint s * 1000000000 \<longleftrightarrow> uint s \<le> 9223372036)
   \<and> ro_ExposedPorts (chc_runOptions (ch_NewContainer u p d [ChDBPort ''9000/tcp''])) = [''9000/tcp'']
   \<and> chc_dbPort (ch_NewContainer u p d [ChDBPort ''9000/tcp'']) @ ''/tcp'' = ''9000/tcp/tcp''
   \<and> whole_seconds (rmo_expiration rmq_defaultOptions) = 0"
proof -
  have "0 \<le> sint (seconds_duration s) \<and> sint (seconds_duration s) = uint s * 1000000000 \<longleftrightarrow> uint s \<le> 9223372036"
  proof
    assume *: "0 \<le> sint (seconds_duration s) \<and> sint (seconds_duration s) = uint s * 1000000000"
    have "sint (seconds_duration s) < 2 ^ 63" using sint_lt [of "seconds_duration s"] by simp
    with * show "uint s \<le> 9223372036" by simp
  next
    assume *: "uint s \<le> 9223372036"
    have u: "uint (seconds_duration s) = uint s * 1000000000"
      unfolding seconds_duration_def using * by (subst uint_mult_lem [THEN iffD1]) auto
    have "0 \<le> uint s * 1000000000" by simp
    then have "- (2 ^ 63) \<le> uint s * 1000000000" by (rule order_trans [rotated]) simp
    moreover have "uint s * 1000000000 < 2 ^ 63" using * by simp
    ultimately have "sint (seconds_duration s) = uint (seconds_duration s)"
      unfolding sint_uint u by (intro signed_take_bit_int_eq_self) simp_all
    with u show "0 \<le> sint (seconds_duration s) \<and> sint (seconds_duration s) = uint s * 1000000000" by simp
  qed
  then show ?thesis
    by (simp add: ch_NewContainer_def ch_defaultOptions_def Let_def rmq_defaultOptions_def whole_seconds_def)
qed

end
