(* ===== verification/Kafka_Docker.thy ===== *)
theory Kafka_Docker
  imports Docker_Containers "HOL-Library.Multiset"
begin

text \<open>
  The Kafka cluster for tests (\<^verbatim>\<open>src/kafkadocker\<close>): a cluster with ZooKeeper and several brokers, or one
  broker that is its own controller, with the start scripts that are put into the containers, the
  addresses of the brokers and the probe of their health. Docker, the Kafka client and the retrier are
  parameters. The goroutines of an \<open>errgroup\<close> run in an order that is a parameter too.
\<close>

section \<open>Strings\<close>

fun split_on :: "char \<Rightarrow> string \<Rightarrow> string list" where
  "split_on sep [] = [[]]"
| "split_on sep (c # cs) =
     (if c = sep then [] # split_on sep cs
      else (case split_on sep cs of [] \<Rightarrow> [[c]] | w # ws \<Rightarrow> (c # w) # ws))"

definition strings_LastIndex :: "string \<Rightarrow> string \<Rightarrow> int" where
  "strings_LastIndex s sub =
     (case find (\<lambda>i. prefix sub (drop i s)) (rev [0..<Suc (length s)]) of None \<Rightarrow> -1 | Some i \<Rightarrow> int i)"

definition quoted :: "string \<Rightarrow> string" where
  "quoted s = CHR 0x22 # s @ [CHR 0x22]"

abbreviation newline :: char where "newline \<equiv> CHR 0x0A"

section \<open>Groups of goroutines\<close>

text \<open>
  The functions of a group, in the order \<open>sched\<close> gives; each is told whether the context of the group is
  cancelled, which the first error does. \<open>Wait\<close> returns the first error when all have returned.
\<close>

fun eg_run :: "(bool \<Rightarrow> 's \<Rightarrow> go_error option \<times> 's) list \<Rightarrow> go_error option \<Rightarrow> 's \<Rightarrow> go_error option \<times> 's" where
  "eg_run [] err s = (err, s)"
| "eg_run (f # fs) err s =
     (case f (err \<noteq> None) s of (e, s1) \<Rightarrow> eg_run fs (case err of None \<Rightarrow> e | Some _ \<Rightarrow> err) s1)"

definition eg_Wait :: "(nat \<Rightarrow> nat list) \<Rightarrow> (bool \<Rightarrow> 's \<Rightarrow> go_error option \<times> 's) list \<Rightarrow> 's \<Rightarrow> go_error option \<times> 's" where
  "eg_Wait sched fs s = eg_run (map (\<lambda>i. fs ! i) (sched (length fs))) None s"

definition schedule :: "(nat \<Rightarrow> nat list) \<Rightarrow> bool" where
  "schedule sched \<longleftrightarrow> (\<forall>n. mset (sched n) = mset [0..<n])"

section \<open>The cluster\<close>

abbreviation ErrBrokerAlreadyStarted :: go_error where "ErrBrokerAlreadyStarted \<equiv> ErrNew ''broker already started''"
abbreviation ErrBrokerWasNotStarted :: go_error where "ErrBrokerWasNotStarted \<equiv> ErrNew ''broker was not started''"
abbreviation ErrBrokerNotConnected :: go_error where "ErrBrokerNotConnected \<equiv> ErrNew ''broker not connected''"

record 'ctr brokerContainer =
  bc_Container :: 'ctr
  bc_hostAddress :: string

record ('ctr, 'net) Cluster =
  cl_Brokers :: int
  cl_Topics :: "string list"
  cl_HealthProbe :: bool
  cl_Kraft :: bool
  cl_zookeeperContainer :: "'ctr option"
  cl_brokerContainers :: "'ctr brokerContainer list"
  cl_started :: bool
  cl_network :: "'net option"

definition BrokerAddresses :: "('ctr, 'net) Cluster \<Rightarrow> string list" where
  "BrokerAddresses c = map bc_hostAddress (cl_brokerContainers c)"

text \<open>
  The further calls of the container library: termination is told whether its context is cancelled. A
  file of a container is opened, read and closed; files are put into it with a mode. The client of the
  brokers is opened, asked and closed by address.
\<close>

record ('w, 'ctr, 'net, 'rd) kafka_api = "('w, 'ctr) testcontainers_api" +
  kc_TerminateCtx :: "bool \<Rightarrow> 'ctr \<Rightarrow> 'w \<Rightarrow> go_error option \<times> 'w"
  kc_Name :: "'ctr \<Rightarrow> 'w \<Rightarrow> string result \<times> 'w"
  kc_Start :: "'ctr \<Rightarrow> 'w \<Rightarrow> go_error option \<times> 'w"
  kc_CopyTo :: "'ctr \<Rightarrow> string \<Rightarrow> string \<Rightarrow> nat \<Rightarrow> 'w \<Rightarrow> go_error option \<times> 'w"
  kc_CopyFrom :: "'ctr \<Rightarrow> string \<Rightarrow> 'w \<Rightarrow> 'rd result \<times> 'w"
  kc_ReadAll :: "'rd \<Rightarrow> 'w \<Rightarrow> string result \<times> 'w"
  kc_CloseReader :: "'rd \<Rightarrow> 'w \<Rightarrow> go_error option \<times> 'w"
  kc_Parallel :: "('w, 'ctr) container_request list \<Rightarrow> 'w \<Rightarrow> ('ctr list \<times> go_error option) \<times> 'w"
  kc_NewNetwork :: "'w \<Rightarrow> 'net result \<times> 'w"
  kc_NetworkName :: "'net \<Rightarrow> string"
  kc_RemoveNetwork :: "'net \<Rightarrow> 'w \<Rightarrow> go_error option \<times> 'w"
  kb_Open :: "string \<Rightarrow> 'w \<Rightarrow> go_error option \<times> 'w"
  kb_Connected :: "string \<Rightarrow> 'w \<Rightarrow> bool result \<times> 'w"
  kb_Heartbeat :: "string \<Rightarrow> 'w \<Rightarrow> go_error option \<times> 'w"
  kb_Close :: "string \<Rightarrow> 'w \<Rightarrow> go_error option \<times> 'w"

type_synonym 's retry_fun = "nat \<Rightarrow> int \<Rightarrow> ('s \<Rightarrow> go_error option \<times> 's) \<Rightarrow> 's \<Rightarrow> go_error option \<times> 's"

abbreviation starterScriptName :: string where "starterScriptName \<equiv> ''/testcontainers_start.sh''"
abbreviation run_script :: string where "run_script \<equiv> ''/etc/confluent/docker/run''"
abbreviation fileMode755 :: nat where "fileMode755 \<equiv> 493"

definition starter_cmd :: "string list" where
  "starter_cmd = [''sh'', ''-c'',
     ''while [ ! -f '' @ starterScriptName @ '' ]; do sleep 0.1; done; '' @ starterScriptName]"

section \<open>Start scripts\<close>

text \<open>
  The line that exports the listeners goes behind the last \<open>fi\<close> of the script; where there is none, the
  index is -1 and the line goes behind the second byte. A script that is too short for that panics.
\<close>

definition insert_export :: "string \<Rightarrow> string \<Rightarrow> string go" where
  "insert_export startScript listeners =
     (let lastFiIdx = strings_LastIndex startScript (''fi'' @ [newline]); at = nat (lastFiIdx + 3) in
      if at > length startScript then Panic ''slice bounds out of range''
      else Ret (take at startScript
             @ [newline] @ ''export KAFKA_ADVERTISED_LISTENERS='' @ listeners @ '';env'' @ [newline]
             @ drop at startScript))"

definition read_start_script ::
  "('w, 'ctr, 'net, 'rd) kafka_api \<Rightarrow> 'ctr \<Rightarrow> 'w \<Rightarrow> string result \<times> 'w" where
  "read_start_script api ctr w =
     (case kc_CopyFrom api ctr run_script w of
        (Inl err, w1) \<Rightarrow> (Inl (wrap_with ''copy start script from container'' err), w1)
      | (Inr rd, w1) \<Rightarrow>
          (case kc_ReadAll api rd w1 of
             (Inl err, w2) \<Rightarrow> (Inl (wrap_with ''read start script'' err), w2)
           | (Inr ss, w2) \<Rightarrow>
               (case kc_CloseReader api rd w2 of
                  (Some err, w3) \<Rightarrow> (Inl (wrap_with ''close start script reader'' err), w3)
                | (None, w3) \<Rightarrow> (Inr ss, w3))))"

definition write_start_script ::
  "('w, 'ctr, 'net, 'rd) kafka_api \<Rightarrow> 'ctr \<Rightarrow> string \<Rightarrow> string \<Rightarrow> 'w \<Rightarrow> (go_error option \<times> 'w) go" where
  "write_start_script api ctr startScript listeners w =
     go_bind (insert_export startScript listeners) (\<lambda>script.
       case kc_CopyTo api ctr script starterScriptName fileMode755 w of
         (Some err, w1) \<Rightarrow> Ret (Some (wrap_with ''copy start script to container'' err), w1)
       | (None, w1) \<Rightarrow> Ret (None, w1))"

text \<open>The hook of the single broker: the mapped port is appended to the address when it is known.\<close>

definition kraft_port_op ::
  "('w, 'ctr, 'net, 'rd) kafka_api \<Rightarrow> 'ctr \<Rightarrow> string \<times> 'w \<Rightarrow> go_error option \<times> string \<times> 'w" where
  "kraft_port_op api ctr = (\<lambda>(addr, w).
     case tc_MappedPort api ctr ''9092/tcp'' w of
       (Inl err, w1) \<Rightarrow> (Some (wrap_with ''get hook mapped port'' err), addr, w1)
     | (Inr p, w1) \<Rightarrow> (None, addr @ p, w1))"

definition kraft_hook ::
  "(string \<times> 'w) retry_fun \<Rightarrow> ('w, 'ctr, 'net, 'rd) kafka_api \<Rightarrow> 'ctr \<Rightarrow> 'w \<Rightarrow> (go_error option \<times> 'w) go" where
  "kraft_hook retry api ctr w =
     (case retry 5 100000000 (kraft_port_op api ctr) (''BROKER://localhost:'', w) of
        (Some err, addr, w1) \<Rightarrow> Ret (Some (wrap_with ''get advertised listener address'' err), w1)
      | (None, addr, w1) \<Rightarrow>
          (case read_start_script api ctr w1 of
             (Inl err, w2) \<Rightarrow> Ret (Some err, w2)
           | (Inr startScript, w2) \<Rightarrow> write_start_script api ctr startScript addr w2))"

text \<open>
  The hook of a broker of the ZooKeeper cluster: a group of two goroutines finds the address and reads
  the script, each storing its result in a variable of the hook.
\<close>

definition broker_address_op ::
  "('w, 'ctr, 'net, 'rd) kafka_api \<Rightarrow> string \<Rightarrow> 'ctr \<Rightarrow> string \<times> string \<times> 'w \<Rightarrow> go_error option \<times> string \<times> string \<times> 'w" where
  "broker_address_op api portTCP ctr = (\<lambda>(addr, script, w).
     case tc_MappedPort api ctr portTCP w of
       (Inl err, w1) \<Rightarrow> (Some (wrap_with ''get hook mapped port'' err), addr, script, w1)
     | (Inr p, w1) \<Rightarrow>
         (case tc_Host api ctr w1 of
            (Inl err, w2) \<Rightarrow> (Some (wrap_with ''get hook host'' err), addr, script, w2)
          | (Inr h, w2) \<Rightarrow> (None, h @ '':'' @ p, script, w2)))"

definition broker_script_op ::
  "('w, 'ctr, 'net, 'rd) kafka_api \<Rightarrow> 'ctr \<Rightarrow> string \<times> string \<times> 'w \<Rightarrow> go_error option \<times> string \<times> string \<times> 'w" where
  "broker_script_op api ctr = (\<lambda>(addr, script, w).
     case read_start_script api ctr w of
       (Inl err, w1) \<Rightarrow> (Some err, addr, script, w1)
     | (Inr ss, w1) \<Rightarrow> (None, addr, ss, w1))"

definition broker_hook ::
  "(nat \<Rightarrow> nat list) \<Rightarrow> (string \<times> string \<times> 'w) retry_fun \<Rightarrow> ('w, 'ctr, 'net, 'rd) kafka_api \<Rightarrow> string \<Rightarrow> string
   \<Rightarrow> 'ctr \<Rightarrow> 'w \<Rightarrow> (go_error option \<times> 'w) go" where
  "broker_hook sched retry api containerName port ctr w =
     (case eg_Wait sched [\<lambda>_. retry 5 100000000 (broker_address_op api (port @ ''/tcp'') ctr), \<lambda>_. broker_script_op api ctr]
             ([], [], w) of
        (Some err, _, _, w1) \<Rightarrow> Ret (Some err, w1)
      | (None, addr, startScript, w1) \<Rightarrow>
          write_start_script api ctr startScript
            (''EXTERNAL://'' @ addr @ '',INTERNAL://'' @ containerName @ '':2'' @ port) w1)"

section \<open>The single broker\<close>

definition kraft_env :: "(string \<times> string) list" where
  "kraft_env =
     [(''KAFKA_PROCESS_ROLES'', ''controller,broker''), (''KAFKA_NODE_ID'', ''1''),
      (''CLUSTER_ID'', ''h6EwvA-jRU6omVykKrSg1w''),
      (''KAFKA_LISTENER_SECURITY_PROTOCOL_MAP'', ''CONTROLLER:PLAINTEXT,BROKER:SASL_PLAINTEXT''),
      (''KAFKA_LISTENERS'', ''BROKER://kafkadocker:9092,CONTROLLER://kafkadocker:9093''),
      (''KAFKA_CONTROLLER_LISTENER_NAMES'', ''CONTROLLER''),
      (''KAFKA_CONTROLLER_QUORUM_VOTERS'', ''1@kafkadocker:9093''),
      (''KAFKA_INTER_BROKER_LISTENER_NAME'', ''BROKER''), (''KAFKA_SASL_ENABLED_MECHANISMS'', ''PLAIN''),
      (''KAFKA_SASL_MECHANISM_INTER_BROKER_PROTOCOL'', ''PLAIN''), (''KAFKA_OFFSETS_TOPIC_REPLICATION_FACTOR'', ''1''),
      (''KAFKA_TRANSACTION_STATE_LOG_REPLICATION_FACTOR'', ''1''), (''KAFKA_TRANSACTION_STATE_LOG_MIN_ISR'', ''1''),
      (''KAFKA_GROUP_INITIAL_REBALANCE_DELAY_MS'', ''0''),
      (''KAFKA_OPTS'', ''-Djava.security.auth.login.config=/etc/kafka/kafka_server_jaas.conf'')]"

definition kraft_request ::
  "(string \<times> 'w) retry_fun \<Rightarrow> ('w, 'ctr, 'net, 'rd) kafka_api \<Rightarrow> string \<Rightarrow> ('w, 'ctr) container_request" where
  "kraft_request retry api networkName =
     \<lparr>cr_Name = ''kafkadocker'', cr_Image = ''confluentinc/cp-kafka:7.7.1'', cr_Hostname = ''kafkadocker'',
      cr_Cmd = starter_cmd, cr_ExposedPorts = [''9092/tcp''], cr_Env = kraft_env,
      cr_Networks = [networkName], cr_NetworkAliases = [(networkName, [''kafkadocker''])],
      cr_WaitingFor = ForLog ''Kafka Server started'' 1, cr_RestartPolicy = ''unless-stopped'',
      cr_PostStarts = [kraft_hook retry api], cr_Reuse = True, cr_Started = False\<rparr>"

definition jaas_config :: string where
  "jaas_config =
     ''KafkaServer {'' @ newline #
     ''  org.apache.kafka.common.security.plain.PlainLoginModule required'' @ newline #
     ''  username='' @ quoted ''admin'' @ newline #
     ''  password='' @ quoted ''admin-secret'' @ newline #
     ''  user_admin='' @ quoted ''admin-secret'' @ newline #
     ''  user_user1='' @ quoted ''user1-secret'' @ newline #
     ''  user_user2='' @ quoted ''user2-secret'' @ '';'' @ newline # ''};''"

text \<open>The addresses of the brokers, one after the other; those found before a failure are kept.\<close>

fun assign_addresses ::
  "(nat \<Rightarrow> 'ctr \<Rightarrow> 'w \<Rightarrow> (string result \<times> 'w) go) \<Rightarrow> nat \<Rightarrow> 'ctr brokerContainer list \<Rightarrow> 'w
   \<Rightarrow> (go_error option \<times> 'ctr brokerContainer list \<times> 'w) go" where
  "assign_addresses f i [] w = Ret (None, [], w)"
| "assign_addresses f i (b # bs) w =
     go_bind (f i (bc_Container b) w) (\<lambda>(r, w1).
       case r of
         Inl err \<Rightarrow> Ret (Some err, b # bs, w1)
       | Inr a \<Rightarrow> go_bind (assign_addresses f (Suc i) bs w1) (\<lambda>(e, bs', w2).
           Ret (e, b\<lparr>bc_hostAddress := a\<rparr> # bs', w2)))"

definition kraft_address ::
  "('w, 'ctr, 'net, 'rd) kafka_api \<Rightarrow> nat \<Rightarrow> 'ctr \<Rightarrow> 'w \<Rightarrow> (string result \<times> 'w) go" where
  "kraft_address api i ctr w =
     (case tc_Host api ctr w of
        (Inl err, w1) \<Rightarrow> Ret (Inl (wrap_with (''get broker container '' @ dec_nat i @ '' ip'') err), w1)
      | (Inr ip, w1) \<Rightarrow>
          (case tc_MappedPort api ctr ''9092/tcp'' w1 of
             (Inl err, w2) \<Rightarrow> Ret (Inl (wrap_with (''get broker container '' @ dec_nat i @ '' mapped port'') err), w2)
           | (Inr port, w2) \<Rightarrow> Ret (Inr (ip @ '':'' @ port), w2)))"

definition startKraftCluster ::
  "(string \<times> 'w) retry_fun \<Rightarrow> ('w, 'ctr, 'net, 'rd) kafka_api \<Rightarrow> string \<Rightarrow> ('ctr, 'net) Cluster \<Rightarrow> 'w
   \<Rightarrow> (go_error option \<times> ('ctr, 'net) Cluster \<times> 'w) go" where
  "startKraftCluster retry api networkName c w =
     (case tc_GenericContainer api (kraft_request retry api networkName) w of
        (Inl (_, err), w1) \<Rightarrow> Ret (Some (wrap_with ''create broker controller container'' err), c, w1)
      | (Inr ctr, w1) \<Rightarrow>
          (case kc_CopyTo api ctr jaas_config ''/etc/kafka/kafka_server_jaas.conf'' fileMode755 w1 of
             (Some err, w2) \<Rightarrow> Ret (Some (wrap_with ''copy jaas config to container'' err), c, w2)
           | (None, w2) \<Rightarrow>
               (case kc_Start api ctr w2 of
                  (Some err, w3) \<Rightarrow> Ret (Some (wrap_with ''start broker controller container'' err), c, w3)
                | (None, w3) \<Rightarrow>
                    go_bind (assign_addresses (kraft_address api) 0 [\<lparr>bc_Container = ctr, bc_hostAddress = []\<rparr>] w3)
                      (\<lambda>(e, bcs, w4). Ret (e, c\<lparr>cl_brokerContainers := bcs\<rparr>, w4)))))"

section \<open>The ZooKeeper cluster\<close>

definition zookeeper_request :: "string \<Rightarrow> ('w, 'ctr) container_request" where
  "zookeeper_request networkName =
     \<lparr>cr_Name = ''kafkadocker-zookeeper'', cr_Image = ''confluentinc/cp-zookeeper:7.7.1'', cr_Hostname = [], cr_Cmd = [],
      cr_ExposedPorts = [],
      cr_Env = [(''ZOOKEEPER_SERVER_ID'', ''1''), (''ZOOKEEPER_CLIENT_PORT'', ''2181''), (''ZOOKEEPER_TICK_TIME'', ''2000'')],
      cr_Networks = [networkName], cr_NetworkAliases = [(networkName, [''kafkadocker-zookeeper''])],
      cr_WaitingFor = ForLog ''binding to port'' 1, cr_RestartPolicy = ''unless-stopped'',
      cr_PostStarts = [], cr_Reuse = True, cr_Started = True\<rparr>"

definition broker_name :: "nat \<Rightarrow> string" where
  "broker_name brokerID = ''kafkadocker-broker-'' @ dec_nat brokerID"

definition broker_port :: "nat \<Rightarrow> string" where
  "broker_port brokerID = ''909'' @ dec_nat brokerID"

definition broker_request ::
  "(nat \<Rightarrow> nat list) \<Rightarrow> (string \<times> string \<times> 'w) retry_fun \<Rightarrow> ('w, 'ctr, 'net, 'rd) kafka_api \<Rightarrow> string \<Rightarrow> nat
   \<Rightarrow> ('w, 'ctr) container_request" where
  "broker_request sched retry api networkName brokerID =
     (let containerName = broker_name brokerID; port = broker_port brokerID in
      \<lparr>cr_Name = containerName, cr_Image = ''confluentinc/cp-kafka:7.7.1'', cr_Hostname = [], cr_Cmd = starter_cmd,
       cr_ExposedPorts = [port @ ''/tcp''],
       cr_Env =
         [(''KAFKA_BROKER_ID'', dec_nat brokerID), (''KAFKA_ZOOKEEPER_CONNECT'', ''kafkadocker-zookeeper:2181''),
          (''KAFKA_LISTENER_SECURITY_PROTOCOL_MAP'', ''INTERNAL:PLAINTEXT,EXTERNAL:PLAINTEXT''),
          (''KAFKA_INTER_BROKER_LISTENER_NAME'', ''INTERNAL''), (''KAFKA_DELETE_TOPIC_ENABLE'', ''true''),
          (''KAFKA_AUTO_CREATE_TOPICS_ENABLE'', ''true''), (''KAFKA_OFFSETS_TOPIC_REPLICATION_FACTOR'', ''1''),
          (''KAFKA_LISTENERS'', ''EXTERNAL://0.0.0.0:'' @ port @ '',INTERNAL://0.0.0.0:2'' @ port)],
       cr_Networks = [networkName], cr_NetworkAliases = [(networkName, [containerName])],
       cr_WaitingFor = NoWait, cr_RestartPolicy = ''unless-stopped'',
       cr_PostStarts = [broker_hook sched retry api containerName port], cr_Reuse = True, cr_Started = True\<rparr>)"

text \<open>The number of a broker is the third part of its name, and decides the port it is asked for.\<close>

definition broker_address ::
  "('w, 'ctr, 'net, 'rd) kafka_api \<Rightarrow> nat \<Rightarrow> 'ctr \<Rightarrow> 'w \<Rightarrow> (string result \<times> 'w) go" where
  "broker_address api i ctr w =
     (case tc_Host api ctr w of
        (Inl err, w1) \<Rightarrow> Ret (Inl (wrap_with (''get broker container '' @ dec_nat i @ '' ip'') err), w1)
      | (Inr ip, w1) \<Rightarrow>
          (case kc_Name api ctr w1 of
             (Inl err, w2) \<Rightarrow> Ret (Inl (wrap_with (''get broker container '' @ dec_nat i @ '' name'') err), w2)
           | (Inr name, w2) \<Rightarrow>
               (let parts = split_on (CHR ''-'') name in
                if length parts \<le> 2 then Panic ''index out of range''
                else (case tc_MappedPort api ctr (''909'' @ parts ! 2 @ ''/tcp'') w2 of
                        (Inl err, w3) \<Rightarrow> Ret (Inl (wrap_with (''get broker container '' @ dec_nat i @ '' mapped port'') err), w3)
                      | (Inr port, w3) \<Rightarrow> Ret (Inr (ip @ '':'' @ port), w3)))))"

text \<open>
  One probe of a broker: its deferred \<open>Close\<close> comes after everything else, also after the explicit one. The
  retrier is called with its defaults, ten attempts 100 milliseconds apart.
\<close>

definition probe_op :: "('w, 'ctr, 'net, 'rd) kafka_api \<Rightarrow> string \<Rightarrow> 'w \<Rightarrow> go_error option \<times> 'w" where
  "probe_op api addr w =
     (case kb_Open api addr w of
        (Some err, w1) \<Rightarrow> (Some (wrap_with ''open'' err), w1)
      | (None, w1) \<Rightarrow>
          (let (e, w2) =
             (case kb_Connected api addr w1 of
                (Inl err, w2) \<Rightarrow> (Some (wrap_with ''connected'' err), w2)
              | (Inr False, w2) \<Rightarrow> (Some ErrBrokerNotConnected, w2)
              | (Inr True, w2) \<Rightarrow>
                  (case kb_Heartbeat api addr w2 of
                     (Some err, w3) \<Rightarrow> (Some (wrap_with ''heartbeat'' err), w3)
                   | (None, w3) \<Rightarrow>
                       (case kb_Close api addr w3 of
                          (Some err, w4) \<Rightarrow> (Some (wrap_with ''close'' err), w4)
                        | (None, w4) \<Rightarrow> (None, w4))))
           in (e, snd (kb_Close api addr w2))))"

definition probeBroker :: "'w retry_fun \<Rightarrow> ('w, 'ctr, 'net, 'rd) kafka_api \<Rightarrow> 'ctr brokerContainer \<Rightarrow> 'w \<Rightarrow> go_error option \<times> 'w" where
  "probeBroker retry api b w = retry 10 100000000 (probe_op api (bc_hostAddress b)) w"

definition probe_brokers ::
  "(nat \<Rightarrow> nat list) \<Rightarrow> 'w retry_fun \<Rightarrow> ('w, 'ctr, 'net, 'rd) kafka_api \<Rightarrow> ('ctr, 'net) Cluster \<Rightarrow> 'w \<Rightarrow> go_error option \<times> 'w" where
  "probe_brokers sched retry api c w =
     (if cl_HealthProbe c then
        (case eg_Wait sched (map (\<lambda>b _. probeBroker retry api b) (cl_brokerContainers c)) w of
           (Some err, w1) \<Rightarrow> (Some (wrap_with ''probe brokers'' err), w1)
         | (None, w1) \<Rightarrow> (None, w1))
      else (None, w))"

definition broker_count :: "('ctr, 'net) Cluster \<Rightarrow> nat" where
  "broker_count c = (if cl_Brokers c > 0 then nat (cl_Brokers c) else 1)"

definition startZookeeperCluster ::
  "(nat \<Rightarrow> nat list) \<Rightarrow> (string \<times> string \<times> 'w) retry_fun \<Rightarrow> 'w retry_fun \<Rightarrow> ('w, 'ctr, 'net, 'rd) kafka_api \<Rightarrow> string
   \<Rightarrow> ('ctr, 'net) Cluster \<Rightarrow> 'w \<Rightarrow> (go_error option \<times> ('ctr, 'net) Cluster \<times> 'w) go" where
  "startZookeeperCluster sched retry retry_probe api networkName c w =
     (case tc_GenericContainer api (zookeeper_request networkName) w of
        (Inl (_, err), w1) \<Rightarrow> Ret (Some (wrap_with ''create zookeeper container'' err), c, w1)
      | (Inr zk, w1) \<Rightarrow>
          (let c = c\<lparr>cl_zookeeperContainer := Some zk\<rparr> in
           case kc_Parallel api (map (broker_request sched retry api networkName) [1..<Suc (broker_count c)]) w1 of
             ((bcs, perr), w2) \<Rightarrow>
               (let c = c\<lparr>cl_brokerContainers := map (\<lambda>b. \<lparr>bc_Container = b, bc_hostAddress = []\<rparr>) bcs\<rparr> in
                case perr of
                  Some err \<Rightarrow> Ret (Some (wrap_with ''create broker containers'' err), c, w2)
                | None \<Rightarrow>
                    go_bind (assign_addresses (broker_address api) 0 (cl_brokerContainers c) w2) (\<lambda>(e, bcs', w3).
                      let c = c\<lparr>cl_brokerContainers := bcs'\<rparr> in
                      case e of
                        Some err \<Rightarrow> Ret (Some err, c, w3)
                      | None \<Rightarrow> (case probe_brokers sched retry_probe api c w3 of (pe, w4) \<Rightarrow> Ret (pe, c, w4))))))"

section \<open>Start and stop\<close>

text \<open>The topics of a cluster are not used.\<close>

definition Cluster_Start ::
  "(nat \<Rightarrow> nat list) \<Rightarrow> (string \<times> 'w) retry_fun \<Rightarrow> (string \<times> string \<times> 'w) retry_fun \<Rightarrow> 'w retry_fun
   \<Rightarrow> ('w, 'ctr, 'net, 'rd) kafka_api \<Rightarrow> ('ctr, 'net) Cluster \<Rightarrow> 'w \<Rightarrow> (go_error option \<times> ('ctr, 'net) Cluster \<times> 'w) go" where
  "Cluster_Start sched retry_kraft retry_broker retry_probe api c w =
     (if cl_started c then Ret (Some ErrBrokerAlreadyStarted, c, w)
      else
        (let c = c\<lparr>cl_started := True\<rparr> in
         case kc_NewNetwork api w of
           (Inl err, w1) \<Rightarrow> Ret (Some (wrap_with ''create network'' err), c, w1)
         | (Inr net, w1) \<Rightarrow>
             (let c = c\<lparr>cl_network := Some net\<rparr> in
              if \<not> cl_Kraft c then
                go_bind (startZookeeperCluster sched retry_broker retry_probe api (kc_NetworkName api net) c w1)
                  (\<lambda>(e, c', w2). Ret (map_option (wrap_with ''start zookeeper cluster'') e, c', w2))
              else
                go_bind (startKraftCluster retry_kraft api (kc_NetworkName api net) c w1)
                  (\<lambda>(e, c', w2). Ret (map_option (wrap_with ''start kraft cluster'') e, c', w2)))))"

definition terminate_op ::
  "('w, 'ctr, 'net, 'rd) kafka_api \<Rightarrow> string \<Rightarrow> 'ctr \<Rightarrow> bool \<Rightarrow> 'w \<Rightarrow> go_error option \<times> 'w" where
  "terminate_op api msg ctr cancelled w =
     (case kc_TerminateCtx api cancelled ctr w of (e, w1) \<Rightarrow> (map_option (wrap_with msg) e, w1))"

definition stop_ops ::
  "('w, 'ctr, 'net, 'rd) kafka_api \<Rightarrow> ('ctr, 'net) Cluster \<Rightarrow> (bool \<Rightarrow> 'w \<Rightarrow> go_error option \<times> 'w) list" where
  "stop_ops api c =
     (case cl_zookeeperContainer c of None \<Rightarrow> [] | Some zk \<Rightarrow> [terminate_op api ''terminate zookeeper container'' zk])
     @ map (\<lambda>(i, b). terminate_op api (''terminate broker container '' @ dec_nat i) (bc_Container b))
         (enumerate 0 (cl_brokerContainers c))"

definition Cluster_Stop ::
  "(nat \<Rightarrow> nat list) \<Rightarrow> ('w, 'ctr, 'net, 'rd) kafka_api \<Rightarrow> ('ctr, 'net) Cluster \<Rightarrow> 'w
   \<Rightarrow> go_error option \<times> ('ctr, 'net) Cluster \<times> 'w" where
  "Cluster_Stop sched api c w =
     (if \<not> cl_started c then (Some ErrBrokerWasNotStarted, c, w)
      else
        (let (e, w1) = eg_Wait sched (stop_ops api c) w;
             errs = errors_Join [None, map_option (wrap_with ''terminate containers'') e];
             (ne, w2) = (case cl_network c of None \<Rightarrow> (None, w1) | Some net \<Rightarrow> kc_RemoveNetwork api net w1);
             errs = (case ne of None \<Rightarrow> errs | Some err \<Rightarrow> errors_Join [errs, Some (wrap_with ''remove network'' err)])
         in (errs, c\<lparr>cl_started := False\<rparr>, w2)))"

section \<open>What the libraries promise\<close>

text \<open>
  A creation without an error adds the container it returns; containers made in parallel without an
  error are all returned. Of a creation that fails it is only promised that it takes no container away
  and that what it returns is there: it may leave a container it does not return. A termination without
  an error removes its container and no termination adds one; everything else leaves the containers as
  they are, and a retrier does to them what its operation does.
\<close>

definition retry_neutral :: "('s \<Rightarrow> 'c set) \<Rightarrow> 's retry_fun \<Rightarrow> bool" where
  "retry_neutral live retry \<longleftrightarrow> (\<forall>n d f. neutral live f \<longrightarrow> neutral live (retry n d f))"

definition kafka_documented :: "('w, 'ctr, 'net, 'rd) kafka_api \<Rightarrow> ('w \<Rightarrow> 'ctr set) \<Rightarrow> bool" where
  "kafka_documented api live \<longleftrightarrow>
     (\<forall>r w oc e w'. tc_GenericContainer api r w = (Inl (oc, e), w') \<longrightarrow> live w \<union> set_option oc \<subseteq> live w')
   \<and> (\<forall>r w c w'. tc_GenericContainer api r w = (Inr c, w') \<longrightarrow> live w' = insert c (live w))
   \<and> (\<forall>rs w cs e w'. kc_Parallel api rs w = ((cs, e), w') \<longrightarrow>
        live w \<union> set cs \<subseteq> live w' \<and> (e = None \<longrightarrow> live w' = live w \<union> set cs))
   \<and> (\<forall>c. neutral live (tc_Host api c)) \<and> (\<forall>c p. neutral live (tc_MappedPort api c p)) \<and> (\<forall>c. neutral live (kc_Name api c))
   \<and> (\<forall>c. neutral live (kc_Start api c)) \<and> (\<forall>c s p m. neutral live (kc_CopyTo api c s p m))
   \<and> neutral live (kc_NewNetwork api) \<and> (\<forall>n. neutral live (kc_RemoveNetwork api n))
   \<and> (\<forall>a. neutral live (kb_Open api a)) \<and> (\<forall>a. neutral live (kb_Connected api a))
   \<and> (\<forall>a. neutral live (kb_Heartbeat api a)) \<and> (\<forall>a. neutral live (kb_Close api a))
   \<and> (\<forall>b. removes live (kc_TerminateCtx api b)) \<and> (\<forall>b c w. live (snd (kc_TerminateCtx api b c w)) \<subseteq> live w)"

definition recorded :: "('ctr, 'net) Cluster \<Rightarrow> 'ctr set" where
  "recorded c = set_option (cl_zookeeperContainer c) \<union> bc_Container ` set (cl_brokerContainers c)"

section \<open>Lemmas\<close>

lemma eg_run_error: "eg_run fs (Some e) s = (e', s') \<Longrightarrow> e' = Some e"
  by (induction fs arbitrary: s) (auto split: prod.splits)

text \<open>A group that returns no error ran every function, none of them with a cancelled context.\<close>

lemma eg_run_removes:
  assumes "eg_run (map (\<lambda>(m, c). terminate_op api m c) ps) None w = (None, w')" and "removes live (kc_TerminateCtx api False)"
  shows "live w' = live w - snd ` set ps"
  using assms(1)
proof (induction ps arbitrary: w)
  case (Cons p ps)
  obtain m c where p: "p = (m, c)" by fastforce
  obtain e w1 where w1: "kc_TerminateCtx api False c w = (e, w1)" by fastforce
  have step: "terminate_op api m c False w = (map_option (wrap_with m) e, w1)" by (simp add: terminate_op_def w1)
  have "e = None"
    using Cons.prems by (cases e) (auto simp: p step dest: eg_run_error)
  then have "eg_run (map (\<lambda>(m, c). terminate_op api m c) ps) None w1 = (None, w')"
    using Cons.prems by (simp add: p step)
  then have "live w' = live w1 - snd ` set ps" by (rule Cons.IH)
  moreover have "live w1 = live w - {c}"
    using assms(2) w1 \<open>e = None\<close> unfolding removes_def by (metis fst_conv snd_conv)
  ultimately show ?case by (auto simp: p)
qed simp

definition stop_targets :: "('ctr, 'net) Cluster \<Rightarrow> (string \<times> 'ctr) list" where
  "stop_targets c =
     (case cl_zookeeperContainer c of None \<Rightarrow> [] | Some zk \<Rightarrow> [(''terminate zookeeper container'', zk)])
     @ map (\<lambda>(i, b). (''terminate broker container '' @ dec_nat i, bc_Container b)) (enumerate 0 (cl_brokerContainers c))"

lemma stop_ops_targets: "stop_ops api c = map (\<lambda>(m, c). terminate_op api m c) (stop_targets c)"
  by (auto simp: stop_ops_def stop_targets_def split: option.split)

lemma snd_enumerate: "snd ` set (enumerate n xs) = set xs"
  by (metis list.set_map map_snd_enumerate)

lemma stop_targets_recorded: "snd ` set (stop_targets c) = recorded c"
proof -
  have "snd ` set (map (\<lambda>(i, b). (''terminate broker container '' @ dec_nat i, bc_Container b)) (enumerate 0 (cl_brokerContainers c)))
      = bc_Container ` snd ` set (enumerate 0 (cl_brokerContainers c))"
    by (auto simp: image_image intro!: image_eqI)
  then show ?thesis
    by (cases "cl_zookeeperContainer c") (auto simp: stop_targets_def recorded_def snd_enumerate image_Un)
qed

lemma scheduled_set:
  assumes "schedule sched"
  shows "set (map (\<lambda>i. xs ! i) (sched (length xs))) = set xs"
proof -
  have "set (sched (length xs)) = {0..<length xs}"
    using assms unfolding schedule_def by (metis set_mset_mset set_upt)
  then have "set (map (\<lambda>i. xs ! i) (sched (length xs))) = set (map (\<lambda>i. xs ! i) [0..<length xs])" by simp
  then show ?thesis by (simp only: map_nth)
qed

lemma stop_removes_recorded:
  assumes "kafka_documented api live" and "schedule sched" and "eg_Wait sched (stop_ops api c) w = (None, w')"
  shows "live w' = live w - recorded c"
proof -
  let ?ps = "stop_targets c"
  let ?qs = "map (\<lambda>i. ?ps ! i) (sched (length ?ps))"
  have idx: "i < length ?ps" if "i \<in> set (sched (length ?ps))" for i
    using that assms(2) unfolding schedule_def by (metis atLeastLessThan_iff set_mset_mset set_upt)
  have "map (\<lambda>i. map (\<lambda>(m, c). terminate_op api m c) ?ps ! i) (sched (length ?ps)) = map (\<lambda>(m, c). terminate_op api m c) ?qs"
    using idx by simp
  then have "eg_run (map (\<lambda>(m, c). terminate_op api m c) ?qs) None w = (None, w')"
    using assms(3) unfolding eg_Wait_def stop_ops_targets length_map by (simp only:)
  then have "live w' = live w - snd ` set ?qs"
    by (rule eg_run_removes) (use assms(1) in \<open>simp add: kafka_documented_def\<close>)
  then show ?thesis
    by (simp only: scheduled_set [OF assms(2)] stop_targets_recorded)
qed

lemma eg_run_neutral: "(\<And>f b. f \<in> set fs \<Longrightarrow> neutral live (f b)) \<Longrightarrow> neutral live (eg_run fs err)"
proof (induction fs arbitrary: err)
  case (Cons f fs)
  have "neutral live (f b)" "neutral live (eg_run fs e)" for b e using Cons by auto
  then show ?case by (auto simp: neutral_def case_prod_unfold)
qed (simp add: neutral_def)

lemma probe_neutral:
  assumes "kafka_documented api live"
  shows "neutral live (probe_op api a)"
proof -
  have "neutral live (kb_Open api a)" "neutral live (kb_Connected api a)" "neutral live (kb_Heartbeat api a)" "neutral live (kb_Close api a)"
    using assms by (simp_all add: kafka_documented_def)
  note n = this [THEN neutralD] and c = this(4) [unfolded neutral_def, rule_format]
  show ?thesis
    unfolding neutral_def probe_op_def Let_def
    by (auto simp: c dest!: n split: prod.split option.split sum.split bool.split)
qed

lemma probe_brokers_neutral:
  assumes "kafka_documented api live" and "retry_neutral live retry" and "schedule sched"
  shows "neutral live (probe_brokers sched retry api c)"
proof -
  have "neutral live (probeBroker retry api b)" for b
    using assms(2) probe_neutral [OF assms(1)] by (simp add: retry_neutral_def probeBroker_def neutral_def)
  then have "neutral live (f x)" if "f \<in> set (map (\<lambda>b _. probeBroker retry api b) (cl_brokerContainers c))" for f and x :: bool
    using that by auto
  then have "neutral live (eg_Wait sched (map (\<lambda>b _. probeBroker retry api b) (cl_brokerContainers c)))"
    unfolding eg_Wait_def by (intro eg_run_neutral) (simp only: scheduled_set [OF assms(3)])
  then show ?thesis
    by (auto simp: neutral_def probe_brokers_def split: prod.split option.split) (metis snd_conv)+
qed

lemma assign_addresses_keeps:
  assumes "assign_addresses f i bs w = Ret (e, bs', w')"
    and "\<And>i c w r w'. f i c w = Ret (r, w') \<Longrightarrow> live w' = live w"
  shows "live w' = live w \<and> map bc_Container bs' = map bc_Container bs"
  using assms(1)
proof (induction bs arbitrary: i w e bs' w')
  case (Cons b bs)
  from Cons.prems obtain r w1 where r: "f i (bc_Container b) w = Ret (r, w1)"
    by (auto simp: go_bind_eq_Ret)
  show ?case
  proof (cases r)
    case (Inl err)
    then show ?thesis using Cons.prems assms(2) [OF r] by (auto simp: r)
  next
    case (Inr a)
    then obtain e2 bs2 w2 where rest: "assign_addresses f (Suc i) bs w1 = Ret (e2, bs2, w2)"
        "bs' = b\<lparr>bc_hostAddress := a\<rparr> # bs2" "w' = w2"
      using Cons.prems by (auto simp: r go_bind_eq_Ret)
    then show ?thesis using Cons.IH [OF rest(1)] assms(2) [OF r] by simp
  qed
qed simp

lemma address_neutral:
  assumes "kafka_documented api live"
  shows "kraft_address api i c w = Ret (r, w') \<Longrightarrow> live w' = live w"
    and "broker_address api i c w = Ret (r, w') \<Longrightarrow> live w' = live w"
proof -
  have "neutral live (tc_Host api c)" "neutral live (tc_MappedPort api c p)" "neutral live (kc_Name api c)" for c p
    using assms by (simp_all add: kafka_documented_def)
  note n = this [THEN neutralD]
  show "kraft_address api i c w = Ret (r, w') \<Longrightarrow> live w' = live w"
    by (auto simp: kraft_address_def dest!: n split: prod.splits sum.splits)
  show "broker_address api i c w = Ret (r, w') \<Longrightarrow> live w' = live w"
    by (auto simp: broker_address_def Let_def dest!: n split: prod.splits sum.splits if_splits)
qed

text \<open>The promises on creation, one by one.\<close>

lemma kafka_documentedD:
  assumes "kafka_documented api live"
  shows "tc_GenericContainer api r w = (Inl (oc, e), w') \<Longrightarrow> live w \<union> set_option oc \<subseteq> live w'"
    and "tc_GenericContainer api r w = (Inr ctr, w') \<Longrightarrow> live w' = insert ctr (live w)"
    and "kc_Parallel api rs w = ((cs, None), w') \<Longrightarrow> live w' = live w \<union> set cs"
    and "kc_CopyTo api ctr x y m w = (oe, w') \<Longrightarrow> live w' = live w"
    and "kc_Start api ctr w = (oe, w') \<Longrightarrow> live w' = live w"
proof -
  note doc = assms [unfolded kafka_documented_def]
  show "tc_GenericContainer api r w = (Inl (oc, e), w') \<Longrightarrow> live w \<union> set_option oc \<subseteq> live w'"
    by (rule doc [THEN conjunct1, rule_format])
  show "tc_GenericContainer api r w = (Inr ctr, w') \<Longrightarrow> live w' = insert ctr (live w)"
    by (rule doc [THEN conjunct2, THEN conjunct1, rule_format])
  show "kc_Parallel api rs w = ((cs, None), w') \<Longrightarrow> live w' = live w \<union> set cs"
    using doc [THEN conjunct2, THEN conjunct2, THEN conjunct1] by blast
  have "neutral live (kc_CopyTo api ctr x y m)" "neutral live (kc_Start api ctr)" using doc by blast+
  then show "kc_CopyTo api ctr x y m w = (oe, w') \<Longrightarrow> live w' = live w"
    and "kc_Start api ctr w = (oe, w') \<Longrightarrow> live w' = live w"
    by (auto dest: neutralD)
qed

lemma recorded_brokers: "map bc_Container bs = cs \<Longrightarrow> recorded (c\<lparr>cl_brokerContainers := bs\<rparr>) = set_option (cl_zookeeperContainer c) \<union> set cs"
  by (auto simp: recorded_def)

text \<open>
  A start of the ZooKeeper cluster behind the creation of its containers, in one equation.
\<close>

lemma zookeeper_start_run:
  assumes gc: "tc_GenericContainer api (zookeeper_request n) w = (Inr zk, w1)"
    and par: "kc_Parallel api (map (broker_request sched retry api n) [1..<Suc (broker_count c)]) w1 = ((bcs, perr), w2)"
    and c1: "c1 = c\<lparr>cl_zookeeperContainer := Some zk\<rparr>"
    and bs: "bs = map (\<lambda>b. \<lparr>bc_Container = b, bc_hostAddress = []\<rparr>) bcs"
  shows "startZookeeperCluster sched retry retry_probe api n c w =
    (case perr of
       Some err \<Rightarrow> Ret (Some (wrap_with ''create broker containers'' err), c1\<lparr>cl_brokerContainers := bs\<rparr>, w2)
     | None \<Rightarrow> go_bind (assign_addresses (broker_address api) 0 bs w2) (\<lambda>(e, bcs', w3).
         case e of
           Some err \<Rightarrow> Ret (Some err, c1\<lparr>cl_brokerContainers := bcs'\<rparr>, w3)
         | None \<Rightarrow> (case probe_brokers sched retry_probe api (c1\<lparr>cl_brokerContainers := bcs'\<rparr>) w3 of
             (pe, w4) \<Rightarrow> Ret (pe, c1\<lparr>cl_brokerContainers := bcs'\<rparr>, w4))))"
proof -
  have "broker_count c1 = broker_count c" by (simp add: c1 broker_count_def)
  with par have "kc_Parallel api (map (broker_request sched retry api n) [1..<Suc (broker_count c1)]) w1 = ((bcs, perr), w2)"
    by (simp only:)
  then show ?thesis
    by (cases perr) (simp_all add: startZookeeperCluster_def gc Let_def c1 [symmetric] bs del: upt_Suc One_nat_def)
qed

text \<open>
  A start of the ZooKeeper cluster records what the library returned, also when it fails behind that;
  without an error this is all it added.
\<close>

lemma zookeeper_start_records:
  assumes doc: "kafka_documented api live" and "retry_neutral live retry_probe" and "schedule sched"
    and gc: "tc_GenericContainer api (zookeeper_request n) w = (Inr zk, w1)"
    and par: "kc_Parallel api (map (broker_request sched retry api n) [1..<Suc (broker_count c)]) w1 = ((bcs, perr), w2)"
    and start: "startZookeeperCluster sched retry retry_probe api n c w = Ret (e, c', w')"
  shows "cl_started c' = cl_started c \<and> recorded c' = insert zk (set bcs) \<and> (e = None \<longrightarrow> live w' \<subseteq> live w \<union> recorded c')"
proof -
  define c1 where "c1 = c\<lparr>cl_zookeeperContainer := Some zk\<rparr>"
  define bs where "bs = map (\<lambda>b. \<lparr>bc_Container = b, bc_hostAddress = []\<rparr>) bcs"
  note run = zookeeper_start_run [OF gc par c1_def bs_def, of retry_probe]
  have bs: "map bc_Container bs = bcs" by (simp add: bs_def o_def)
  have w1: "live w1 = insert zk (live w)" using kafka_documentedD(2) [OF doc gc] .
  show ?thesis
  proof (cases perr)
    case (Some err)
    then show ?thesis using start recorded_brokers [OF bs, of c1] by (auto simp: run c1_def)
  next
    case None
    have w2: "live w2 = insert zk (live w) \<union> set bcs" using kafka_documentedD(3) [OF doc] par None w1 by simp
    obtain e3 bcs' w3 where as: "assign_addresses (broker_address api) 0 bs w2 = Ret (e3, bcs', w3)"
      using start None by (auto simp: run go_bind_eq_Ret)
    have "live w3 = live w2" "map bc_Container bcs' = bcs"
      using assign_addresses_keeps [OF as, where live = live] address_neutral(2) [OF doc] bs by auto
    moreover have "live w' = live w3" "c' = c1\<lparr>cl_brokerContainers := bcs'\<rparr>"
      using start None neutralD [OF probe_brokers_neutral [OF doc assms(2,3)]]
      by (auto simp: run as split: option.splits prod.splits)
    ultimately show ?thesis using w2 recorded_brokers [of bcs' bcs c1] by (auto simp: c1_def)
  qed
qed

lemma zookeeper_creation_fails:
  assumes "tc_GenericContainer api (zookeeper_request n) w = (Inl (oc, err), w1)"
  shows "startZookeeperCluster sched retry retry_probe api n c w
    = Ret (Some (wrap_with ''create zookeeper container'' err), c, w1)"
  by (simp add: startZookeeperCluster_def assms)

lemma kraft_start_records:
  assumes doc: "kafka_documented api live" and start: "startKraftCluster retry api n c w = Ret (None, c', w')"
  shows "live w' \<subseteq> live w \<union> recorded c'"
proof -
  obtain ctr w1 where gc: "tc_GenericContainer api (kraft_request retry api n) w = (Inr ctr, w1)"
    using start by (auto simp: startKraftCluster_def split: prod.splits sum.splits)
  obtain w2 where cp: "kc_CopyTo api ctr jaas_config ''/etc/kafka/kafka_server_jaas.conf'' fileMode755 w1 = (None, w2)"
    using start by (auto simp: startKraftCluster_def gc split: prod.splits option.splits)
  obtain w3 where st: "kc_Start api ctr w2 = (None, w3)"
    using start by (auto simp: startKraftCluster_def gc cp split: prod.splits option.splits)
  obtain bcs where as: "assign_addresses (kraft_address api) 0 [\<lparr>bc_Container = ctr, bc_hostAddress = []\<rparr>] w3 = Ret (None, bcs, w')"
      and c': "c' = c\<lparr>cl_brokerContainers := bcs\<rparr>"
    using start by (auto simp: startKraftCluster_def gc cp st go_bind_eq_Ret simp del: assign_addresses.simps)
  have "live w' = live w3" "map bc_Container bcs = [ctr]"
    using assign_addresses_keeps [OF as, where live = live] address_neutral(1) [OF doc] by auto
  moreover have "live w3 = live w2" "live w2 = live w1" "live w1 = insert ctr (live w)"
    using kafka_documentedD(5) [OF doc st] kafka_documentedD(4) [OF doc cp] kafka_documentedD(2) [OF doc gc] by blast+
  ultimately show ?thesis using recorded_brokers [of bcs "[ctr]" c] by (auto simp: c')
qed

text \<open>The whole start, by the branch it takes.\<close>

lemma start_zookeeper_branch:
  assumes "\<not> cl_started c" and "\<not> cl_Kraft c" and "kc_NewNetwork api w = (Inr n, w1)"
    and "Cluster_Start sched rk rb rp api c w = Ret (e, c', w')"
  shows "\<exists>e2. startZookeeperCluster sched rb rp api (kc_NetworkName api n) (c\<lparr>cl_started := True, cl_network := Some n\<rparr>) w1
      = Ret (e2, c', w') \<and> (e = None \<longleftrightarrow> e2 = None)"
  using assms by (auto simp: Cluster_Start_def Let_def go_bind_eq_Ret)

lemma start_kraft_branch:
  assumes "\<not> cl_started c" and "cl_Kraft c" and "kc_NewNetwork api w = (Inr n, w1)"
    and "Cluster_Start sched rk rb rp api c w = Ret (e, c', w')"
  shows "\<exists>e2. startKraftCluster rk api (kc_NetworkName api n) (c\<lparr>cl_started := True, cl_network := Some n\<rparr>) w1
      = Ret (e2, c', w') \<and> (e = None \<longleftrightarrow> e2 = None)"
  using assms by (auto simp: Cluster_Start_def Let_def go_bind_eq_Ret)

lemma kraft_keeps_started:
  assumes "startKraftCluster rk api n c w = Ret (e, c', w')"
  shows "cl_started c' = cl_started c"
  using assms by (auto simp: startKraftCluster_def go_bind_eq_Ret simp del: assign_addresses.simps split: prod.splits sum.splits option.splits)

lemma cluster_start_zookeeper:
  assumes doc: "kafka_documented api live" and "retry_neutral live retry_probe" and sched: "schedule sched"
    and "\<not> cl_started c" and start: "Cluster_Start sched rk rb retry_probe api c w = Ret (e, c', w')"
    and "\<not> cl_Kraft c" and net: "kc_NewNetwork api w = (Inr n, w1)"
    and gc: "tc_GenericContainer api (zookeeper_request (kc_NetworkName api n)) w1 = (Inr zk, w2)"
    and par: "kc_Parallel api (map (broker_request sched rb api (kc_NetworkName api n)) [1..<Suc (broker_count c)]) w2 = ((bcs, perr), w3)"
  shows "recorded c' = insert zk (set bcs)"
proof -
  let ?c = "c\<lparr>cl_started := True, cl_network := Some n\<rparr>"
  obtain e2 where run: "startZookeeperCluster sched rb retry_probe api (kc_NetworkName api n) ?c w1 = Ret (e2, c', w')"
    using start_zookeeper_branch [OF assms(4,6) net start] by blast
  have "broker_count ?c = broker_count c" by (simp add: broker_count_def)
  with par have "kc_Parallel api (map (broker_request sched rb api (kc_NetworkName api n)) [1..<Suc (broker_count ?c)]) w2 = ((bcs, perr), w3)"
    by (simp only:)
  from zookeeper_start_records [OF doc assms(2) sched gc this run] show ?thesis by simp
qed

lemma cluster_start_records:
  assumes doc: "kafka_documented api live" and "retry_neutral live retry_probe" and sched: "schedule sched"
    and "\<not> cl_started c" and start: "Cluster_Start sched rk rb retry_probe api c w = Ret (e, c', w')"
  shows "cl_started c' \<and> (e = None \<longrightarrow> live w' \<subseteq> live w \<union> recorded c')"
proof -
  have net: "neutral live (kc_NewNetwork api)" using doc by (simp add: kafka_documented_def)
  obtain r w1 where nn: "kc_NewNetwork api w = (r, w1)" by fastforce
  have w1: "live w1 = live w" using neutralD [OF net nn] .
  show ?thesis
  proof (cases r)
    case (Inl err)
    then show ?thesis using start assms(4) by (auto simp: Cluster_Start_def Let_def nn)
  next
    case (Inr n)
    let ?c = "c\<lparr>cl_started := True, cl_network := Some n\<rparr>"
    show ?thesis
    proof (cases "cl_Kraft c")
      case True
      then obtain e2 where "startKraftCluster rk api (kc_NetworkName api n) ?c w1 = Ret (e2, c', w')" "e = None \<longleftrightarrow> e2 = None"
        using start_kraft_branch [OF assms(4) _ _ start] nn Inr by blast
      then show ?thesis
        using kraft_keeps_started [of rk api _ ?c] kraft_start_records [OF doc] w1 by fastforce
    next
      case False
      then obtain e2 where run: "startZookeeperCluster sched rb retry_probe api (kc_NetworkName api n) ?c w1 = Ret (e2, c', w')"
          and e2: "e = None \<longleftrightarrow> e2 = None"
        using start_zookeeper_branch [OF assms(4) _ _ start] nn Inr by blast
      obtain g w2 where gc: "tc_GenericContainer api (zookeeper_request (kc_NetworkName api n)) w1 = (g, w2)" by fastforce
      show ?thesis
      proof (cases g)
        case (Inl oe)
        then show ?thesis
          using zookeeper_creation_fails [of api _ w1 "fst oe" "snd oe" w2 sched rb retry_probe ?c] run gc e2 by auto
      next
        case (Inr zk)
        obtain bcs perr w3 where "kc_Parallel api (map (broker_request sched rb api (kc_NetworkName api n)) [1..<Suc (broker_count ?c)]) w2 = ((bcs, perr), w3)"
          by (metis surj_pair)
        from zookeeper_start_records [OF doc assms(2) sched _ this run] show ?thesis
          using gc Inr w1 e2 by auto
      qed
    qed
  qed
qed

lemma cluster_stop_removes:
  assumes doc: "kafka_documented api live" and sched: "schedule sched" and started: "cl_started c"
    and stop: "Cluster_Stop sched api c w = (None, c', w')"
  shows "live w' = live w - recorded c"
proof -
  have rm: "\<And>n. neutral live (kc_RemoveNetwork api n)" using doc by (simp add: kafka_documented_def)
  obtain e2 w2 where eg: "eg_Wait sched (stop_ops api c) w = (e2, w2)" by fastforce
  have "e2 = None"
    using stop started by (cases e2) (auto simp: Cluster_Stop_def eg errors_Join_def List.map_filter_def Let_def split: prod.splits option.splits)
  then have "live w2 = live w - recorded c" using stop_removes_recorded [OF doc sched] eg by blast
  moreover have "live w' = live w2"
    using stop started by (auto simp: Cluster_Stop_def eg Let_def dest!: neutralD [OF rm] split: prod.splits option.splits)
  ultimately show ?thesis by simp
qed

section \<open>Properties\<close>

text \<open>
  C40. Starting and stopping a cluster: a cluster whose start was tried refuses another start, and \<open>Stop\<close>
  always makes it stopped, also when a termination fails. A ZooKeeper cluster records exactly the
  ZooKeeper container and the broker containers the library returned to it, also when the start fails
  behind that. A \<open>Stop\<close> without an error removes exactly the recorded containers, in whatever order the
  terminations run; so after a start without an error every container that came with the start is gone
  again. After a failed start a container that was made and not returned stays.
\<close>

theorem kafka_start_stop:
  assumes doc: "kafka_documented api live" and "retry_neutral live retry_probe" and sched: "schedule sched"
    and "\<not> cl_started c" and start: "Cluster_Start sched rk rb retry_probe api c w = Ret (e, c', w')"
  shows "Cluster_Start sched rk rb retry_probe api c' w' = Ret (Some ErrBrokerAlreadyStarted, c', w')
    \<and> \<not> cl_started (fst (snd (Cluster_Stop sched api c' w')))
    \<and> (\<forall>n w1 zk w2 bcs perr w3. \<not> cl_Kraft c \<and> kc_NewNetwork api w = (Inr n, w1)
        \<and> tc_GenericContainer api (zookeeper_request (kc_NetworkName api n)) w1 = (Inr zk, w2)
        \<and> kc_Parallel api (map (broker_request sched rb api (kc_NetworkName api n)) [1..<Suc (broker_count c)]) w2 = ((bcs, perr), w3)
        \<longrightarrow> recorded c' = insert zk (set bcs))
    \<and> (\<forall>c'' w''. Cluster_Stop sched api c' w' = (None, c'', w'')
        \<longrightarrow> live w'' = live w' - recorded c' \<and> (e = None \<longrightarrow> live w'' \<subseteq> live w))"
proof -
  have started: "cl_started c'" and adds: "e = None \<Longrightarrow> live w' \<subseteq> live w \<union> recorded c'"
    using cluster_start_records [OF assms] by simp_all
  have "live w'' = live w' - recorded c'" if "Cluster_Stop sched api c' w' = (None, c'', w'')" for c'' w''
    using cluster_stop_removes [OF doc sched started that] .
  moreover have "recorded c' = insert zk (set bcs)"
    if "\<not> cl_Kraft c" "kc_NewNetwork api w = (Inr n, w1)"
      "tc_GenericContainer api (zookeeper_request (kc_NetworkName api n)) w1 = (Inr zk, w2)"
      "kc_Parallel api (map (broker_request sched rb api (kc_NetworkName api n)) [1..<Suc (broker_count c)]) w2 = ((bcs, perr), w3)"
    for n w1 zk w2 bcs perr w3
    using cluster_start_zookeeper [OF assms that] .
  ultimately show ?thesis
    using started adds by (auto simp: Cluster_Start_def Cluster_Stop_def Let_def split: prod.split option.split)
qed

lemma split_on_word: "sep \<notin> set w \<Longrightarrow> split_on sep w = [w]"
  by (induction w) auto

lemma split_broker_name: "split_on (CHR ''-'') (''/'' @ broker_name k) = [''/kafkadocker'', ''broker'', dec_nat k]"
proof -
  have "CHR ''-'' \<notin> set (dec_nat k)" using dec_nat_digits [of "CHR ''-''" k] by auto
  then show ?thesis by (simp add: broker_name_def split_on_word)
qed

lemma port_digits: "char_of (48 :: nat) = CHR ''0''" "char_of (49 :: nat) = CHR ''1''" "char_of (57 :: nat) = CHR ''9''"
  by code_simp+

lemma dec_nat_snoc: "dec_nat (10 * n + d) = dec_nat n @ dec_nat d" if "0 < n" "d < 10"
  using that by (subst (1 3) dec_nat.simps) simp

text \<open>
  The address of a broker is asked for under the port its own request exposes, since the number in its
  name is the number of the request; the name is as Docker gives it, with a slash in front. The ports are 9091
  to 9099 for the first nine brokers, and beyond the range of ports from the tenth on.
\<close>

theorem broker_request_address:
  assumes "tc_Host api ctr w = (Inr ip, w1)" and "kc_Name api ctr w1 = (Inr (''/'' @ broker_name k), w2)"
    and "tc_MappedPort api ctr (hd (cr_ExposedPorts (broker_request sched retry api n k))) w2 = (Inr port, w3)"
  shows "broker_address api i ctr w = Ret (Inr (ip @ '':'' @ port), w3)
    \<and> (k < 10 \<longrightarrow> broker_port k = dec_nat (9090 + k))
    \<and> (10 \<le> k \<and> k < 100 \<longrightarrow> broker_port k = dec_nat (90900 + k) \<and> 65535 < 90900 + k)"
proof -
  have exposed: "hd (cr_ExposedPorts (broker_request sched retry api n k)) = ''909'' @ dec_nat k @ ''/tcp''"
    by (simp add: broker_request_def broker_port_def Let_def)
  have d909: "dec_nat 909 = ''909''" by (simp add: dec_nat.simps port_digits)
  have small: "dec_nat (9090 + k) = ''909'' @ dec_nat k" if "k < 10" for k
    using dec_nat_snoc [of 909 k] that by (simp add: d909)
  have "broker_port k = dec_nat (90900 + k)" if "10 \<le> k" "k < 100"
  proof -
    have k: "k = 10 * (k div 10) + k mod 10" "k div 10 < 10" "0 < k div 10" using that by simp_all
    have "dec_nat (90900 + k) = dec_nat (9090 + k div 10) @ dec_nat (k mod 10)"
      using dec_nat_snoc [of "9090 + k div 10" "k mod 10"] k(1) by (simp add: add.commute)
    also have "\<dots> = ''909'' @ dec_nat k"
      using small [OF k(2)] dec_nat_snoc [OF k(3), of "k mod 10"] k(1) by simp
    finally show ?thesis by (simp add: broker_port_def)
  qed
  then show ?thesis
    using assms(3) small by (auto simp: broker_address_def assms(1,2) split_broker_name [simplified] exposed broker_port_def)
qed

text \<open>Libraries for examples: the world is the list of the containers, which are numbers.\<close>

definition example_kafka :: "(nat list, nat, unit, string) kafka_api" where
  "example_kafka = \<lparr>tc_GenericContainer = (\<lambda>r w. (Inr (Suc (sum_list w)), Suc (sum_list w) # w)),
     tc_Host = (\<lambda>c w. (Inr ''localhost'', w)), tc_MappedPort = (\<lambda>c p w. (Inr ''32768'', w)),
     tc_Terminate = (\<lambda>c w. (None, removeAll c w)), kc_TerminateCtx = (\<lambda>_ c w. (None, removeAll c w)),
     kc_Name = (\<lambda>c w. (Inr ''/kafkadocker-broker-1'', w)), kc_Start = (\<lambda>c w. (None, w)),
     kc_CopyTo = (\<lambda>c s p m w. (None, w)), kc_CopyFrom = (\<lambda>c p w. (Inr [], w)), kc_ReadAll = (\<lambda>r w. (Inr r, w)),
     kc_CloseReader = (\<lambda>r w. (None, w)),
     kc_Parallel = (\<lambda>rs w. (([Suc (sum_list w)], Some (ErrNew ''no room'')), Suc (sum_list w) # 1000 # w)),
     kc_NewNetwork = (\<lambda>w. (Inr (), w)), kc_NetworkName = (\<lambda>_. ''net''), kc_RemoveNetwork = (\<lambda>_ w. (None, w)),
     kb_Open = (\<lambda>_ w. (None, w)), kb_Connected = (\<lambda>_ w. (Inr True, w)), kb_Heartbeat = (\<lambda>_ w. (None, w)),
     kb_Close = (\<lambda>_ w. (None, w))\<rparr>"

lemma example_kafka_documented: "kafka_documented example_kafka set"
  by (auto simp: kafka_documented_def example_kafka_def neutral_def removes_def)

theorem broker_request_address_witness:
  "broker_address example_kafka 0 5 [5] = Ret (Inr ''localhost:32768'', [5]) \<and> broker_port 1 = dec_nat 9091"
proof -
  have "dec_nat 1 = ''1''" by (simp add: dec_nat.simps port_digits)
  then have "tc_Host example_kafka 5 [5] = (Inr ''localhost'', [5])"
    "kc_Name example_kafka 5 [5] = (Inr (''/'' @ broker_name 1), [5])"
    "tc_MappedPort example_kafka 5 (hd (cr_ExposedPorts (broker_request (\<lambda>n. [0..<n]) (\<lambda>_ _ f. f) example_kafka ''net'' 1))) [5]
       = (Inr ''32768'', [5])"
    by (simp_all add: example_kafka_def broker_name_def)
  from broker_request_address [OF this, of 0] show ?thesis by simp
qed

definition example_cluster :: "(nat, unit) Cluster" where
  "example_cluster = \<lparr>cl_Brokers = 2, cl_Topics = [], cl_HealthProbe = False, cl_Kraft = False, cl_zookeeperContainer = None,
     cl_brokerContainers = [], cl_started = False, cl_network = None\<rparr>"

text \<open>
  The parallel creation of the examples leaves a container it returns and one it does not return, and
  fails: the first is removed by \<open>Stop\<close> with that of ZooKeeper, the second stays.
\<close>

theorem kafka_start_stop_witness:
  "\<exists>e c' w' c'' w''. Cluster_Start (\<lambda>n. [0..<n]) (\<lambda>_ _ f. f) (\<lambda>_ _ f. f) (\<lambda>_ _ f. f) example_kafka example_cluster [7]
       = Ret (Some e, c', w') \<and> recorded c' = {8, 16}
     \<and> Cluster_Stop (\<lambda>n. [0..<n]) example_kafka c' w' = (None, c'', w'') \<and> set w'' = {7, 1000}"
proof -
  let ?sched = "\<lambda>n. [0..<n]" and ?rk = "\<lambda>_ _ f. f" and ?rb = "\<lambda>_ _ f. f" and ?rp = "\<lambda>_ _ f. f"
  obtain e c' where start: "Cluster_Start ?sched ?rk ?rb ?rp example_kafka example_cluster [7] = Ret (Some e, c', [16, 1000, 8, 7])"
    by (simp add: Cluster_Start_def example_cluster_def example_kafka_def startZookeeperCluster_def Let_def)
  have hyps: "retry_neutral set ?rp" "schedule ?sched" "\<not> cl_started example_cluster"
    by (simp_all add: schedule_def retry_neutral_def example_cluster_def)
  note stop = kafka_start_stop [OF example_kafka_documented hyps start]
  have "recorded c' = {8, 16}"
    using stop by (auto simp: example_cluster_def example_kafka_def)
  moreover obtain c'' w'' where "Cluster_Stop ?sched example_kafka c' [16, 1000, 8, 7] = (None, c'', w'')"
    using start
    by (auto simp: Cluster_Start_def example_cluster_def example_kafka_def startZookeeperCluster_def Let_def Cluster_Stop_def
        stop_ops_def terminate_op_def eg_Wait_def errors_Join_def List.map_filter_def)
  ultimately have "set w'' = {7, 1000}" using stop by auto
  then show ?thesis
    using start \<open>recorded c' = {8, 16}\<close> \<open>Cluster_Stop ?sched example_kafka c' [16, 1000, 8, 7] = (None, c'', w'')\<close> by blast
qed

text \<open>
  A ZooKeeper container that was made before its creation failed is not recorded, so that \<open>Stop\<close> does
  not remove it.
\<close>

theorem zookeeper_container_unrecorded:
  assumes "kafka_documented api live" and "tc_GenericContainer api (zookeeper_request n) w = (Inl (Some ctr, err), w1)"
  shows "startZookeeperCluster sched retry retry_probe api n c w
      = Ret (Some (wrap_with ''create zookeeper container'' err), c, w1) \<and> ctr \<in> live w1"
  using zookeeper_creation_fails [OF assms(2)] kafka_documentedD(1) [OF assms] by simp

text \<open>The container of the single broker is not recorded when its configuration cannot be copied.\<close>

theorem kraft_container_unrecorded:
  assumes "kafka_documented api live" and "tc_GenericContainer api (kraft_request retry api n) w = (Inr ctr, w1)"
    and "kc_CopyTo api ctr jaas_config ''/etc/kafka/kafka_server_jaas.conf'' fileMode755 w1 = (Some err, w2)"
  shows "startKraftCluster retry api n c w = Ret (Some (wrap_with ''copy jaas config to container'' err), c, w2) \<and> ctr \<in> live w2"
  using kafka_documentedD(2) [OF assms(1,2)] kafka_documentedD(4) [OF assms(1,3)]
  by (simp add: startKraftCluster_def assms(2,3))

end
