(* ===== verification/Observability.thy ===== *)
theory Observability
  imports Http_Router
begin

text \<open>
  Logging and error reporting: the handler for Google Cloud Logging (\<^verbatim>\<open>src/gcpslog\<close>), the telemetry provider
  and the error reporter (\<^verbatim>\<open>src/otel\<close>), the Sentry client and its middleware (\<^verbatim>\<open>src/sentry\<close>), and the two adapters that
  give watermill a structured logger (\<^verbatim>\<open>src/rabbitmq\<close>, \<^verbatim>\<open>src/pubsub/kafka\<close>). OpenTelemetry and Sentry are
  parameters; of \<open>log/slog\<close> the model has what the sources rely on.
\<close>

section \<open>Structured logging\<close>

text \<open>The value of an attribute: a level, a string, or another value by its text.\<close>

datatype slog_value = VLevel int | VString string | VOther string

record slog_attr =
  at_Key :: string
  at_Value :: slog_value

abbreviation LevelDebug :: int where "LevelDebug \<equiv> -4"
abbreviation LevelInfo :: int where "LevelInfo \<equiv> 0"
abbreviation LevelWarn :: int where "LevelWarn \<equiv> 4"
abbreviation LevelError :: int where "LevelError \<equiv> 8"

definition level_text :: "string \<Rightarrow> int \<Rightarrow> string" where
  "level_text base v = (if v = 0 then base else base @ (if v > 0 then ''+'' else []) @ dec_int v)"

definition level_String :: "int \<Rightarrow> string" where
  "level_String l =
     (if l < LevelInfo then level_text ''DEBUG'' (l - LevelDebug)
      else if l < LevelWarn then level_text ''INFO'' (l - LevelInfo)
      else if l < LevelError then level_text ''WARN'' (l - LevelWarn)
      else level_text ''ERROR'' (l - LevelError))"

fun value_String :: "slog_value \<Rightarrow> string" where
  "value_String (VLevel l) = level_String l"
| "value_String (VString s) = s"
| "value_String (VOther t) = t"

type_synonym ReplaceAttr = "string list \<Rightarrow> slog_attr \<Rightarrow> slog_attr"

text \<open>
  The attributes a JSON handler writes for a record, each with the groups it is in: the level and the message
  first, in no group, then those of the record, each replaced when a replacement is configured. (The time, which comes
  before them, is not touched here, and a replacement is taken not to return the empty attribute, which would be left out.)
\<close>

record slog_record =
  rec_Level :: int
  rec_Message :: string
  rec_Attrs :: "(string list \<times> slog_attr) list"

definition handler_attrs :: "ReplaceAttr option \<Rightarrow> slog_record \<Rightarrow> (string list \<times> slog_attr) list" where
  "handler_attrs rep r =
     map (\<lambda>(groups, a). (groups, case rep of None \<Rightarrow> a | Some f \<Rightarrow> f groups a))
       (([], \<lparr>at_Key = ''level'', at_Value = VLevel (rec_Level r)\<rparr>) # ([], \<lparr>at_Key = ''msg'', at_Value = VString (rec_Message r)\<rparr>)
        # rec_Attrs r)"

section \<open>Google Cloud Logging\<close>

definition severityFor :: "int \<Rightarrow> string" where
  "severityFor l =
     (if l < LevelInfo then ''DEBUG''
      else if l < LevelWarn then ''INFO''
      else if l < LevelError then ''WARNING''
      else if l < LevelError + 4 then ''ERROR''
      else ''CRITICAL'')"

definition gcp_ReplaceAttr :: "ReplaceAttr option \<Rightarrow> ReplaceAttr" where
  "gcp_ReplaceAttr prev groups a =
     (let a = (case prev of None \<Rightarrow> a | Some f \<Rightarrow> f groups a) in
      if groups \<noteq> [] then a
      else if at_Key a = ''level'' then
        (case at_Value a of VLevel lvl \<Rightarrow> \<lparr>at_Key = ''severity'', at_Value = VString (severityFor lvl)\<rparr> | _ \<Rightarrow> a)
      else if at_Key a = ''msg'' then \<lparr>at_Key = ''message'', at_Value = VString (value_String (at_Value a))\<rparr>
      else a)"

text \<open>The options are the replacement they carry, or absent.\<close>

definition gcp_NewHandler :: "ReplaceAttr option option \<Rightarrow> slog_record \<Rightarrow> (string list \<times> slog_attr) list" where
  "gcp_NewHandler opts =
     (let prev = (case opts of None \<Rightarrow> None | Some p \<Rightarrow> p) in handler_attrs (Some (gcp_ReplaceAttr prev)))"

definition severities :: "string list" where
  "severities = [''DEBUG'', ''INFO'', ''WARNING'', ''ERROR'', ''CRITICAL'']"

definition severity_rank :: "int \<Rightarrow> nat" where
  "severity_rank l = (if l < 0 then 0 else if l < 4 then 1 else if l < 8 then 2 else if l < 12 then 3 else 4)"

text \<open>
  The record as Google Cloud Logging wants it: without a replacement of the caller's the first two fields are the severity and the
  message, attributes in groups and those with other keys stay as they are, and a higher level never has
  a lower severity.
\<close>

theorem gcp_record:
  assumes "\<And>groups a. (groups, a) \<in> set (rec_Attrs r) \<Longrightarrow> groups \<noteq> [] \<or> at_Key a \<notin> {''level'', ''msg''}"
  shows "gcp_NewHandler None r =
      ([], \<lparr>at_Key = ''severity'', at_Value = VString (severityFor (rec_Level r))\<rparr>)
      # ([], \<lparr>at_Key = ''message'', at_Value = VString (rec_Message r)\<rparr>) # rec_Attrs r
    \<and> severityFor (rec_Level r) = severities ! severity_rank (rec_Level r)
    \<and> (rec_Level r \<le> l \<longrightarrow> severity_rank (rec_Level r) \<le> severity_rank l)"
proof -
  have "map (\<lambda>(groups, a). (groups, gcp_ReplaceAttr None groups a)) (rec_Attrs r) = rec_Attrs r"
    using assms by (intro map_idI) (auto simp: gcp_ReplaceAttr_def Let_def)
  then show ?thesis
    by (auto simp: gcp_NewHandler_def handler_attrs_def gcp_ReplaceAttr_def Let_def severityFor_def severities_def severity_rank_def)
qed

section \<open>Telemetry\<close>

record ('w, 'res, 'te, 'tp, 'le, 'se, 'lp) otel_api =
  ot_TraceExporter :: "string \<Rightarrow> 'w \<Rightarrow> 'te result \<times> 'w"
  ot_Resource :: "(string \<times> string) list \<Rightarrow> 'w \<Rightarrow> 'res result \<times> 'w"
  ot_NewTracerProvider :: "'res \<Rightarrow> 'te \<Rightarrow> 'w \<Rightarrow> 'tp \<times> 'w"
  ot_RuntimeStart :: "int \<Rightarrow> 'w \<Rightarrow> go_error option \<times> 'w"
  ot_SetTracerProvider :: "'tp \<Rightarrow> 'w \<Rightarrow> 'w"
  ot_SetPropagators :: "string list \<Rightarrow> 'w \<Rightarrow> 'w"
  ot_LogExporter :: "string \<Rightarrow> 'w \<Rightarrow> 'le result \<times> 'w"
  ot_StdoutExporter :: "'w \<Rightarrow> 'se result \<times> 'w"
  ot_NewLoggerProvider :: "'le \<Rightarrow> 'se \<Rightarrow> 'res \<Rightarrow> 'w \<Rightarrow> 'lp \<times> 'w"
  ot_SetLoggerProvider :: "'lp \<Rightarrow> 'w \<Rightarrow> 'w"
  ot_ShutdownTracer :: "'tp \<Rightarrow> 'w \<Rightarrow> go_error option \<times> 'w"
  ot_ShutdownLogger :: "'lp \<Rightarrow> 'w \<Rightarrow> go_error option \<times> 'w"

record ('tp, 'lp) TelemetryProvider =
  tel_tracerProvider :: 'tp
  tel_loggerProvider :: 'lp

definition BaseAttributes :: "string \<Rightarrow> string \<Rightarrow> string \<Rightarrow> (string \<times> string) list" where
  "BaseAttributes serviceName serviceNamespace version =
     [(''service.name'', serviceName), (''service.namespace'', serviceNamespace), (''service.version'', version)]"

definition otel_Init ::
  "('w, 'res, 'te, 'tp, 'le, 'se, 'lp) otel_api \<Rightarrow> string \<Rightarrow> (string \<times> string) list \<Rightarrow> 'w
   \<Rightarrow> ('tp, 'lp) TelemetryProvider result \<times> 'w" where
  "otel_Init api endpoint attributes w =
     (case ot_TraceExporter api endpoint w of
        (Inl err, w1) \<Rightarrow> (Inl (wrap_with ''create trace exporter'' err), w1)
      | (Inr te, w1) \<Rightarrow>
     (case ot_Resource api attributes w1 of
        (Inl err, w2) \<Rightarrow> (Inl (wrap_with ''create resource'' err), w2)
      | (Inr res, w2) \<Rightarrow>
     (case ot_NewTracerProvider api res te w2 of (tp, w3) \<Rightarrow>
     (case ot_RuntimeStart api 1000000000 w3 of
        (Some err, w4) \<Rightarrow> (Inl (wrap_with ''start runtime instrumentation'' err), w4)
      | (None, w4) \<Rightarrow>
     (let w5 = ot_SetPropagators api [''tracecontext'', ''baggage''] (ot_SetTracerProvider api tp w4) in
      case ot_LogExporter api endpoint w5 of
        (Inl err, w6) \<Rightarrow> (Inl (wrap_with ''create otlp log grpc exporter'' err), w6)
      | (Inr le, w6) \<Rightarrow>
     (case ot_StdoutExporter api w6 of
        (Inl err, w7) \<Rightarrow> (Inl (wrap_with ''create stdout log exporter'' err), w7)
      | (Inr se, w7) \<Rightarrow>
     (case ot_NewLoggerProvider api le se res w7 of (lp, w8) \<Rightarrow>
        (Inr \<lparr>tel_tracerProvider = tp, tel_loggerProvider = lp\<rparr>, ot_SetLoggerProvider api lp w8))))))))"

text \<open>Both providers are shut down, whatever the first returns.\<close>

definition TelemetryProvider_Close ::
  "('w, 'res, 'te, 'tp, 'le, 'se, 'lp) otel_api \<Rightarrow> ('tp, 'lp) TelemetryProvider \<Rightarrow> 'w \<Rightarrow> go_error option \<times> 'w" where
  "TelemetryProvider_Close api t w =
     (let (e1, w1) = ot_ShutdownTracer api (tel_tracerProvider t) w;
          errs = (case e1 of None \<Rightarrow> None | Some err \<Rightarrow> errors_Join [None, Some (wrap_with ''shutdown tracer provider'' err)]);
          (e2, w2) = ot_ShutdownLogger api (tel_loggerProvider t) w1;
          errs = (case e2 of None \<Rightarrow> errs | Some err \<Rightarrow> errors_Join [errs, Some (wrap_with ''shutdown logger provider'' err)])
      in (errs, w2))"

theorem telemetry_close:
  "snd (TelemetryProvider_Close api t w) =
     snd (ot_ShutdownLogger api (tel_loggerProvider t) (snd (ot_ShutdownTracer api (tel_tracerProvider t) w)))
   \<and> (fst (TelemetryProvider_Close api t w) = None \<longleftrightarrow>
       fst (ot_ShutdownTracer api (tel_tracerProvider t) w) = None
       \<and> fst (ot_ShutdownLogger api (tel_loggerProvider t) (snd (ot_ShutdownTracer api (tel_tracerProvider t) w))) = None)"
  by (auto simp: TelemetryProvider_Close_def Let_def errors_Join_def List.map_filter_def split: prod.split option.split)

section \<open>The error reporter\<close>

datatype report_event =
  DefaultLogged go_error | Logged go_error | SpanStarted | SpanRecorded go_error | SpanStatus | SpanAttributes string string | SpanEnded

record ErrorReporter =
  er_Logger :: bool
  er_TraceProvider :: bool

definition recordErrorInSpan :: "(go_error \<Rightarrow> string) \<Rightarrow> ErrorReporter \<Rightarrow> bool \<Rightarrow> go_error \<Rightarrow> report_event list" where
  "recordErrorInSpan type_name r span_valid err =
     (let record_it = [SpanRecorded err, SpanStatus, SpanAttributes (type_name err) (error_text err)] in
      if \<not> span_valid then
        (if \<not> er_TraceProvider r then [] else SpanStarted # record_it @ [SpanEnded])
      else record_it)"

definition otel_ReportError :: "(go_error \<Rightarrow> string) \<Rightarrow> ErrorReporter \<Rightarrow> bool \<Rightarrow> go_error option \<Rightarrow> report_event list" where
  "otel_ReportError type_name r span_valid oerr =
     (case oerr of
        None \<Rightarrow> []
      | Some err \<Rightarrow>
          if \<not> er_Logger r then [DefaultLogged err]
          else Logged err # recordErrorInSpan type_name r span_valid err)"

text \<open>
  An error is logged once, and recorded once in a span exactly when there is a logger and a span is active or can be
  started; a span is ended exactly when it was started here.
\<close>

theorem report_error_events:
  "length (filter (\<lambda>e. e = Logged err \<or> e = DefaultLogged err) (otel_ReportError tn r v (Some err))) = 1
   \<and> length (filter (\<lambda>e. e = SpanRecorded err) (otel_ReportError tn r v (Some err)))
       = (if er_Logger r \<and> (v \<or> er_TraceProvider r) then 1 else 0)
   \<and> (SpanEnded \<in> set (otel_ReportError tn r v (Some err)) \<longleftrightarrow> SpanStarted \<in> set (otel_ReportError tn r v (Some err)))
   \<and> otel_ReportError tn r v None = []"
  by (auto simp: otel_ReportError_def recordErrorInSpan_def Let_def)

section \<open>Sentry\<close>

abbreviation ErrNoClientOrScopeAvailable :: go_error where
  "ErrNoClientOrScopeAvailable \<equiv> ErrNew ''no client or hub available''"

abbreviation ErrDidNotFullyFlush :: go_error where
  "ErrDidNotFullyFlush \<equiv> ErrNew ''not fully flushed''"

text \<open>
  The calls of the Sentry package. Capturing returns the id of the event, or nothing; \<open>hub.Client()\<close> may be absent, so
  that capturing an exception through it may panic.
\<close>

record ('w, 'ctx, 'hub, 'span, 'rate) sentry_api =
  sn_Init :: "string \<Rightarrow> string \<Rightarrow> string \<Rightarrow> 'rate \<Rightarrow> 'w \<Rightarrow> go_error option \<times> 'w"
  sn_GetHubFromContext :: "'ctx \<Rightarrow> 'hub option"
  sn_CurrentHub :: "'w \<Rightarrow> 'hub"
  sn_ClientCaptureException :: "'hub \<Rightarrow> go_error \<Rightarrow> 'ctx \<Rightarrow> 'w \<Rightarrow> string option go \<times> 'w"
  sn_CaptureMessage :: "'hub \<Rightarrow> string \<Rightarrow> 'w \<Rightarrow> string option \<times> 'w"
  sn_Clone :: "'hub \<Rightarrow> 'w \<Rightarrow> 'hub \<times> 'w"
  sn_SetHubOnContext :: "'ctx \<Rightarrow> 'hub \<Rightarrow> 'ctx"
  sn_StartSpan :: "'ctx \<Rightarrow> string \<Rightarrow> 'w \<Rightarrow> 'span \<times> 'w"
  sn_SetTraceID :: "'span \<Rightarrow> 8 word list \<Rightarrow> 'w \<Rightarrow> 'w"
  sn_SpanContext :: "'span \<Rightarrow> 'w \<Rightarrow> 'ctx"
  sn_Finish :: "'span \<Rightarrow> 'w \<Rightarrow> 'w"
  sn_Flush :: "int \<Rightarrow> 'w \<Rightarrow> bool \<times> 'w"

datatype sentry_Client = SentryClient

definition sentry_NewClient ::
  "('w, 'ctx, 'hub, 'span, 'rate) sentry_api \<Rightarrow> string \<Rightarrow> string \<Rightarrow> string \<Rightarrow> 'rate \<Rightarrow> 'w \<Rightarrow> sentry_Client result \<times> 'w" where
  "sentry_NewClient api dsn environment release traceSampleRate w =
     (case sn_Init api dsn environment release traceSampleRate w of
        (Some err, w') \<Rightarrow> (Inl (wrap_with ''sentry init'' err), w')
      | (None, w') \<Rightarrow> (Inr SentryClient, w'))"

definition hubFromContext :: "('w, 'ctx, 'hub, 'span, 'rate) sentry_api \<Rightarrow> 'ctx \<Rightarrow> 'w \<Rightarrow> 'hub" where
  "hubFromContext api ctx w =
     (case sn_GetHubFromContext api ctx of Some hub \<Rightarrow> hub | None \<Rightarrow> sn_CurrentHub api w)"

definition sentry_ReportError ::
  "('w, 'ctx, 'hub, 'span, 'rate) sentry_api \<Rightarrow> 'ctx \<Rightarrow> go_error \<Rightarrow> 'w \<Rightarrow> go_error option go \<times> 'w" where
  "sentry_ReportError api ctx err w =
     (let hub = hubFromContext api ctx w in
      case sn_ClientCaptureException api hub err ctx w of
        (Panic m, w') \<Rightarrow> (Panic m, w')
      | (Ret None, w') \<Rightarrow> (Ret (Some ErrNoClientOrScopeAvailable), w')
      | (Ret (Some _), w') \<Rightarrow> (Ret None, w'))"

definition sentry_ReportEvent ::
  "('w, 'ctx, 'hub, 'span, 'rate) sentry_api \<Rightarrow> 'ctx \<Rightarrow> string \<Rightarrow> 'w \<Rightarrow> go_error option \<times> 'w" where
  "sentry_ReportEvent api ctx event w =
     (case sn_CaptureMessage api (hubFromContext api ctx w) event w of
        (None, w') \<Rightarrow> (Some ErrNoClientOrScopeAvailable, w')
      | (Some _, w') \<Rightarrow> (None, w'))"

text \<open>The operation may panic, with the text it panics with; then nothing after it runs.\<close>

definition MonitorOperation ::
  "('w, 'ctx, 'hub, 'span, 'rate) sentry_api \<Rightarrow> 'ctx \<Rightarrow> string \<Rightarrow> 8 word list \<Rightarrow> ('ctx \<Rightarrow> 'w \<Rightarrow> unit go \<times> 'w) \<Rightarrow> 'w \<Rightarrow> unit go \<times> 'w" where
  "MonitorOperation api ctx operation traceID doFunc w =
     (let (ctx, w1) =
        (case sn_GetHubFromContext api ctx of
           None \<Rightarrow> (case sn_Clone api (sn_CurrentHub api w) w of (hub, w1) \<Rightarrow> (sn_SetHubOnContext api ctx hub, w1))
         | Some _ \<Rightarrow> (ctx, w));
          (span, w2) = sn_StartSpan api ctx operation w1;
          w3 = sn_SetTraceID api span traceID w2
      in case doFunc (sn_SpanContext api span w3) w3 of
           (Panic m, w4) \<Rightarrow> (Panic m, w4)
         | (Ret _, w4) \<Rightarrow> (Ret (), sn_Finish api span w4))"

definition sentry_Close :: "('w, 'ctx, 'hub, 'span, 'rate) sentry_api \<Rightarrow> 'w \<Rightarrow> go_error option \<times> 'w" where
  "sentry_Close api w =
     (case sn_Flush api 1000000000 w of
        (flushed, w') \<Rightarrow> (if \<not> flushed then Some ErrDidNotFullyFlush else None, w'))"

text \<open>
  The middleware, given what \<open>client.Close()\<close> returns at the end of the request. The recovered value goes to the
  current hub and the panic is not raised again.
\<close>

definition sentry_Middleware :: "go_error option \<Rightarrow> Middleware" where
  "sentry_Middleware close_err next_handler req w =
     (let (ls, w1, p) = next_handler req w;
          captured = (case p of None \<Rightarrow> [] | Some rvr \<Rightarrow> [RSentryCaptured rvr]);
          flush = (case close_err of None \<Rightarrow> [] | Some err \<Rightarrow> [RSentryFlushError])
      in (ls @ captured @ flush, w1, None))"

text \<open>
  What is documented of Sentry: a hub put into a context is found there, and the context of a span keeps the hub of the
  context the span was started in.
\<close>

definition sentry_documented :: "('w, 'ctx, 'hub, 'span, 'rate) sentry_api \<Rightarrow> bool" where
  "sentry_documented api \<longleftrightarrow>
     (\<forall>ctx hub. sn_GetHubFromContext api (sn_SetHubOnContext api ctx hub) = Some hub)
   \<and> (\<forall>ctx op w w'. sn_GetHubFromContext api (sn_SpanContext api (fst (sn_StartSpan api ctx op w)) w') = sn_GetHubFromContext api ctx)"

text \<open>
  A monitored operation always has a hub in its context: the one of the caller, or a clone of the current one; an
  error it reports therefore goes to that hub, whatever the current hub is by then.
\<close>

theorem monitored_operation_hub:
  assumes "sentry_documented api"
  shows "\<exists>ctx' hub w' span. MonitorOperation api ctx operation tid f w
       = (case f ctx' w' of (Panic m, w4) \<Rightarrow> (Panic m, w4) | (Ret _, w4) \<Rightarrow> (Ret (), sn_Finish api span w4))
     \<and> hub = (case sn_GetHubFromContext api ctx of Some hub \<Rightarrow> hub | None \<Rightarrow> fst (sn_Clone api (sn_CurrentHub api w) w))
     \<and> (\<forall>v. hubFromContext api ctx' v = hub)"
proof -
  define hub where "hub = (case sn_GetHubFromContext api ctx of Some hub \<Rightarrow> hub | None \<Rightarrow> fst (sn_Clone api (sn_CurrentHub api w) w))"
  obtain ctx1 w1 where start: "(case sn_GetHubFromContext api ctx of
           None \<Rightarrow> (case sn_Clone api (sn_CurrentHub api w) w of (hub, w1) \<Rightarrow> (sn_SetHubOnContext api ctx hub, w1))
         | Some _ \<Rightarrow> (ctx, w)) = (ctx1, w1)"
    by (meson surj_pair)
  then have "sn_GetHubFromContext api ctx1 = Some hub"
    using assms by (auto simp: sentry_documented_def hub_def split: option.splits prod.splits)
  moreover obtain span w2 where span: "sn_StartSpan api ctx1 operation w1 = (span, w2)"
    by (meson surj_pair)
  ultimately have "hubFromContext api (sn_SpanContext api span v) u = hub" for v u
    using assms unfolding sentry_documented_def hubFromContext_def by (metis fst_conv option.simps(5))
  moreover have "MonitorOperation api ctx operation tid f w
      = (let w3 = sn_SetTraceID api span tid w2 in
         case f (sn_SpanContext api span w3) w3 of (Panic m, w4) \<Rightarrow> (Panic m, w4) | (Ret _, w4) \<Rightarrow> (Ret (), sn_Finish api span w4))"
    unfolding MonitorOperation_def start Let_def by (simp add: span)
  ultimately show ?thesis
    unfolding hub_def [symmetric] Let_def by blast
qed

lemma handle_error_not_captured: "RSentryCaptured v \<notin> set (fst (run_HandleError depth err req w))"
  by (auto simp: run_HandleError_def split: go.split option.split)

text \<open>
  C12. A panic of a handler is reported to Sentry or handled by the recovering middleware, never both. Inside the recovering middleware
  the Sentry middleware swallows the panic: it is captured, the response stays as the handler left it and the recovering
  middleware sees a normal return, so that the client gets no error status. Outside it, nothing is captured: the recovering middleware
  answers with status 500 when the handler had not sent a header before it panicked; when it had, that status stays, and the panic is
  neither reported nor answered with 500. The conditions are that a broken connection does not fail with an HTTP error, and that the handler has not captured the value of
  the panic itself.
\<close>

theorem sentry_with_recoverer:
  assumes "h req w = (ls, w1, Some v)" and "\<forall>e. rw_writeErr w1 = Some e \<longrightarrow> errors_As as_http e = None"
    and "RSentryCaptured v \<notin> set ls"
  shows "(\<exists>logs. Recoverer depth (sentry_Middleware close_err h) req w = (logs, w1, None) \<and> RSentryCaptured v \<in> set logs)
    \<and> (\<exists>logs w'. sentry_Middleware close_err (Recoverer 2 h) req w = (logs, w', None)
         \<and> rw_status w' = Some (case rw_status w1 of None \<Rightarrow> 500 | Some c \<Rightarrow> c) \<and> RSentryCaptured v \<notin> set logs)"
proof -
  obtain ls2 w2 where answer: "run_HandleError 2 (Some (of_HTTPError (httpError 500 InternalServerErrorText))) req w1
      = (ls2, w2, None)" and "rw_status w2 = Some (case rw_status w1 of None \<Rightarrow> 500 | Some c \<Rightarrow> c)"
    using internal_error_answered [OF assms(2)] by blast
  moreover have "RSentryCaptured v \<notin> set ls2"
    using handle_error_not_captured [of v 2 "Some (of_HTTPError (httpError 500 InternalServerErrorText))" req w1] answer by simp
  ultimately show ?thesis
    using assms(1,3)
    by (auto simp: Recoverer_def MiddlewareFunc_def sentry_Middleware_def Let_def split: option.split)
qed

text \<open>A handler that panics at once, and one that panics after it sent status 202.\<close>

theorem sentry_with_recoverer_witness:
  "(\<exists>logs. Recoverer 2 (sentry_Middleware (Some ErrDidNotFullyFlush) (\<lambda>_ w. ([], w, Some ''boom''))) example_request fresh_response
       = (logs, fresh_response, None) \<and> RSentryCaptured ''boom'' \<in> set logs)
   \<and> (\<exists>logs w'. sentry_Middleware (Some ErrDidNotFullyFlush) (Recoverer 2 (\<lambda>_ w. ([], w\<lparr>rw_status := Some 202\<rparr>, Some ''boom'')))
         example_request fresh_response = (logs, w', None) \<and> rw_status w' = Some 202 \<and> RSentryCaptured ''boom'' \<notin> set logs)"
  using sentry_with_recoverer [of "\<lambda>_ w. ([], w, Some ''boom'')" example_request fresh_response "[]" fresh_response "''boom''" 2]
    sentry_with_recoverer [of "\<lambda>_ w. ([], w\<lparr>rw_status := Some 202\<rparr>, Some ''boom'')" example_request fresh_response "[]"
      "fresh_response\<lparr>rw_status := Some 202\<rparr>" "''boom''" 2]
  by (simp add: fresh_response_def)

section \<open>Loggers for watermill\<close>

text \<open>
  A \<open>slog\<close> logger: the levels its handler accepts and the attributes it was derived with. A call writes at most one line:
  level, message and attributes.
\<close>

record slog_logger =
  lg_enabled :: "int \<Rightarrow> bool"
  lg_attrs :: "slog_attr list"

type_synonym slog_line = "int \<times> string \<times> slog_attr list"

definition slog_write :: "slog_logger \<Rightarrow> int \<Rightarrow> string \<Rightarrow> slog_attr list \<Rightarrow> slog_line list" where
  "slog_write l level msg attrs = (if lg_enabled l level then [(level, msg, lg_attrs l @ attrs)] else [])"

definition slog_With :: "slog_logger \<Rightarrow> slog_attr list \<Rightarrow> slog_logger" where
  "slog_With l attrs = l\<lparr>lg_attrs := lg_attrs l @ attrs\<rparr>"

text \<open>The fields of a call, in the order in which the loop over the map visits them.\<close>

type_synonym LogFields = "(string \<times> slog_value) list"

definition slog_Any :: "string \<Rightarrow> slog_value \<Rightarrow> slog_attr" where
  "slog_Any k v = \<lparr>at_Key = k, at_Value = v\<rparr>"

definition error_attr :: "go_error option \<Rightarrow> slog_attr" where
  "error_attr err = slog_Any ''error'' (VOther (case err of None \<Rightarrow> ''<nil>'' | Some e \<Rightarrow> error_text e))"

text \<open>
  What watermill relies on: a derived logger writes what its parent writes when it is given the fields of the
  derivation before those of the call.
\<close>

locale watermill_logger =
  fixes err_call :: "'l \<Rightarrow> string \<Rightarrow> go_error option \<Rightarrow> LogFields \<Rightarrow> slog_line list"
    and call :: "int \<Rightarrow> 'l \<Rightarrow> string \<Rightarrow> LogFields \<Rightarrow> slog_line list"
    and derive :: "'l \<Rightarrow> LogFields \<Rightarrow> 'l"
  assumes err_derive: "err_call (derive l fs) msg err gs = err_call l msg err (fs @ gs)"
    and call_derive: "call k (derive l fs) msg gs = call k l msg (fs @ gs)"
begin

lemma call_fold: "call k (foldl derive l fss) msg gs = call k l msg (concat fss @ gs)"
  by (induction fss arbitrary: gs rule: rev_induct) (simp_all add: call_derive)

lemma err_fold: "err_call (foldl derive l fss) msg err gs = err_call l msg err (concat fss @ gs)"
  by (induction fss arbitrary: gs rule: rev_induct) (simp_all add: err_derive)

end

subsection \<open>The adapter of the RabbitMQ package\<close>

record SlogLogger =
  sl_log :: slog_logger
  sl_trace :: bool
  sl_debug :: bool

definition NewSlogLoggerAdapter :: "slog_logger \<Rightarrow> bool \<Rightarrow> bool \<Rightarrow> SlogLogger" where
  "NewSlogLoggerAdapter log trace debug = \<lparr>sl_log = log, sl_trace = trace, sl_debug = debug\<rparr>"

fun rmq_map2attrs :: "LogFields \<Rightarrow> slog_attr list" where
  "rmq_map2attrs [] = []"
| "rmq_map2attrs ((k, v) # m) = slog_Any k v # rmq_map2attrs m"

definition SlogLogger_Error :: "SlogLogger \<Rightarrow> string \<Rightarrow> go_error option \<Rightarrow> LogFields \<Rightarrow> slog_line list" where
  "SlogLogger_Error l msg err m = slog_write (sl_log l) LevelError msg (rmq_map2attrs m @ [error_attr err])"

definition SlogLogger_Info :: "SlogLogger \<Rightarrow> string \<Rightarrow> LogFields \<Rightarrow> slog_line list" where
  "SlogLogger_Info l msg m = slog_write (sl_log l) LevelInfo msg (rmq_map2attrs m)"

definition SlogLogger_Debug :: "SlogLogger \<Rightarrow> string \<Rightarrow> LogFields \<Rightarrow> slog_line list" where
  "SlogLogger_Debug l msg m = (if \<not> sl_debug l then [] else slog_write (sl_log l) LevelDebug msg (rmq_map2attrs m))"

definition SlogLogger_Trace :: "SlogLogger \<Rightarrow> string \<Rightarrow> LogFields \<Rightarrow> slog_line list" where
  "SlogLogger_Trace l msg m = (if \<not> sl_trace l then [] else slog_write (sl_log l) LevelDebug msg (rmq_map2attrs m))"

definition SlogLogger_With :: "SlogLogger \<Rightarrow> LogFields \<Rightarrow> SlogLogger" where
  "SlogLogger_With l m = \<lparr>sl_log = slog_With (sl_log l) (rmq_map2attrs m), sl_trace = sl_trace l, sl_debug = sl_debug l\<rparr>"

lemma rmq_map2attrs_append [simp]: "rmq_map2attrs (m @ n) = rmq_map2attrs m @ rmq_map2attrs n"
  by (induction m rule: rmq_map2attrs.induct) simp_all

text \<open>The three calls without an error, numbered.\<close>

definition SlogLogger_call :: "int \<Rightarrow> SlogLogger \<Rightarrow> string \<Rightarrow> LogFields \<Rightarrow> slog_line list" where
  "SlogLogger_call k = (if k = 0 then SlogLogger_Info else if k = 1 then SlogLogger_Debug else SlogLogger_Trace)"

lemmas SlogLogger_defs = SlogLogger_Error_def SlogLogger_Info_def SlogLogger_Debug_def SlogLogger_Trace_def
  SlogLogger_With_def slog_write_def slog_With_def

interpretation rmq_logger: watermill_logger SlogLogger_Error SlogLogger_call SlogLogger_With
  by unfold_locales (simp_all add: SlogLogger_call_def SlogLogger_defs)

subsection \<open>The adapter of the Kafka package\<close>

record kafka_slogLogger =
  ksl_log :: slog_logger
  ksl_trace :: bool
  ksl_debug :: bool

definition newLoggerAdapter :: "slog_logger \<Rightarrow> kafka_slogLogger" where
  "newLoggerAdapter log = \<lparr>ksl_log = log, ksl_trace = False, ksl_debug = False\<rparr>"

fun kafka_map2attrs :: "LogFields \<Rightarrow> slog_attr list" where
  "kafka_map2attrs [] = []"
| "kafka_map2attrs ((k, v) # m) = slog_Any k v # kafka_map2attrs m"

definition slogLogger_Error :: "kafka_slogLogger \<Rightarrow> string \<Rightarrow> go_error option \<Rightarrow> LogFields \<Rightarrow> slog_line list" where
  "slogLogger_Error l msg err m = slog_write (ksl_log l) LevelError msg (kafka_map2attrs m @ [error_attr err])"

definition slogLogger_Info :: "kafka_slogLogger \<Rightarrow> string \<Rightarrow> LogFields \<Rightarrow> slog_line list" where
  "slogLogger_Info l msg m = slog_write (ksl_log l) LevelInfo msg (kafka_map2attrs m)"

definition slogLogger_Debug :: "kafka_slogLogger \<Rightarrow> string \<Rightarrow> LogFields \<Rightarrow> slog_line list" where
  "slogLogger_Debug l msg m = (if \<not> ksl_debug l then [] else slog_write (ksl_log l) LevelDebug msg (kafka_map2attrs m))"

definition slogLogger_Trace :: "kafka_slogLogger \<Rightarrow> string \<Rightarrow> LogFields \<Rightarrow> slog_line list" where
  "slogLogger_Trace l msg m = (if \<not> ksl_trace l then [] else slog_write (ksl_log l) LevelDebug msg (kafka_map2attrs m))"

definition slogLogger_With :: "kafka_slogLogger \<Rightarrow> LogFields \<Rightarrow> kafka_slogLogger" where
  "slogLogger_With l m = \<lparr>ksl_log = slog_With (ksl_log l) (kafka_map2attrs m), ksl_trace = ksl_trace l, ksl_debug = ksl_debug l\<rparr>"

lemma kafka_map2attrs_append [simp]: "kafka_map2attrs (m @ n) = kafka_map2attrs m @ kafka_map2attrs n"
  by (induction m rule: kafka_map2attrs.induct) simp_all

definition slogLogger_call :: "int \<Rightarrow> kafka_slogLogger \<Rightarrow> string \<Rightarrow> LogFields \<Rightarrow> slog_line list" where
  "slogLogger_call k = (if k = 0 then slogLogger_Info else if k = 1 then slogLogger_Debug else slogLogger_Trace)"

lemmas slogLogger_defs = slogLogger_Error_def slogLogger_Info_def slogLogger_Debug_def slogLogger_Trace_def
  slogLogger_With_def slog_write_def slog_With_def

interpretation kafka_logger: watermill_logger slogLogger_Error slogLogger_call slogLogger_With
  by unfold_locales (simp_all add: slogLogger_call_def slogLogger_defs)

text \<open>
  However often the adapters are derived, a call writes what the first adapter writes with all fields in order; the
  adapter of the Kafka package stays silent for debug and trace calls.
\<close>

theorem derived_loggers:
  "SlogLogger_Info (foldl SlogLogger_With l fss) msg fs = SlogLogger_Info l msg (concat fss @ fs)
   \<and> SlogLogger_Error (foldl SlogLogger_With l fss) msg err fs = SlogLogger_Error l msg err (concat fss @ fs)
   \<and> slogLogger_Error (foldl slogLogger_With k fss) msg err fs = slogLogger_Error k msg err (concat fss @ fs)
   \<and> slogLogger_Debug (foldl slogLogger_With (newLoggerAdapter log) fss) msg fs = []
   \<and> slogLogger_Trace (foldl slogLogger_With (newLoggerAdapter log) fss) msg fs = []"
  using rmq_logger.call_fold [of 0 l fss msg fs] rmq_logger.err_fold [of l fss msg err fs]
    kafka_logger.err_fold [of k fss msg err fs]
    kafka_logger.call_fold [of 1 "newLoggerAdapter log" fss msg fs] kafka_logger.call_fold [of 2 "newLoggerAdapter log" fss msg fs]
  by (simp add: SlogLogger_call_def slogLogger_call_def newLoggerAdapter_def slogLogger_Debug_def slogLogger_Trace_def)

end
