(* ===== verification/Helpers.thy ===== *)
theory Helpers
  imports Go_Errors
begin

text \<open>
  Three small packages: the watermill configurations for RabbitMQ (\<^verbatim>\<open>src/rabbitmq/rabbitmq_utils.go\<close>), UUID strings
  (\<^verbatim>\<open>src/uuid/uuid.go\<close>) and the databases for tests (\<^verbatim>\<open>src/psqltest\<close>). watermill, the UUID library, the transaction
  driver and the data loader are parameters.
\<close>

section \<open>Configurations for RabbitMQ\<close>

record ConnectionConfig =
  cn_AmqpURI :: string

record ExchangeConfig =
  ex_GenerateName :: "string \<Rightarrow> string"
  ex_Type :: string
  ex_Durable :: bool

record QueueConfig =
  qu_GenerateName :: "string \<Rightarrow> string"
  qu_Durable :: bool

text \<open>
  The configuration as the source fills it: the marshaler and the topology builder are the library's defaults, given
  as parameters.
\<close>

record ('m, 't) amqp_Config =
  ac_Connection :: ConnectionConfig
  ac_Marshaler :: 'm
  ac_Exchange :: ExchangeConfig
  ac_Queue :: QueueConfig
  ac_BindRoutingKey :: "string \<Rightarrow> string"
  ac_PublishRoutingKey :: "string \<Rightarrow> string"
  ac_PrefetchCount :: int
  ac_TopologyBuilder :: 't

record ('m, 't) watermill_amqp =
  wa_DefaultMarshaler :: 'm
  wa_DefaultTopologyBuilder :: 't
  wa_QueueNameWithSuffix :: "string \<Rightarrow> string \<Rightarrow> string"
  wa_ValidateSubscriber :: "('m, 't) amqp_Config \<Rightarrow> go_error option"
  wa_ValidatePublisher :: "('m, 't) amqp_Config \<Rightarrow> go_error option"

definition NewSubscriberConfig ::
  "('m, 't) watermill_amqp \<Rightarrow> string \<Rightarrow> string \<Rightarrow> string \<Rightarrow> string \<Rightarrow> ('m, 't) amqp_Config result" where
  "NewSubscriberConfig wa amqpURI queueSuffix exchange routeKey =
     (let cfg = \<lparr>ac_Connection = \<lparr>cn_AmqpURI = amqpURI\<rparr>,
            ac_Marshaler = wa_DefaultMarshaler wa,
            ac_Exchange = \<lparr>ex_GenerateName = (\<lambda>topic. exchange), ex_Type = ''direct'', ex_Durable = True\<rparr>,
            ac_Queue = \<lparr>qu_GenerateName = wa_QueueNameWithSuffix wa queueSuffix, qu_Durable = True\<rparr>,
            ac_BindRoutingKey = (\<lambda>topic. routeKey),
            ac_PublishRoutingKey = (\<lambda>topic. routeKey),
            ac_PrefetchCount = 1,
            ac_TopologyBuilder = wa_DefaultTopologyBuilder wa\<rparr>
      in case wa_ValidateSubscriber wa cfg of
           Some err \<Rightarrow> Inl (wrap_with ''validate subscriber config'' err)
         | None \<Rightarrow> Inr cfg)"

definition NewPublisherConfig ::
  "('m, 't) watermill_amqp \<Rightarrow> string \<Rightarrow> string \<Rightarrow> string \<Rightarrow> string \<Rightarrow> ('m, 't) amqp_Config result" where
  "NewPublisherConfig wa amqpURI queueSuffix exchange routeKey =
     (let config = \<lparr>ac_Connection = \<lparr>cn_AmqpURI = amqpURI\<rparr>,
            ac_Marshaler = wa_DefaultMarshaler wa,
            ac_Exchange = \<lparr>ex_GenerateName = (\<lambda>topic. exchange), ex_Type = ''direct'', ex_Durable = True\<rparr>,
            ac_Queue = \<lparr>qu_GenerateName = wa_QueueNameWithSuffix wa queueSuffix, qu_Durable = True\<rparr>,
            ac_BindRoutingKey = (\<lambda>topic. routeKey),
            ac_PublishRoutingKey = (\<lambda>topic. routeKey),
            ac_PrefetchCount = 1,
            ac_TopologyBuilder = wa_DefaultTopologyBuilder wa\<rparr>
      in case wa_ValidatePublisher wa config of
           Some err \<Rightarrow> Inl err
         | None \<Rightarrow> Inr config)"

text \<open>
  A queue of a direct exchange gets a message exactly when the key it is bound with is the key the message is published with.
\<close>

definition direct_routed :: "('m, 't) amqp_Config \<Rightarrow> string \<Rightarrow> ('m, 't) amqp_Config \<Rightarrow> string \<Rightarrow> bool" where
  "direct_routed pub topic sub topic' \<longleftrightarrow>
     ex_Type (ac_Exchange pub) = ''direct'' \<and> ex_Type (ac_Exchange sub) = ''direct''
   \<and> ex_GenerateName (ac_Exchange pub) topic = ex_GenerateName (ac_Exchange sub) topic'
   \<and> ac_PublishRoutingKey pub topic = ac_BindRoutingKey sub topic'"

text \<open>
  The topic plays no part in the routing: a publisher and a subscriber meet exactly when exchange and routing key agree,
  and then every subscription gets the messages of every topic.
\<close>

theorem rabbitmq_topics_ignored:
  assumes "NewPublisherConfig wa uri qs exchange key = Inr pub"
    and "NewSubscriberConfig wa uri' qs' exchange' key' = Inr sub"
  shows "direct_routed pub topic sub topic' \<longleftrightarrow> exchange = exchange' \<and> key = key'"
  using assms by (auto simp: NewPublisherConfig_def NewSubscriberConfig_def direct_routed_def Let_def split: option.splits)

section \<open>UUID strings\<close>

record ('w, 'u) uuid_api =
  uu_NewV7 :: "'w \<Rightarrow> 'u result \<times> 'w"
  uu_FromString :: "string \<Rightarrow> 'u result"
  uu_String :: "'u \<Rightarrow> string"

text \<open>\<open>uuid.Must\<close> panics with the error.\<close>

definition uuid_NewString :: "('w, 'u) uuid_api \<Rightarrow> 'w \<Rightarrow> string go \<times> 'w" where
  "uuid_NewString api w =
     (case uu_NewV7 api w of
        (Inl err, w') \<Rightarrow> (Panic (error_text err), w')
      | (Inr u, w') \<Rightarrow> (Ret (uu_String api u), w'))"

definition uuid_ParseString :: "('w, 'u) uuid_api \<Rightarrow> string \<Rightarrow> string result" where
  "uuid_ParseString api s =
     (case uu_FromString api s of Inl err \<Rightarrow> Inl err | Inr parsed \<Rightarrow> Inr (uu_String api parsed))"

text \<open>What is documented of the library: the text of an identifier is read back as that identifier.\<close>

definition uuid_documented :: "('w, 'u) uuid_api \<Rightarrow> bool" where
  "uuid_documented api \<longleftrightarrow> (\<forall>u. uu_FromString api (uu_String api u) = Inr u)"

text \<open>A new string and a parsed one are canonical: parsing them gives them back.\<close>

theorem uuid_canonical:
  assumes "uuid_documented api"
  shows "(\<forall>s w'. uuid_NewString api w = (Ret s, w') \<longrightarrow> uuid_ParseString api s = Inr s)
    \<and> (\<forall>t s. uuid_ParseString api t = Inr s \<longrightarrow> uuid_ParseString api s = Inr s)"
  using assms
  by (auto simp: uuid_documented_def uuid_NewString_def uuid_ParseString_def split: sum.splits prod.splits)

section \<open>Databases for tests\<close>

record ('w, 'db) txdb_api =
  tx_Register :: "string \<Rightarrow> string \<Rightarrow> string \<Rightarrow> 'w \<Rightarrow> 'w"
  tx_Open :: "string \<Rightarrow> string \<Rightarrow> 'w \<Rightarrow> 'db result \<times> 'w"
  tx_Ping :: "'db \<Rightarrow> 'w \<Rightarrow> go_error option \<times> 'w"
  tx_Close :: "'db \<Rightarrow> 'w \<Rightarrow> go_error option \<times> 'w"
  tx_Pollute :: "'db \<Rightarrow> string \<Rightarrow> 'w \<Rightarrow> go_error option \<times> 'w"

abbreviation tx_driver :: string where "tx_driver \<equiv> ''pgsqltx''"
abbreviation tx_psqlDriver :: string where "tx_psqlDriver \<equiv> ''postgres''"

definition tx_RegisterDriver :: "('w, 'db) txdb_api \<Rightarrow> string \<Rightarrow> 'w \<Rightarrow> 'w" where
  "tx_RegisterDriver api dsn = tx_Register api tx_driver tx_psqlDriver dsn"

text \<open>
  A test: its name and the functions registered for its end, latest first. \<open>Fatalf\<close> ends the test with a text: what follows does not run.
\<close>

record 'w testing_T =
  t_Name :: string
  t_Cleanup :: "('w \<Rightarrow> 'w) list"

definition NewTransactionTestingDB ::
  "('w, 'db) txdb_api \<Rightarrow> 'w testing_T \<Rightarrow> 'w \<Rightarrow> (string + 'db) \<times> 'w testing_T \<times> 'w" where
  "NewTransactionTestingDB api t w =
     (case tx_Open api tx_driver (t_Name t) w of
        (Inl err, w1) \<Rightarrow> (Inl (''open txdb conn: '' @ error_text err), t, w1)
      | (Inr db, w1) \<Rightarrow>
     (case tx_Ping api db w1 of
        (Some err, w2) \<Rightarrow> (Inl (''ping: '' @ error_text err), t, w2)
      | (None, w2) \<Rightarrow> (Inr db, t\<lparr>t_Cleanup := (\<lambda>w. snd (tx_Close api db w)) # t_Cleanup t\<rparr>, w2)))"

definition run_cleanups :: "'w testing_T \<Rightarrow> 'w \<Rightarrow> 'w" where
  "run_cleanups t w = fold (\<lambda>f w. f w) (t_Cleanup t) w"

definition NewTransactionDB :: "('w, 'db) txdb_api \<Rightarrow> string \<Rightarrow> 'w \<Rightarrow> 'db result \<times> 'w" where
  "NewTransactionDB api dsn w =
     (case tx_Open api tx_driver dsn w of
        (Inl err, w1) \<Rightarrow> (Inl (wrap_with ''open txdb conn'' err), w1)
      | (Inr db, w1) \<Rightarrow>
     (case tx_Ping api db w1 of
        (Some err, w2) \<Rightarrow> (Inl (wrap_with ''ping'' err), w2)
      | (None, w2) \<Rightarrow> (Inr db, w2)))"

definition YamlPollute :: "('w, 'db) txdb_api \<Rightarrow> string \<Rightarrow> 'db \<Rightarrow> 'w \<Rightarrow> go_error option \<times> 'w" where
  "YamlPollute api yamlReader db = tx_Pollute api db yamlReader"

text \<open>What is documented of \<open>database/sql\<close>: an opened database stays open until it is closed.\<close>

definition txdb_documented :: "('w, 'db) txdb_api \<Rightarrow> ('w \<Rightarrow> nat) \<Rightarrow> bool" where
  "txdb_documented api opened \<longleftrightarrow>
     (\<forall>d s w e w'. tx_Open api d s w = (Inl e, w') \<longrightarrow> opened w' = opened w)
   \<and> (\<forall>d s w db w'. tx_Open api d s w = (Inr db, w') \<longrightarrow> opened w' = Suc (opened w))
   \<and> (\<forall>db w. opened (snd (tx_Ping api db w)) = opened w)
   \<and> (\<forall>db w. opened (snd (tx_Close api db w)) = opened w - 1)"

text \<open>
  The database of a test is closed when the test ends. A database that does not answer the ping stays open: with an
  error returned, exactly the failures of the ping leave one more open database than there was.
\<close>

theorem testing_db_closed:
  assumes "txdb_documented api opened" and "t_Cleanup t = []"
  shows "(\<forall>db t' w'. NewTransactionTestingDB api t w = (Inr db, t', w') \<longrightarrow> opened (run_cleanups t' w') = opened w)
    \<and> (\<forall>m t' w'. NewTransactionTestingDB api t w = (Inl m, t', w') \<longrightarrow>
         opened (run_cleanups t' w') = opened w + (case fst (tx_Open api tx_driver (t_Name t) w) of Inl _ \<Rightarrow> 0 | Inr _ \<Rightarrow> 1))"
proof (cases "tx_Open api tx_driver (t_Name t) w")
  case (Pair r w1)
  show ?thesis
  proof (cases r)
    case (Inl e)
    then show ?thesis
      using assms Pair by (auto simp: NewTransactionTestingDB_def txdb_documented_def run_cleanups_def)
  next
    case (Inr db)
    obtain e w2 where ping: "tx_Ping api db w1 = (e, w2)"
      by (cases "tx_Ping api db w1")
    have "opened w1 = Suc (opened w)" "opened w2 = opened w1"
      using assms(1) Pair Inr ping unfolding txdb_documented_def by (blast, metis snd_conv)
    moreover have "opened (snd (tx_Close api db w2)) = opened w2 - 1"
      using assms(1) unfolding txdb_documented_def by blast
    ultimately show ?thesis
      using assms(2) Pair Inr ping by (cases e) (auto simp: NewTransactionTestingDB_def run_cleanups_def)
  qed
qed

end
