(* ===== verification/Spec2Isabelle.thy ===== *)
theory Spec2Isabelle
  imports Blocking_Queue Value_Int Signed_Cookie Inmem_Delivery Kafka_Interop Pagination_Sql
    Pagination_Redis Grpc_Serve Auth Worker_Amqp Http_Server
    Http_Router Smartbear Money Pubsub_Lite Psql_Util Kafka_Docker Observability Helpers
begin

text \<open>
  A verification library for go-commons (\<^verbatim>\<open>src/\<close>), a collection of Go packages that services share: errors, values,
  pagination, publish-subscribe, background jobs, gRPC and HTTP servers, authentication, database helpers, logging and error reporting,
  and containers for tests. Every theory translates the Go code of its package into HOL definitions that keep the source's names
  and proves what makes the package correct; where the code does something else than it means to, a theorem states what it does.

  \<^bold>\<open>How the program is put together.\<close> The application error of \<^verbatim>\<open>errors\<close> is the common currency: \<^verbatim>\<open>psqlutil\<close> translates database
  errors into it, \<^verbatim>\<open>errors/errorsgrpc\<close> carries it over gRPC, \<^verbatim>\<open>smartbear\<close> and \<^verbatim>\<open>http\<close> render it, and the gRPC server and the
  HTTP router log, report and recover around the handlers that return it. \<^verbatim>\<open>pagination\<close> encodes cursors and serves pages from PostgreSQL or
  Redis. \<^verbatim>\<open>pubsub\<close> is an interface with three implementations, \<^verbatim>\<open>pubsublite\<close> a smaller one over AMQP, \<^verbatim>\<open>worker\<close> runs jobs from AMQP queues.

  \<^bold>\<open>Shared theories.\<close>
  \<^item> \<open>Go_Prelude\<close>: calls that return or panic (\<open>'a go\<close>), buffered channels, runs of a labelled machine, decimal numerals, and the
    interfaces \<open>invariant_machine\<close> and \<open>codec\<close>.
  \<^item> \<open>Go_Errors\<close>: error values as trees with \<open>errors.Is\<close>, \<open>errors.As\<close> and \<open>errors.Join\<close>, and package \<^verbatim>\<open>errors\<close>.
  \<^item> \<open>Go_BigInt\<close>, \<open>Go_BigFloat\<close>, \<open>Go_Encoding\<close>, \<open>Go_Time\<close>, \<open>Go_Json\<close>, \<open>Go_Path\<close>: what the sources use of the standard library
    (\<open>math/big\<close>, base64, hex, SHA-256 and HMAC, RFC 3339 times, JSON strings, slash paths), with the round trips and bounds the components need.

  \<^bold>\<open>Components\<close>, with the files they model and what is shown:
  \<^item> \<open>Blocking_Queue\<close> (\<^verbatim>\<open>blockingqueue/queue.go\<close>): under every interleaving of \<open>Take\<close> with the
    iterations of \<open>Refill\<close> the elements come out cyclically, in order.
  \<^item> \<open>Value_Int\<close>, \<open>Money\<close> (\<^verbatim>\<open>value/int.go\<close>, \<^verbatim>\<open>value/money/money.go\<close>): text, JSON, SQL and byte round trips, the 64-bit range, the order;
    which amounts survive the 64-bit floats exactly and how far the others are off.
  \<^item> \<open>Pagination\<close>, \<open>Pagination_Sql\<close>, \<open>Pagination_Redis\<close> (\<^verbatim>\<open>pagination\<close>): cursors decode to what was encoded; which item types make
    a cursor; a forward or backward page is the
    stretch of the listing behind its cursor with exact page information; both paginators refine the abstract \<open>keyset_source\<close>, so that the
    client \<open>follow_pages\<close>, which reads \<open>HasNextPage\<close> and \<open>EndCursor\<close> of the page information, gets everything once.
  \<^item> \<open>Pubsub\<close>, \<open>Pubsub_Inmem\<close>, \<open>Inmem_Delivery\<close>, \<open>Kafka_Config\<close>, \<open>Kafka_Sarama\<close>, \<open>Kafka_Watermill\<close>,
    \<open>Kafka_Interop\<close>, \<open>Pubsub_Lite\<close> (\<^verbatim>\<open>pubsub\<close>, \<^verbatim>\<open>pubsublite\<close>): every
    goroutine is a step relation. In memory no send on a closed channel, no channel closed twice and no other panic, and the in-memory service refines a ledger of
    the events published to each subscription; one unanswered message at a time and exactly the
    acknowledged ones marked in Kafka; what is published comes back, also from one Kafka package to the other; the
    subscription over watermill, which acknowledges nothing, stalls; where a crash or a blocked goroutine remains possible.
  \<^item> \<open>Worker_Amqp\<close> (\<^verbatim>\<open>worker\<close>): performed jobs reach the queue of their handler, which is run on those among the first
    \<open>maxConcurrency\<close> deliveries; there the consumer stops.
  \<^item> \<open>Errors_Grpc\<close>, \<open>Grpc_Server\<close>, \<open>Grpc_Lifecycle\<close>, \<open>Grpc_Serve\<close> (\<^verbatim>\<open>errors/errorsgrpc\<close>, \<^verbatim>\<open>grpc\<close>): errors across a call, the chain of
    interceptors, error and panic handling, options and construction, \<open>Close\<close>, and serving with concurrent calls of \<open>Close\<close>.
  \<^item> \<open>Auth\<close> (\<^verbatim>\<open>auth\<close>): exactly the requests with a valid signed token of an allowed role reach a protected handler.
  \<^item> \<open>Http_Server\<close>, \<open>Signed_Cookie\<close> (\<^verbatim>\<open>httpserver\<close>): the life cycle of \<open>Serve\<close> and \<open>Shutdown\<close>, whose deferred close of
    \<open>done\<close> is a step of its own; exactly the values with the right HMAC
    under a key of the ring verify, and what \<open>Set\<close> writes verifies until its key leaves the ring.
  \<^item> \<open>Http_Error\<close>, \<open>Http_Router\<close>, \<open>Smartbear\<close> (\<^verbatim>\<open>http\<close>, \<^verbatim>\<open>smartbear\<close>): when \<open>HandleError\<close> returns, panics or recurses without end, and
    that it hides internal errors; panics are answered with 500, unless a header was sent before; problem documents and their statuses.
  \<^item> \<open>Rand_String\<close> (\<^verbatim>\<open>rand\<close>): the rejection loop equals its reference.
  \<^item> \<open>Psql_Util\<close>, \<open>Docker_Containers\<close>, \<open>Kafka_Docker\<close>, \<open>Helpers\<close> (\<^verbatim>\<open>psqlutil\<close>, \<^verbatim>\<open>psqldocker\<close>, \<^verbatim>\<open>clickhousedocker\<close>,
    \<^verbatim>\<open>rabbitmq\<close>, \<^verbatim>\<open>kafkadocker\<close>, \<^verbatim>\<open>psqltest\<close>, \<^verbatim>\<open>uuid\<close>): error translation, connection strings, the search for the schema; what a failed or stopped
    container leaves behind.
  \<^item> \<open>Observability\<close> (\<^verbatim>\<open>gcpslog\<close>, \<^verbatim>\<open>otel\<close>, \<^verbatim>\<open>sentry\<close>, and the two logger adapters for watermill): severities, reporting, and how the Sentry
    middleware meets the recovering one.
  \<^item> This theory: a database error on its way through \<^verbatim>\<open>psqlutil\<close> to the gRPC and HTTP clients.

  \<^bold>\<open>State and concurrency.\<close> Mutable structs are records that operations return updated. Code under a mutex is one step; where goroutines
  interleave (in-memory publication, Kafka claims, watermill, AMQP subscriptions, HTTP and gRPC servers) the model is an \<open>inductive\<close> step relation, and
  properties of all reachable states come from \<open>invariant_machine\<close>. Map iteration and the schedule of goroutines are arbitrary.

  \<^bold>\<open>Interfaces.\<close> Each locale is interpreted on the model's own definitions: \<open>invariant_machine\<close> (eight step relations), \<open>codec\<close> (decimal
  text, base64, hex, RFC 3339, JSON strings, cursors), \<open>acker\<close> (Kafka messages), \<open>keyset_source\<close> (both paginators), \<open>unary_guard\<close> (both
  authorising interceptors), \<open>scram_client\<close> (both Kafka packages) and \<open>watermill_logger\<close> (both adapters).

  \<^bold>\<open>Code that is not in the repository\<close> is a parameter: a function or a record of functions on a world of any type. What the code relies on
  is a named hypothesis, with an instance that satisfies it in the witnesses: \<open>sql_database\<close>, \<open>redis_server\<close>, \<open>grpc_documented\<close>, \<open>status_documented\<close>,
  \<open>recovers\<close>, \<open>broker_hands_on\<close>, \<open>traced_broker\<close>, \<open>marshaler_documented\<close>, \<open>waits_for_ack\<close>, \<open>jwt_documented\<close>, \<open>amqp_broker\<close>, \<open>default_exchange\<close>, \<open>chi_documented\<close>, \<open>chi_inline\<close>, \<open>logs_requests\<close>,
  \<open>passes_on\<close>, \<open>cors_documented\<close>, \<open>retry_neutral\<close>, \<open>tc_documented\<close>, \<open>dt_documented\<close>, \<open>kafka_documented\<close>, \<open>sentry_documented\<close>, \<open>uuid_documented\<close>, \<open>txdb_documented\<close>.
  Concrete error types of other packages are told apart by selectors that are parameters too.

  \<^bold>\<open>Bounds and fuel.\<close> Machine integers are words where their width matters (\<open>Int64\<close>, random words, HTTP statuses of 32 bits). Fuel is
  used in three places: the rounds of the random string (the loop ends exactly when the source has supplied
  enough accepted indices), the depth of \<open>HandleError\<close> (two suffice, unless the write of a body fails with an error that is an HTTP error itself, and then
  no depth does), and the number of requests of a client that follows pages (one more than the rows suffices).
  Other loops are structural, or have a measure: the walk up to the project root by the length of the path, retries by the attempts left.

  \<^bold>\<open>Not modelled.\<close> Generated protobuf code and mocks (the messages used are records), the embedded OpenAPI document of \<^verbatim>\<open>smartbear\<close>, logging calls
  that only forward, formatting of options for logs, the seeding of \<^verbatim>\<open>rand\<close>,
  and the internals of every third-party library.
\<close>

section \<open>A database error on its way to the clients\<close>

lemma plugin_handled:
  assumes "tx_Error tx = Some err" and "tx_Statement tx = Some table"
  shows "\<exists>e. plugin_handleError p tx = Ret (tx\<lparr>tx_Error := Some (ErrApp e)\<rparr>) \<and> (Type e, Message e) = classify err
    \<and> Code e = [] \<and> InternalMessage e = error_text err"
proof -
  obtain ty msg where "classify err = (ty, msg)" by fastforce
  moreover have "\<exists>eds. table_details p ty tx = Ret eds"
    using assms(2) by (cases "TableToErrorDetail p ty") (simp_all add: table_details_def Let_def)
  ultimately show ?thesis
    using assms(1) by (auto simp: plugin_handleError_def)
qed

lemma classify_types:
  "classify err = (ty, msg) \<Longrightarrow> ty \<in> {ErrorTypeNotFound, ErrorTypeInvalid, ErrorTypeConflict, ErrorTypeInternalError}"
  "classify err = (ErrorTypeInternalError, msg) \<Longrightarrow> msg = error_text err"
  by (auto simp: classify_def split: if_splits)

text \<open>
  C13. A database error is translated by the errors plugin, and the translated error is answered by the gRPC error handler
  and by the HTTP error handler. Both transports agree on its class, except that a conflict has the status
  \<open>Unknown\<close> over gRPC. The gRPC client rebuilds the error without its internal message and the HTTP client gets it as problem document;
  an error that the plugin does not classify is reported, and its text, which is the internal one, is in what both clients get.
\<close>

theorem database_error_at_clients:
  assumes "grpc_documented lib" and "\<forall>e. only_app et (ErrApp e) e"
    and "tx_Error tx = Some err" and "tx_Statement tx = Some table"
    and "rw_status w = None" and "rw_writeErr w = None"
  shows "\<exists>e s sent evs w'.
      plugin_handleError p tx = Ret (tx\<lparr>tx_Error := Some (ErrApp e)\<rparr>) \<and> (Type e, Message e) = classify err
    \<and> ErrorToGRPCStatus lib (ErrApp e) = Inr s \<and> lib_Err lib s = Some sent
    \<and> UnmarshalErrorUnaryClientInterceptor lib (Some sent) = Some (ErrApp (e\<lparr>InternalMessage := [], ErrorDetails := []\<rparr>))
    \<and> WriteErrorResponse et w (ErrApp e) = Ret (evs, w')
    \<and> rw_body w' = rw_body w @ marshal_problem (app_problem e) @ [CHR 0x0A]
    \<and> (st_code s, rw_status w') =
        (if Type e = ErrorTypeNotFound then (NotFound, Some 404)
         else if Type e = ErrorTypeInvalid then (InvalidArgument, Some 400)
         else if Type e = ErrorTypeConflict then (Unknown, Some 409)
         else (Internal, Some 500))
    \<and> (PReport (ErrApp e) \<in> set evs \<longleftrightarrow> Type e = ErrorTypeInternalError)
    \<and> (Type e = ErrorTypeInternalError \<longrightarrow> Message e = error_text err \<and> pd_Detail (app_problem e) = Some (error_text err))"
proof -
  obtain e where e: "plugin_handleError p tx = Ret (tx\<lparr>tx_Error := Some (ErrApp e)\<rparr>)" "(Type e, Message e) = classify err"
    using plugin_handled [OF assms(3,4)] by blast
  have types: "Type e \<in> {ErrorTypeNotFound, ErrorTypeInvalid, ErrorTypeConflict, ErrorTypeInternalError}"
    and leak: "Type e = ErrorTypeInternalError \<longrightarrow> Message e = error_text err"
    using classify_types [of err] e(2) by metis+
  then have declared: "Type e \<in> set declared_types"
    by (auto simp: declared_types_def)
  define s where "s = \<lparr>st_code = (case errorTypeToStatusCode (Type e) of Some c \<Rightarrow> c | None \<Rightarrow> Unknown),
      st_message = Type e, st_details = [ErrorResponse (Code e) (Message e)]\<rparr>"
  have "ErrorToGRPCStatus lib (ErrApp e) = Inr s"
    using to_status [OF assms(1), of "ErrApp e" e] by (simp add: s_def)
  moreover have "e\<lparr>InternalMessage := [], ErrorDetails := []\<rparr>
      = \<lparr>Type = Type e, Code = Code e, Message = Message e, InternalMessage = [], ErrorDetails = []\<rparr>"
    by (cases e) simp
  moreover note app_received [OF assms(1) s_def]
  moreover have "WriteErrorResponse et w (ErrApp e) =
      Ret (if HTTPStatus (Type e) = 500 then [PLogInternal (error_text (ErrApp e)), PReport (ErrApp e)] else [],
         w\<lparr>rw_ContentType := Some ''application/problem+json'', rw_status := Some (HTTPStatus (Type e)),
           rw_body := rw_body w @ marshal_problem (app_problem e) @ [CHR 0x0A]\<rparr>)"
    using problem_written [OF assms(5,6), of "ErrApp e" et] problem_of_app [of et "ErrApp e" e] assms(2)
      app_status [OF declared] declared by (simp add: app_declared_def)
  moreover have "st_code s = (if Type e = ErrorTypeNotFound then NotFound else if Type e = ErrorTypeInvalid then InvalidArgument
      else if Type e = ErrorTypeConflict then Unknown else Internal)"
    using types by (auto simp: s_def errorTypeToStatusCode_def)
  ultimately show ?thesis
    using e types leak by (intro exI [of _ e] exI [of _ s]) (auto simp: HTTPStatus_def app_problem_def)
qed

theorem database_error_at_clients_witness:
  "\<exists>e s. plugin_handleError \<lparr>TableToErrorDetail = Map.empty\<rparr> \<lparr>tx_Error = Some (ErrNew ''password wrong''), tx_Statement = Some ''users''\<rparr>
       = Ret \<lparr>tx_Error = Some (ErrApp e), tx_Statement = Some ''users''\<rparr>
     \<and> Message e = ''password wrong'' \<and> ErrorToGRPCStatus example_lib (ErrApp e) = Inr s \<and> st_code s = Internal"
proof -
  have "\<forall>e. only_app example_types (ErrApp e) e"
    by (simp add: only_app_def example_types_def isJSONError_def)
  moreover have "classify (ErrNew ''password wrong'') = (ErrorTypeInternalError, ''password wrong'')"
    by (simp add: classify_def psql_isErrorCode_def errors_Is_def errors_As_def)
  ultimately show ?thesis
    using database_error_at_clients [OF example_lib_documented, of example_types
        "\<lparr>tx_Error = Some (ErrNew ''password wrong''), tx_Statement = Some ''users''\<rparr>" "ErrNew ''password wrong''" "''users''"
        fresh_response "\<lparr>TableToErrorDetail = Map.empty\<rparr>"]
    by (auto simp: fresh_response_def)
qed

end
